theory Spec2Isabelle
  imports Main "HOL-Library.Word" "HOL-Library.Sublist" "HOL-Library.AList"
begin

section \<open>The client websocket connection (client/comms/wsconn.go)\<close>

text \<open>
  The connection is embedded as a record of the fields of the Go struct \<open>wsConn\<close>
  together with the run-time objects the code creates (timers, goroutines, the
  cancellation context) and a trace of the calls it makes on the outside world
  (callbacks, socket operations, the logger).  Every function of the source is a
  function from the connection to the connection it leaves behind; what the environment
  decides (the result of a dial, of a write, of \<open>json.Marshal\<close>) is an argument.
\<close>

subsection \<open>Constants\<close>

type_synonym bytes = string
type_synonym socket = nat
type_synonym callback = nat

text \<open>\<open>time.Duration\<close>: a count of nanoseconds.\<close>

type_synonym duration = int

definition Second :: duration where
  "Second = 1000000000"

definition Minute :: duration where
  "Minute = 60 * Second"

definition readBuffSize :: nat where
  "readBuffSize = 128"

definition writeWait :: duration where
  "writeWait = Second * 3"

definition reconnectInterval :: duration where
  "reconnectInterval = 5 * Second"

definition maxReconnectInterval :: duration where
  "maxReconnectInterval = Minute"

definition DefaultResponseTimeout :: duration where
  "DefaultResponseTimeout = Minute"

datatype ConnectionStatus = Disconnected | Connected | InvalidCert

subsection \<open>Errors\<close>

text \<open>
  An error value made outside this file (by the dialer, the socket, the TLS stack or
  the JSON encoder) is known to the code only through the tests it applies to it:
  its text, \<open>errors.As\<close> against the x509, net and json error types, \<open>errors.Is\<close>
  against the two sentinels, and \<open>websocket.IsCloseError\<close>.  The record holds the
  answer to each test.
\<close>

datatype sentinel = ErrInvalidCert | ErrCertRequired

record go_error =
  errText :: string
  asCertificateInvalidError :: bool
  asHostnameError :: bool
  asUnknownAuthorityError :: bool
  wrapsErrInvalidCert :: bool
  wrapsErrCertRequired :: bool
  netTimeout :: bool
  closeCode :: "nat option"
  opError :: "(string \<times> string) option"
  asUnmarshalTypeError :: bool

text \<open>
  Modelled from the spec: \<open>dex.NewError\<close> (package dex is not among the sources).
  \<open>DexError k text\<close> is the error \<open>dex.NewError(k, text)\<close>, which the spec surfaces as
  the error kind \<open>k\<close> (CertificateRequired, InvalidCertificate): \<open>errors.Is\<close> finds the
  sentinel it was made from.
\<close>

datatype error =
    Foreign go_error
  | Errorf string
  | Sentinel sentinel
  | DexError sentinel string

fun errors_Is :: "error \<Rightarrow> sentinel \<Rightarrow> bool" where
  "errors_Is (Foreign e) ErrInvalidCert = wrapsErrInvalidCert e"
| "errors_Is (Foreign e) ErrCertRequired = wrapsErrCertRequired e"
| "errors_Is (Errorf _) k = False"
| "errors_Is (Sentinel k') k = (k' = k)"
| "errors_Is (DexError k' _) k = (k' = k)"

fun sentinelText :: "sentinel \<Rightarrow> string" where
  "sentinelText ErrInvalidCert = ''invalid certificate''"
| "sentinelText ErrCertRequired = ''certificate required''"

fun Error :: "error \<Rightarrow> string" where
  "Error (Foreign e) = errText e"
| "Error (Errorf s) = s"
| "Error (Sentinel k) = sentinelText k"
| "Error (DexError k s) = sentinelText k @ '': '' @ s"

subsection \<open>Strings and the certificate-error pattern\<close>

definition strings_Contains :: "string \<Rightarrow> string \<Rightarrow> bool" where
  "strings_Contains s substr = sublist substr s"

text \<open>
  The fragment of Go's regular expressions that \<open>invalidCertRegexp\<close> uses: literals,
  \<open>.*\<close> (any run of characters other than a newline), alternation and concatenation.
  \<open>matchPrefix re s\<close> lists what is left of \<open>s\<close> after each way of matching \<open>re\<close> at
  its start; \<open>MatchString\<close> is unanchored, as \<open>(*Regexp).MatchString\<close> is.
\<close>

datatype regexp = Lit string | DotStar | Alt regexp regexp | Cat regexp regexp

fun matchPrefix :: "regexp \<Rightarrow> string \<Rightarrow> string list" where
  "matchPrefix (Lit l) s = (if prefix l s then [drop (length l) s] else [])"
| "matchPrefix DotStar s =
     map (\<lambda>n. drop n s) [0 ..< Suc (length (takeWhile (\<lambda>c. c \<noteq> CHR 0x0A) s))]"
| "matchPrefix (Alt a b) s = matchPrefix a s @ matchPrefix b s"
| "matchPrefix (Cat a b) s = concat (map (matchPrefix b) (matchPrefix a s))"

definition MatchString :: "regexp \<Rightarrow> string \<Rightarrow> bool" where
  "MatchString re s = (\<exists>t \<in> set (suffixes s). matchPrefix re t \<noteq> [])"

definition certAlternatives :: regexp where
  "certAlternatives =
     Alt (Lit ''unknown authority'') (Alt (Lit ''not standards compliant'') (Lit ''not trusted''))"

definition invalidCertRegexp :: regexp where
  "invalidCertRegexp = Cat DotStar certAlternatives"

definition isErrorInvalidCert :: "go_error \<Rightarrow> bool" where
  "isErrorInvalidCert err =
     (asCertificateInvalidError err \<or> asHostnameError err \<or>
      asUnknownAuthorityError err \<or> MatchString invalidCertRegexp (errText err))"

subsection \<open>Messages\<close>

text \<open>
  Modelled from the spec: the message envelope of package msgjson (not among the
  sources), of which the code reads the type discriminator (Request, Response,
  Notification), the 64-bit ID and the route.
\<close>

datatype MessageType = InvalidMessageType | Request | Response | Notification

record Message =
  msgType :: MessageType
  msgID :: "64 word"
  msgRoute :: string
  msgPayload :: bytes

subsection \<open>Configuration and state\<close>

text \<open>
  \<open>WsCfg\<close>: a hook (\<open>ReconnectSync\<close>, \<open>ConnectEventFunc\<close>, \<open>RawHandler\<close>) is
  represented by whether it is set; its calls are recorded in the trace.
\<close>

record WsCfg =
  URL :: string
  PingWait :: duration
  Cert :: bytes
  ReconnectSync :: bool
  ConnectEventFunc :: bool
  RawHandler :: bool
  DisableAutoReconnect :: bool

text \<open>
  \<open>responseHandler\<close>: \<open>expiration\<close> is the address of the timer in the timer store,
  \<open>hf\<close> is the field \<open>f\<close> (the response callback) and \<open>abort\<close> the expire function.
\<close>

record responseHandler =
  expiration :: nat
  hf :: callback
  abort :: callback

text \<open>
  A timer made by \<open>time.AfterFunc(expireTime, doExpire)\<close> in \<open>logReq\<close>.  The closure
  \<open>doExpire\<close> captures the request ID and the expire function.  \<open>Armed\<close>: waiting;
  \<open>Fired\<close>: the duration has passed and the goroutine running \<open>doExpire\<close> has been
  started but has not yet taken the registry lock; \<open>Stopped\<close>: \<open>Stop\<close> was called
  while it was armed; \<open>Expired\<close>: \<open>doExpire\<close> has run.
\<close>

datatype timer_state = Armed | Fired | Stopped | Expired

record timer =
  tmState :: timer_state
  tmAfter :: duration
  tmID :: "64 word"
  tmExpire :: callback

text \<open>
  Where the caller of \<open>RequestRawWithTimeout\<close> stands: after \<open>logReq\<close> and before
  \<open>SendRaw\<close>; inside \<open>SendRaw\<close>, after its status test and before it takes the socket
  lock; after a failed \<open>SendRaw\<close> and before \<open>respHandler\<close>; returned.
\<close>

datatype call_pc =
    InFlight "64 word" bytes
  | Checked "64 word" bytes
  | SendFailed "64 word" error
  | Returned "error option"

datatype panic = NilDereference | CloseOfClosedChannel | SendOnClosedChannel

text \<open>
  Where the goroutine started last by \<open>Connect\<close> stands: not started; waiting for the
  context; after \<open>setConnectionStatus(Disconnected)\<close>; after the socket was closed under
  the socket lock; finished.
\<close>

datatype watcher_state = NotStarted | Waiting | StatusSet | SocketDone | Finished

text \<open>Who is inside \<open>connect\<close>, between the install of the socket and the status write.\<close>

datatype caller = ByConnect | ByKeepAlive

text \<open>What the connection does to the outside world, in the order it does it.\<close>

datatype event =
    ConnectEvent ConnectionStatus
  | Cancelled
  | CloseFrame socket
  | SocketClosed socket
  | Wrote socket bytes
  | TimerStop nat
  | RanCallback responseHandler Message
  | RanExpire nat callback
  | RanAbort responseHandler
  | ReadChClosed
  | RawHandled bytes
  | AfterFunc duration
  | ReconnectSynced
  | Logged string

text \<open>
  The struct \<open>wsConn\<close> (\<open>cfg\<close>, \<open>ws\<close>, \<open>connectionStatus\<close>, \<open>respHandlers\<close>,
  \<open>readCh\<close>, \<open>reconnectCh\<close>, \<open>cancel\<close>, \<open>wg\<close>) and the run-time state around it.
  \<open>respHandlers\<close> is an association list with distinct keys: the order stands for the
  order in which \<open>range\<close> visits the map.  \<open>readCh\<close> is the buffer of the channel and
  \<open>reconnectCh\<close> the number of signals buffered in the capacity-1 trigger channel.
  \<open>cancelSet\<close> says that \<open>Connect\<close> has stored \<open>conn.cancel\<close>; \<open>ctxDone\<close> that the
  internal context is cancelled.  \<open>rcInt\<close> is the local variable of \<open>keepAlive\<close>.
  \<open>connecting\<close> names the caller of a \<open>connect\<close> that has installed its socket and not
  yet set the status; \<open>pendingWrites\<close> counts the calls of \<open>SendRaw\<close> from outside a
  request that have passed the status test and not yet written.
\<close>

record wsConn =
  cfg :: WsCfg
  ws :: "socket option"
  connectionStatus :: ConnectionStatus
  respHandlers :: "(64 word \<times> responseHandler) list"
  readCh :: "Message list"
  readChClosed :: bool
  reconnectCh :: nat
  cancelSet :: bool
  ctxDone :: bool
  wg :: nat
  readers :: nat
  keepAliveRunning :: bool
  rcInt :: duration
  watcher :: watcher_state
  reconnectTimers :: nat
  timers :: "timer list"
  calls :: "call_pc list"
  connecting :: "caller option"
  pendingWrites :: nat
  trace :: "event list"

text \<open>
  How a function of the source ends: it returns (\<open>Ok\<close>), it waits at a channel
  operation or at \<open>wg.Wait\<close> that cannot proceed in this state (\<open>Blocked\<close>, with the
  connection as it is at that point), or it panics.
\<close>

datatype 'a result = Ok 'a | Blocked wsConn | Panicked panic

definition emit :: "event \<Rightarrow> wsConn \<Rightarrow> wsConn" where
  "emit ev conn = conn\<lparr>trace := trace conn @ [ev]\<rparr>"

subsection \<open>Construction and status\<close>

text \<open>
  \<open>NewWsConn\<close>; \<open>urlOk\<close> and \<open>pemOk\<close> are the results of \<open>url.Parse\<close> and of
  \<open>AppendCertsFromPEM\<close>.  The fields not set by the source have Go's zero values.
\<close>

definition NewWsConn :: "WsCfg \<Rightarrow> bool \<Rightarrow> bool \<Rightarrow> error + wsConn" where
  "NewWsConn c urlOk pemOk =
     (if PingWait c < 0 then Inl (Errorf ''ping wait cannot be negative'')
      else if \<not> urlOk then Inl (Errorf ''error parsing URL'')
      else if length (Cert c) > 0 \<and> \<not> pemOk then Inl (Sentinel ErrInvalidCert)
      else Inr \<lparr>cfg = c, ws = None, connectionStatus = Disconnected, respHandlers = [],
                readCh = [], readChClosed = False, reconnectCh = 0, cancelSet = False,
                ctxDone = False, wg = 0, readers = 0, keepAliveRunning = False,
                rcInt = 0, watcher = NotStarted, reconnectTimers = 0, timers = [],
                calls = [], connecting = None, pendingWrites = 0, trace = []\<rparr>)"

definition IsDown :: "wsConn \<Rightarrow> bool" where
  "IsDown conn = (connectionStatus conn \<noteq> Connected)"

definition setConnectionStatus :: "ConnectionStatus \<Rightarrow> wsConn \<Rightarrow> wsConn" where
  "setConnectionStatus status conn =
     (let oldStatus = connectionStatus conn;
          conn' = conn\<lparr>connectionStatus := status\<rparr>
      in if oldStatus \<noteq> status \<and> ConnectEventFunc (cfg conn)
         then emit (ConnectEvent status) conn' else conn')"

subsection \<open>The request registry\<close>

definition stopTimer :: "nat \<Rightarrow> wsConn \<Rightarrow> wsConn" where
  "stopTimer t conn =
     emit (TimerStop t)
       (if t < length (timers conn) \<and> tmState (timers conn ! t) = Armed
        then conn\<lparr>timers := (timers conn)[t := (timers conn ! t)\<lparr>tmState := Stopped\<rparr>]\<rparr>
        else conn)"

definition expire :: "64 word \<Rightarrow> wsConn \<Rightarrow> bool \<times> wsConn" where
  "expire rid conn =
     (map_of (respHandlers conn) rid \<noteq> None,
      conn\<lparr>respHandlers := AList.delete rid (respHandlers conn)\<rparr>)"

text \<open>The closure \<open>doExpire\<close> of the timer at address \<open>t\<close>.\<close>

definition doExpire :: "nat \<Rightarrow> wsConn \<Rightarrow> wsConn" where
  "doExpire t conn =
     (let tm = timers conn ! t;
          (removed, conn') = expire (tmID tm) conn
      in if removed then emit (RanExpire t (tmExpire tm)) conn' else conn')"

definition logReq :: "64 word \<Rightarrow> callback \<Rightarrow> duration \<Rightarrow> callback \<Rightarrow> wsConn \<Rightarrow> wsConn" where
  "logReq rid respHandler expireTime expireF conn =
     (let t = length (timers conn)
      in conn\<lparr>timers := timers conn @
                 [\<lparr>tmState = Armed, tmAfter = expireTime, tmID = rid, tmExpire = expireF\<rparr>],
               respHandlers :=
                 AList.update rid \<lparr>expiration = t, hf = respHandler, abort = expireF\<rparr>
                   (respHandlers conn)\<rparr>)"

definition respHandler :: "64 word \<Rightarrow> wsConn \<Rightarrow> responseHandler option \<times> wsConn" where
  "respHandler rid conn =
     (case map_of (respHandlers conn) rid of
        None \<Rightarrow> (None, conn)
      | Some cb \<Rightarrow>
          (Some cb,
           (stopTimer (expiration cb) conn)\<lparr>respHandlers := AList.delete rid (respHandlers conn)\<rparr>))"

subsection \<open>Sending\<close>

text \<open>What the socket answers to \<open>SetWriteDeadline\<close> and \<open>WriteMessage\<close>.\<close>

datatype write_outcome = WriteOk | SetWriteDeadlineFailed error | WriteMessageFailed error

definition brokenConnection :: error where
  "brokenConnection = Errorf ''cannot send on a broken connection''"

definition SendRaw :: "write_outcome \<Rightarrow> bytes \<Rightarrow> wsConn \<Rightarrow> (error option \<times> wsConn) result" where
  "SendRaw w b conn =
     (if IsDown conn then Ok (Some brokenConnection, conn)
      else case ws conn of
        None \<Rightarrow> Panicked NilDereference
      | Some sock \<Rightarrow>
          (case w of
             SetWriteDeadlineFailed err \<Rightarrow>
               Ok (Some err, emit (Logged ''Send: failed to set write deadline'') conn)
           | WriteMessageFailed err \<Rightarrow>
               Ok (Some err, emit (Logged ''Send: WriteMessage error'') conn)
           | WriteOk \<Rightarrow> Ok (None, emit (Wrote sock b) conn)))"

text \<open>The part of \<open>SendRaw\<close> that runs under the socket lock, after the status test.\<close>

definition writeLocked :: "write_outcome \<Rightarrow> bytes \<Rightarrow> wsConn \<Rightarrow> (error option \<times> wsConn) result" where
  "writeLocked w b conn =
     (case ws conn of
        None \<Rightarrow> Panicked NilDereference
      | Some sock \<Rightarrow>
          (case w of
             SetWriteDeadlineFailed err \<Rightarrow>
               Ok (Some err, emit (Logged ''Send: failed to set write deadline'') conn)
           | WriteMessageFailed err \<Rightarrow>
               Ok (Some err, emit (Logged ''Send: WriteMessage error'') conn)
           | WriteOk \<Rightarrow> Ok (None, emit (Wrote sock b) conn)))"

text \<open>\<open>Send\<close>; \<open>marshal\<close> is \<open>json.Marshal\<close>.\<close>

definition Send ::
  "(Message \<Rightarrow> error + bytes) \<Rightarrow> write_outcome \<Rightarrow> Message \<Rightarrow> wsConn \<Rightarrow>
     (error option \<times> wsConn) result" where
  "Send marshal w msg conn =
     (if IsDown conn then Ok (Some brokenConnection, conn)
      else case marshal msg of
        Inl err \<Rightarrow> Ok (Some err, emit (Logged ''Failed to marshal message'') conn)
      | Inr b \<Rightarrow> SendRaw w b conn)"

definition RequestRawWithTimeout ::
  "write_outcome \<Rightarrow> 64 word \<Rightarrow> bytes \<Rightarrow> callback \<Rightarrow> duration \<Rightarrow> callback \<Rightarrow> wsConn \<Rightarrow>
     (error option \<times> wsConn) result" where
  "RequestRawWithTimeout w rid rawMsg f expireTime expireF conn =
     (case SendRaw w rawMsg (logReq rid f expireTime expireF conn) of
        Panicked p \<Rightarrow> Panicked p
      | Blocked c \<Rightarrow> Blocked c
      | Ok (None, conn') \<Rightarrow> Ok (None, conn')
      | Ok (Some err, conn') \<Rightarrow> Ok (Some err, snd (respHandler rid conn')))"

definition notARequest :: error where
  "notARequest = Errorf ''Message is not a request''"

definition RequestWithTimeout ::
  "(Message \<Rightarrow> error + bytes) \<Rightarrow> write_outcome \<Rightarrow> Message \<Rightarrow> callback \<Rightarrow> duration \<Rightarrow>
     callback \<Rightarrow> wsConn \<Rightarrow> (error option \<times> wsConn) result" where
  "RequestWithTimeout marshal w msg f expireTime expireF conn =
     (if msgType msg \<noteq> Request then Ok (Some notARequest, conn)
      else case marshal msg of
        Inl err \<Rightarrow> Ok (Some err, emit (Logged ''Failed to marshal message'') conn)
      | Inr rawMsg \<Rightarrow>
          (case RequestRawWithTimeout w (msgID msg) rawMsg f expireTime expireF conn of
             Panicked p \<Rightarrow> Panicked p
           | Blocked c \<Rightarrow> Blocked c
           | Ok (None, conn') \<Rightarrow> Ok (None, conn')
           | Ok (Some err, conn') \<Rightarrow>
               Ok (Some err, emit (Logged ''Send error, unregistering handler'') conn')))"

text \<open>The frames written to sockets, read off a trace.\<close>

fun writes :: "event list \<Rightarrow> (socket \<times> bytes) list" where
  "writes [] = []"
| "writes (Wrote sock b # evs) = (sock, b) # writes evs"
| "writes (_ # evs) = writes evs"

subsection \<open>Dialling\<close>

text \<open>\<open>conn.close()\<close> on the socket \<open>conn.ws\<close> points to; every caller tests for nil first.\<close>

definition close :: "socket \<Rightarrow> wsConn \<Rightarrow> wsConn" where
  "close sock conn = emit (SocketClosed sock) (emit (CloseFrame sock) conn)"

text \<open>
  What \<open>dialer.DialContext\<close> answers: an error, or a socket together with the answer
  of \<open>SetReadDeadline\<close> on it.
\<close>

datatype dial_outcome = DialFailed go_error | DialOk socket "error option"

definition connect :: "dial_outcome \<Rightarrow> wsConn \<Rightarrow> error option \<times> wsConn" where
  "connect d conn =
     (case d of
        DialFailed err \<Rightarrow>
          if isErrorInvalidCert err then
            (let conn' = setConnectionStatus InvalidCert conn
             in if length (Cert (cfg conn)) = 0
                then (Some (DexError ErrCertRequired (errText err)), conn')
                else (Some (DexError ErrInvalidCert (errText err)), conn'))
          else (Some (Foreign err), setConnectionStatus Disconnected conn)
      | DialOk sock (Some err) \<Rightarrow> (Some err, emit (Logged ''set read deadline failed'') conn)
      | DialOk sock None \<Rightarrow>
          (let conn1 = (case ws conn of None \<Rightarrow> conn | Some old \<Rightarrow> close old conn);
               conn2 = conn1\<lparr>ws := Some sock\<rparr>;
               conn3 = setConnectionStatus Connected conn2
           in (None, conn3\<lparr>wg := wg conn3 + 1, readers := readers conn3 + 1\<rparr>)))"

text \<open>
  The two parts of a \<open>connect\<close> whose dial succeeded: what it does under the socket lock
  (\<open>if conn.ws != nil { conn.close() }; conn.ws = ws\<close>), and what it does after it has
  released the lock (\<open>setConnectionStatus(Connected)\<close>, \<open>wg.Add(1)\<close>, \<open>go read\<close>).
\<close>

definition installSocket :: "socket \<Rightarrow> wsConn \<Rightarrow> wsConn" where
  "installSocket sock conn =
     (case ws conn of None \<Rightarrow> conn | Some old \<Rightarrow> close old conn)\<lparr>ws := Some sock\<rparr>"

definition startReader :: "wsConn \<Rightarrow> wsConn" where
  "startReader conn =
     (let conn3 = setConnectionStatus Connected conn
      in conn3\<lparr>wg := wg conn3 + 1, readers := readers conn3 + 1\<rparr>)"

subsection \<open>The reconnect trigger and the read loops\<close>

definition reconnectChCap :: nat where
  "reconnectChCap = 1"

text \<open>The statement \<open>conn.reconnectCh <- struct{}{}\<close>.\<close>

definition sendReconnect :: "wsConn \<Rightarrow> wsConn result" where
  "sendReconnect conn =
     (if reconnectCh conn < reconnectChCap
      then Ok (conn\<lparr>reconnectCh := reconnectCh conn + 1\<rparr>)
      else Blocked conn)"

text \<open>The closure \<open>reconnect\<close> of \<open>handleReadError\<close>.\<close>

definition reconnect :: "wsConn \<Rightarrow> wsConn result" where
  "reconnect conn =
     (let conn' = setConnectionStatus Disconnected conn
      in if \<not> DisableAutoReconnect (cfg conn) then sendReconnect conn' else Ok conn')"

definition handleReadError :: "go_error \<Rightarrow> wsConn \<Rightarrow> wsConn result" where
  "handleReadError err conn =
     (if netTimeout err then reconnect (emit (Logged ''Read timeout on connection'') conn)
      else if closeCode err = Some 1001 \<or> closeCode err = Some 1000 \<or>
              strings_Contains (errText err) ''websocket: close sent''
      then reconnect conn
      else if (case opError err of
                 None \<Rightarrow> False
               | Some (op, inner) \<Rightarrow>
                   op = ''read'' \<and> strings_Contains inner ''use of closed network connection'')
      then reconnect (emit (Logged ''read quitting'') conn)
      else reconnect (emit (Logged ''read error, attempting reconnection'') conn))"

text \<open>The statement \<open>conn.readCh <- msg\<close>.\<close>

definition sendReadCh :: "Message \<Rightarrow> wsConn \<Rightarrow> wsConn result" where
  "sendReadCh msg conn =
     (if readChClosed conn then Panicked SendOnClosedChannel
      else if length (readCh conn) < readBuffSize then Ok (conn\<lparr>readCh := readCh conn @ [msg]\<rparr>)
      else Blocked conn)"

text \<open>The end of a read goroutine (\<open>defer conn.wg.Done()\<close>).\<close>

definition exitReader :: "wsConn \<Rightarrow> wsConn" where
  "exitReader conn = conn\<lparr>readers := readers conn - 1, wg := wg conn - 1\<rparr>"

text \<open>
  One pass through the loop of \<open>read\<close>, given what \<open>ws.ReadJSON\<close> answered.  The
  goroutine that runs the callback is started and finished within the pass.
\<close>

datatype read_outcome = Received Message | ReadError go_error

definition read :: "read_outcome \<Rightarrow> wsConn \<Rightarrow> wsConn result" where
  "read r conn =
     (if ctxDone conn then Ok (exitReader conn)
      else case r of
        ReadError err \<Rightarrow>
          if asUnmarshalTypeError err then Ok (emit (Logged ''json decode error'') conn)
          else (case handleReadError err conn of
                  Ok conn' \<Rightarrow> Ok (exitReader conn')
                | other \<Rightarrow> other)
      | Received msg \<Rightarrow>
          if msgType msg = Response then
            (case respHandler (msgID msg) conn of
               (None, conn') \<Rightarrow> Ok (emit (Logged ''No handler found for response'') conn')
             | (Some handler, conn') \<Rightarrow> Ok (emit (RanCallback handler msg) conn'))
          else sendReadCh msg conn)"

datatype raw_outcome = ReceivedRaw bytes | RawReadError go_error

definition readRaw :: "raw_outcome \<Rightarrow> wsConn \<Rightarrow> wsConn result" where
  "readRaw r conn =
     (if ctxDone conn then Ok (exitReader conn)
      else case r of
        RawReadError err \<Rightarrow>
          (case handleReadError err conn of
             Ok conn' \<Rightarrow> Ok (exitReader conn')
           | other \<Rightarrow> other)
      | ReceivedRaw b \<Rightarrow> Ok (emit (RawHandled b) conn))"

subsection \<open>The keepalive loop\<close>

text \<open>\<open>time.AfterFunc(d, func() { conn.reconnectCh <- struct{}{} })\<close>.\<close>

definition afterFuncReconnect :: "duration \<Rightarrow> wsConn \<Rightarrow> wsConn" where
  "afterFuncReconnect d conn =
     emit (AfterFunc d) (conn\<lparr>reconnectTimers := reconnectTimers conn + 1\<rparr>)"

definition exitKeepAlive :: "wsConn \<Rightarrow> wsConn" where
  "exitKeepAlive conn = conn\<lparr>keepAliveRunning := False, wg := wg conn - 1\<rparr>"

text \<open>
  One pass through the loop of \<open>keepAlive\<close>: the case of the \<open>select\<close> that is taken,
  with the answer of the dial for the reconnect case.
\<close>

datatype select_case = RecvReconnect dial_outcome | CtxDone

definition keepAlive :: "select_case \<Rightarrow> wsConn \<Rightarrow> wsConn result" where
  "keepAlive sc conn =
     (case sc of
        CtxDone \<Rightarrow> if ctxDone conn then Ok (exitKeepAlive conn) else Blocked conn
      | RecvReconnect d \<Rightarrow>
          if reconnectCh conn = 0 then Blocked conn
          else
            (let conn0 = conn\<lparr>reconnectCh := reconnectCh conn - 1\<rparr>
             in if ctxDone conn0 then Ok (exitKeepAlive conn0)
                else
                  (case connect d (emit (Logged ''Attempting to reconnect'') conn0) of
                     (Some err, conn1) \<Rightarrow>
                       (let conn2 = afterFuncReconnect (rcInt conn1)
                                      (emit (Logged ''Reconnect failed. Scheduling reconnect'') conn1)
                        in Ok (if rcInt conn2 < maxReconnectInterval
                               then conn2\<lparr>rcInt := rcInt conn2 + reconnectInterval\<rparr>
                               else conn2))
                   | (None, conn1) \<Rightarrow>
                       (let conn2 = (emit (Logged ''Successfully reconnected.'') conn1)
                                      \<lparr>rcInt := reconnectInterval\<rparr>
                        in Ok (if ReconnectSync (cfg conn2) then emit ReconnectSynced conn2
                               else conn2)))))"

text \<open>What a pass of \<open>keepAlive\<close> does after \<open>connect\<close> has returned nil.\<close>

definition reconnected :: "wsConn \<Rightarrow> wsConn" where
  "reconnected conn1 =
     (let conn2 = (emit (Logged ''Successfully reconnected.'') conn1)\<lparr>rcInt := reconnectInterval\<rparr>
      in if ReconnectSync (cfg conn2) then emit ReconnectSynced conn2 else conn2)"

text \<open>
  A run of reconnect attempts: for each dial answer in turn, a trigger arrives on the
  trigger channel and the loop makes one pass.
\<close>

fun reconnectAttempts :: "dial_outcome list \<Rightarrow> wsConn \<Rightarrow> wsConn result" where
  "reconnectAttempts [] conn = Ok conn"
| "reconnectAttempts (d # ds) conn =
     (case sendReconnect conn of
        Ok conn1 \<Rightarrow>
          (case keepAlive (RecvReconnect d) conn1 of
             Ok conn2 \<Rightarrow> reconnectAttempts ds conn2
           | other \<Rightarrow> other)
      | other \<Rightarrow> other)"

text \<open>The delays of the reconnect timers scheduled, read off a trace.\<close>

fun scheduled :: "event list \<Rightarrow> duration list" where
  "scheduled [] = []"
| "scheduled (AfterFunc d # evs) = d # scheduled evs"
| "scheduled (_ # evs) = scheduled evs"

fun dialFails :: "dial_outcome \<Rightarrow> bool" where
  "dialFails (DialFailed _) = True"
| "dialFails (DialOk _ (Some _)) = True"
| "dialFails (DialOk _ None) = False"

text \<open>
  The backoff schedule in the words of the specification: the \<open>k\<close>-th failure in a row
  waits \<open>5 k\<close> seconds, at most 60; a success starts the count again.  The argument
  \<open>k\<close> counts the failures since the last success.
\<close>

fun backoffSchedule :: "bool list \<Rightarrow> nat \<Rightarrow> duration list" where
  "backoffSchedule [] k = []"
| "backoffSchedule (True # fails) k =
     min (int (Suc k) * (5 * Second)) (60 * Second) # backoffSchedule fails (Suc k)"
| "backoffSchedule (False # fails) k = backoffSchedule fails 0"

subsection \<open>Connect, Stop and the shutdown watcher\<close>

definition cancel :: "wsConn \<Rightarrow> wsConn" where
  "cancel conn = emit Cancelled (conn\<lparr>ctxDone := True\<rparr>)"

text \<open>The statement \<open>close(conn.readCh)\<close>.\<close>

definition closeReadCh :: "wsConn \<Rightarrow> wsConn result" where
  "closeReadCh conn =
     (if readChClosed conn then Panicked CloseOfClosedChannel
      else Ok (emit ReadChClosed (conn\<lparr>readChClosed := True\<rparr>)))"

text \<open>
  The two \<open>go\<close> statements that end \<open>Connect\<close>; \<open>keepAlive\<close> begins with
  \<open>rcInt := reconnectInterval\<close>.
\<close>

definition startTasks :: "wsConn \<Rightarrow> wsConn" where
  "startTasks conn =
     (let conn1 = (if \<not> DisableAutoReconnect (cfg conn)
                   then conn\<lparr>wg := wg conn + 1, keepAliveRunning := True,
                             rcInt := reconnectInterval\<rparr>
                   else conn)
      in conn1\<lparr>wg := wg conn1 + 1, watcher := Waiting\<rparr>)"

text \<open>
  \<open>Connect\<close>.  The first component of the value returned says whether the wait-group
  pointer is non-nil.
\<close>

definition Connect :: "dial_outcome \<Rightarrow> wsConn \<Rightarrow> ((bool \<times> error option) \<times> wsConn) result" where
  "Connect d conn =
     (case connect d (conn\<lparr>cancelSet := True, ctxDone := False\<rparr>) of
        (Some err, conn1) \<Rightarrow>
          if DisableAutoReconnect (cfg conn1) \<or> errors_Is err ErrInvalidCert \<or>
             errors_Is err ErrCertRequired
          then
            (let conn2 = cancel conn1
             in if wg conn2 \<noteq> 0 then Blocked conn2
                else (case closeReadCh conn2 of
                        Ok conn3 \<Rightarrow> Ok ((False, Some err), conn3)
                      | Blocked c \<Rightarrow> Blocked c
                      | Panicked p \<Rightarrow> Panicked p))
          else
            Ok ((True, None),
                startTasks
                  (afterFuncReconnect (5 * Second)
                     (emit (Logged ''Initial connection failed, starting reconnect loop'') conn1)))
      | (None, conn1) \<Rightarrow> Ok ((True, None), startTasks conn1))"

text \<open>The loop \<open>for id, h := range conn.respHandlers\<close> of the watcher.\<close>

fun drainHandlers :: "(64 word \<times> responseHandler) list \<Rightarrow> wsConn \<Rightarrow> wsConn" where
  "drainHandlers [] conn = conn"
| "drainHandlers ((rid, h) # hs) conn =
     drainHandlers hs
       (emit (RanAbort h)
          (stopTimer (expiration h)
             (conn\<lparr>respHandlers := AList.delete rid (respHandlers conn)\<rparr>)))"

text \<open>The goroutine started last by \<open>Connect\<close>, from \<open><-ctxInternal.Done()\<close> on.\<close>

definition shutdownWatcher :: "wsConn \<Rightarrow> wsConn result" where
  "shutdownWatcher conn =
     (if \<not> ctxDone conn then Blocked conn
      else
        (let conn1 = setConnectionStatus Disconnected conn;
             conn2 = (case ws conn1 of
                        None \<Rightarrow> conn1
                      | Some sock \<Rightarrow>
                          close sock (emit (Logged ''Sending close 1000 (normal) message.'') conn1));
             conn3 = drainHandlers (respHandlers conn2) conn2
         in case closeReadCh conn3 of
              Ok conn4 \<Rightarrow> Ok (conn4\<lparr>watcher := Finished, wg := wg conn4 - 1\<rparr>)
            | other \<Rightarrow> other))"

text \<open>
  The watcher holds no lock from one of its three parts to the next: the status write,
  the close of the socket under the socket lock, and the drain of the registry together
  with \<open>close(conn.readCh)\<close> under the registry lock.
\<close>

definition closeSocket :: "wsConn \<Rightarrow> wsConn" where
  "closeSocket conn =
     (case ws conn of
        None \<Rightarrow> conn
      | Some sock \<Rightarrow> close sock (emit (Logged ''Sending close 1000 (normal) message.'') conn))"

definition drainAndClose :: "wsConn \<Rightarrow> wsConn result" where
  "drainAndClose conn =
     (case closeReadCh (drainHandlers (respHandlers conn) conn) of
        Ok conn4 \<Rightarrow> Ok (conn4\<lparr>watcher := Finished, wg := wg conn4 - 1\<rparr>)
      | other \<Rightarrow> other)"

subsection \<open>The connection as a transition system\<close>

text \<open>
  The goroutines of a connection interleave.  An action is a stretch of one goroutine
  that the others cannot cut in a way a property below could tell: at least every
  stretch under one lock and every single atomic operation.  Two accesses that an
  invariant relates are never in one action.  So a \<open>connect\<close> whose dial succeeds is two
  actions: the install of the socket under the socket lock, and \<open>FinishConnect\<close>, the
  status write after the unlock.  \<open>SendRaw\<close> is two actions: the status test, which takes
  no lock, and the write under the socket lock.  \<open>RequestRawWithTimeout\<close> is \<open>logReq\<close>,
  the two actions of \<open>SendRaw\<close>, and \<open>respHandler\<close> after a failed send; a call is named
  by the address of the timer its \<open>logReq\<close> made.  The watcher is three actions: the
  status write, the close of the socket, and the drain with the close of the channel.

  Stretches that follow each other in one goroutine are one action where the
  invariants below hold of the states between them as they do of the states around
  them, and the other goroutines can do there what they can do before or after: the
  receive of a trigger with the dial and the install after it; a \<open>connect\<close> whose dial fails,
  which writes the status only, with the rest of the pass of its caller (for \<open>Connect\<close>
  on its hard-failure path: \<open>cancel\<close>, \<open>wg.Wait\<close> with no task started, and the close of
  the channel); the status write of \<open>FinishConnect\<close> with the \<open>go\<close> statements after it;
  in \<open>handleReadError\<close> the status write with the send of the trigger and the end of the
  read goroutine; the removal of a handler from the registry with the start of its
  callback, expire function or abort.

  \<open>Connect\<close> is called once on a connection, before \<open>Stop\<close>.  \<open>step\<close> is \<open>None\<close> where
  the action cannot happen in the state (the goroutine does not exist or is elsewhere,
  waits, or would panic).
\<close>

datatype action =
    CallConnect dial_outcome
  | FinishConnect
  | CallStop
  | WatcherSetStatus
  | WatcherCloseSocket
  | WatcherDrain
  | RunKeepAlive select_case
  | RunRead read_outcome
  | RunReadRaw raw_outcome
  | FireReconnectTimer
  | CallRequestRaw "64 word" bytes callback duration callback
  | CallCheckStatus nat
  | CallWrite nat write_outcome
  | CallUnregister nat
  | FireTimer nat
  | RunDoExpire nat
  | SendCheckStatus
  | SendWrite bytes write_outcome
  | Receive

fun returned :: "wsConn result \<Rightarrow> wsConn option" where
  "returned (Ok conn) = Some conn"
| "returned (Blocked _) = None"
| "returned (Panicked _) = None"

fun step :: "action \<Rightarrow> wsConn \<Rightarrow> wsConn option" where
  "step (CallConnect d) conn =
     (if cancelSet conn then None
      else case d of
        DialOk sock None \<Rightarrow>
          Some ((installSocket sock (conn\<lparr>cancelSet := True, ctxDone := False\<rparr>))
                  \<lparr>connecting := Some ByConnect\<rparr>)
      | _ \<Rightarrow> (case Connect d conn of Ok (_, conn') \<Rightarrow> Some conn' | _ \<Rightarrow> None))"
| "step FinishConnect conn =
     (case connecting conn of
        None \<Rightarrow> None
      | Some ByConnect \<Rightarrow> Some ((startTasks (startReader conn))\<lparr>connecting := None\<rparr>)
      | Some ByKeepAlive \<Rightarrow> Some ((reconnected (startReader conn))\<lparr>connecting := None\<rparr>))"
| "step CallStop conn = (if cancelSet conn then Some (cancel conn) else None)"
| "step WatcherSetStatus conn =
     (if watcher conn = Waiting \<and> ctxDone conn
      then Some ((setConnectionStatus Disconnected conn)\<lparr>watcher := StatusSet\<rparr>)
      else None)"
| "step WatcherCloseSocket conn =
     (if watcher conn = StatusSet then Some ((closeSocket conn)\<lparr>watcher := SocketDone\<rparr>)
      else None)"
| "step WatcherDrain conn =
     (if watcher conn = SocketDone then returned (drainAndClose conn) else None)"
| "step (RunKeepAlive sc) conn =
     (if keepAliveRunning conn \<and> connecting conn = None then
        (case sc of
           RecvReconnect (DialOk sock None) \<Rightarrow>
             (if reconnectCh conn = 0 then None
              else if ctxDone conn
              then Some (exitKeepAlive (conn\<lparr>reconnectCh := reconnectCh conn - 1\<rparr>))
              else Some ((installSocket sock
                            (emit (Logged ''Attempting to reconnect'')
                               (conn\<lparr>reconnectCh := reconnectCh conn - 1\<rparr>)))
                           \<lparr>connecting := Some ByKeepAlive\<rparr>))
         | _ \<Rightarrow> returned (keepAlive sc conn))
      else None)"
| "step (RunRead r) conn =
     (if 0 < readers conn \<and> \<not> RawHandler (cfg conn) then returned (read r conn) else None)"
| "step (RunReadRaw r) conn =
     (if 0 < readers conn \<and> RawHandler (cfg conn) then returned (readRaw r conn) else None)"
| "step FireReconnectTimer conn =
     (if 0 < reconnectTimers conn
      then returned (sendReconnect (conn\<lparr>reconnectTimers := reconnectTimers conn - 1\<rparr>))
      else None)"
| "step (CallRequestRaw rid rawMsg f expireTime expireF) conn =
     Some ((logReq rid f expireTime expireF conn)\<lparr>calls := calls conn @ [InFlight rid rawMsg]\<rparr>)"
| "step (CallCheckStatus t) conn =
     (if t < length (calls conn) then
        (case calls conn ! t of
           InFlight rid rawMsg \<Rightarrow>
             Some (conn\<lparr>calls := (calls conn)
                            [t := (if IsDown conn then SendFailed rid brokenConnection
                                   else Checked rid rawMsg)]\<rparr>)
         | _ \<Rightarrow> None)
      else None)"
| "step (CallWrite t w) conn =
     (if t < length (calls conn) then
        (case calls conn ! t of
           Checked rid rawMsg \<Rightarrow>
             (case writeLocked w rawMsg conn of
                Ok (None, conn') \<Rightarrow> Some (conn'\<lparr>calls := (calls conn')[t := Returned None]\<rparr>)
              | Ok (Some err, conn') \<Rightarrow>
                  Some (conn'\<lparr>calls := (calls conn')[t := SendFailed rid err]\<rparr>)
              | _ \<Rightarrow> None)
         | _ \<Rightarrow> None)
      else None)"
| "step (CallUnregister t) conn =
     (if t < length (calls conn) then
        (case calls conn ! t of
           SendFailed rid err \<Rightarrow>
             Some ((snd (respHandler rid conn))\<lparr>calls := (calls conn)[t := Returned (Some err)]\<rparr>)
         | _ \<Rightarrow> None)
      else None)"
| "step (FireTimer t) conn =
     (if t < length (timers conn) \<and> tmState (timers conn ! t) = Armed
      then Some (conn\<lparr>timers := (timers conn)[t := (timers conn ! t)\<lparr>tmState := Fired\<rparr>]\<rparr>)
      else None)"
| "step (RunDoExpire t) conn =
     (if t < length (timers conn) \<and> tmState (timers conn ! t) = Fired
      then Some (doExpire t
                   (conn\<lparr>timers := (timers conn)[t := (timers conn ! t)\<lparr>tmState := Expired\<rparr>]\<rparr>))
      else None)"
| "step SendCheckStatus conn =
     (if IsDown conn then Some conn
      else Some (conn\<lparr>pendingWrites := pendingWrites conn + 1\<rparr>))"
| "step (SendWrite b w) conn =
     (if 0 < pendingWrites conn then
        (case writeLocked w b conn of
           Ok (_, conn') \<Rightarrow> Some (conn'\<lparr>pendingWrites := pendingWrites conn' - 1\<rparr>)
         | _ \<Rightarrow> None)
      else None)"
| "step Receive conn =
     (case readCh conn of [] \<Rightarrow> None | m # ms \<Rightarrow> Some (conn\<lparr>readCh := ms\<rparr>))"

fun run :: "action list \<Rightarrow> wsConn \<Rightarrow> wsConn option" where
  "run [] conn = Some conn"
| "run (a # as) conn = (case step a conn of None \<Rightarrow> None | Some conn' \<Rightarrow> run as conn')"

text \<open>The states a connection made with configuration \<open>c\<close> can be in.\<close>

inductive reach :: "WsCfg \<Rightarrow> wsConn \<Rightarrow> bool" for c :: WsCfg where
  reach_new: "NewWsConn c urlOk pemOk = Inr conn \<Longrightarrow> reach c conn"
| reach_step: "reach c conn \<Longrightarrow> step a conn = Some conn' \<Longrightarrow> reach c conn'"

text \<open>
  How often the callback, the expire function or the abort of the call whose timer is
  at address \<open>t\<close> has been run.
\<close>

fun concerns :: "nat \<Rightarrow> event \<Rightarrow> bool" where
  "concerns t (RanCallback h m) = (expiration h = t)"
| "concerns t (RanExpire t' cb) = (t' = t)"
| "concerns t (RanAbort h) = (expiration h = t)"
| "concerns t _ = False"

definition outcomes :: "nat \<Rightarrow> wsConn \<Rightarrow> nat" where
  "outcomes t conn = length (filter (concerns t) (trace conn))"

text \<open>
  The status says Connected only when a socket is installed, and so does the memory of
  a status test that found Connected: a \<open>SendRaw\<close> that has passed its test.
\<close>

fun passedTest :: "call_pc \<Rightarrow> bool" where
  "passedTest (Checked rid rawMsg) = True"
| "passedTest _ = False"

definition socketInv :: "wsConn \<Rightarrow> bool" where
  "socketInv conn =
     ((connectionStatus conn = Connected \<or> connecting conn \<noteq> None \<or> 0 < pendingWrites conn \<or>
       (\<exists>pc \<in> set (calls conn). passedTest pc)) \<longrightarrow> ws conn \<noteq> None)"

text \<open>
  What a step that installs no socket and passes no status test does as far as the
  socket invariant can tell: it leaves the socket and the memories of status tests
  alone and does not make the status Connected.
\<close>

definition quieter :: "wsConn \<Rightarrow> wsConn \<Rightarrow> bool" where
  "quieter conn conn' \<longleftrightarrow>
     ws conn' = ws conn \<and> connecting conn' = connecting conn \<and>
     pendingWrites conn' = pendingWrites conn \<and> calls conn' = calls conn \<and>
     (connectionStatus conn' = Connected \<longrightarrow> connectionStatus conn = Connected)"

text \<open>
  The sources of a reconnect trigger: a read goroutine, which sends one when its read
  fails; a trigger buffered in the channel; a reconnect timer, which sends one when it
  fires; a \<open>connect\<close> that has installed its socket and is about to start a read
  goroutine.  There is at most one, and none before \<open>Connect\<close>.
\<close>

definition triggers :: "wsConn \<Rightarrow> nat" where
  "triggers conn =
     readers conn + reconnectCh conn + reconnectTimers conn +
     (case connecting conn of None \<Rightarrow> 0 | Some who \<Rightarrow> 1)"

definition triggerInv :: "wsConn \<Rightarrow> bool" where
  "triggerInv conn \<longleftrightarrow> triggers conn \<le> 1 \<and> (\<not> cancelSet conn \<longrightarrow> triggers conn = 0)"

subsection \<open>Bookkeeping of the request registry\<close>

text \<open>
  The events that are the outcome of a request, the request IDs the timers were made
  for, and what holds of the registry whatever the goroutines do: a handler in the
  registry points to a timer that exists and was made for the key the handler is filed
  under, and a callback that ran was given a response carrying the ID of its timer.
\<close>


fun isOutcome :: "event \<Rightarrow> bool" where
  "isOutcome (RanCallback h m) = True"
| "isOutcome (RanExpire t cb) = True"
| "isOutcome (RanAbort h) = True"
| "isOutcome _ = False"

definition outcomeEvents :: "wsConn \<Rightarrow> event list" where
  "outcomeEvents conn = filter isOutcome (trace conn)"

definition ids :: "wsConn \<Rightarrow> 64 word list" where
  "ids conn = map tmID (timers conn)"

fun eventOk :: "64 word list \<Rightarrow> event \<Rightarrow> bool" where
  "eventOk is (RanCallback h m) =
     (msgType m = Response \<and> expiration h < length is \<and> is ! expiration h = msgID m)"
| "eventOk is (RanExpire t cb) = (t < length is)"
| "eventOk is (RanAbort h) = (expiration h < length is)"
| "eventOk is _ = True"

fun callOk :: "64 word \<Rightarrow> call_pc \<Rightarrow> bool" where
  "callOk i (InFlight rid rawMsg) = (i = rid)"
| "callOk i (Checked rid rawMsg) = (i = rid)"
| "callOk i (SendFailed rid err) = (i = rid)"
| "callOk i (Returned r) = True"

definition wellFormed :: "wsConn \<Rightarrow> bool" where
  "wellFormed conn \<longleftrightarrow>
     length (calls conn) = length (ids conn) \<and>
     distinct (map fst (respHandlers conn)) \<and>
     (\<forall>k h. map_of (respHandlers conn) k = Some h \<longrightarrow>
        expiration h < length (ids conn) \<and> ids conn ! expiration h = k) \<and>
     (\<forall>t < length (ids conn). callOk (ids conn ! t) (calls conn ! t)) \<and>
     (\<forall>ev \<in> set (outcomeEvents conn). eventOk (ids conn) ev)"


text \<open>The part of the state the registry invariants talk about.\<close>

definition regView :: "wsConn \<Rightarrow> (64 word \<times> responseHandler) list \<times> timer list \<times> call_pc list \<times> event list" where
  "regView conn = (respHandlers conn, timers conn, calls conn, outcomeEvents conn)"

subsection \<open>Bookkeeping of the inbound channel\<close>

text \<open>
  The cancellations and the closes of the inbound channel in a trace, and the part of
  the state the invariants of the channel talk about.
\<close>

definition control :: "wsConn \<Rightarrow> event list" where
  "control conn = filter (\<lambda>ev. ev = Cancelled \<or> ev = ReadChClosed) (trace conn)"

definition chanView ::
  "wsConn \<Rightarrow> bool \<times> bool \<times> bool \<times> watcher_state \<times> bool \<times> event list" where
  "chanView conn =
     (cancelSet conn, ctxDone conn, readChClosed conn, watcher conn,
      connecting conn = Some ByConnect, control conn)"






subsection \<open>Example values\<close>

definition exampleCfg :: WsCfg where
  "exampleCfg = \<lparr>URL = ''wss://dex.example/ws'', PingWait = 60 * Second, Cert = [],
                 ReconnectSync = True, ConnectEventFunc = True, RawHandler = False,
                 DisableAutoReconnect = False\<rparr>"

definition newConn :: wsConn where
  "newConn = \<lparr>cfg = exampleCfg, ws = None, connectionStatus = Disconnected, respHandlers = [],
              readCh = [], readChClosed = False, reconnectCh = 0, cancelSet = False,
              ctxDone = False, wg = 0, readers = 0, keepAliveRunning = False,
              rcInt = 0, watcher = NotStarted, reconnectTimers = 0, timers = [],
              calls = [], connecting = None, pendingWrites = 0, trace = []\<rparr>"

definition plainError :: "string \<Rightarrow> go_error" where
  "plainError s = \<lparr>errText = s, asCertificateInvalidError = False, asHostnameError = False,
                   asUnknownAuthorityError = False, wrapsErrInvalidCert = False,
                   wrapsErrCertRequired = False, netTimeout = False, closeCode = None,
                   opError = None, asUnmarshalTypeError = False\<rparr>"

definition exampleMsg :: "MessageType \<Rightarrow> 64 word \<Rightarrow> Message" where
  "exampleMsg ty rid = \<lparr>msgType = ty, msgID = rid, msgRoute = ''route'', msgPayload = ''{}''\<rparr>"

text \<open>
  The example connection inside \<open>Connect\<close>, when a dial has succeeded and socket 1 is
  installed, and after \<open>Connect\<close> has returned.
\<close>

definition installedConn :: wsConn where
  "installedConn = newConn\<lparr>ws := Some 1, cancelSet := True, connecting := Some ByConnect\<rparr>"

definition connectedConn :: wsConn where
  "connectedConn =
     newConn\<lparr>ws := Some 1, connectionStatus := Connected, cancelSet := True, wg := 3,
             readers := 1, keepAliveRunning := True, rcInt := reconnectInterval,
             watcher := Waiting, trace := [ConnectEvent Connected]\<rparr>"

text \<open>
  The connection after a run of actions from it (the connection itself, if the run is not
  possible), and the example connection after a request with ID 7 was sent and after
  the response to it was read.
\<close>

definition after :: "action list \<Rightarrow> wsConn \<Rightarrow> wsConn" where
  "after as conn = (case run as conn of Some conn' \<Rightarrow> conn' | None \<Rightarrow> conn)"

definition sentConn :: wsConn where
  "sentConn =
     after [CallRequestRaw 7 ''req'' 1 Minute 2, CallCheckStatus 0, CallWrite 0 WriteOk]
       connectedConn"

definition answeredConn :: wsConn where
  "answeredConn = after [RunRead (Received (exampleMsg Response 7))] sentConn"




text \<open>
  Two runs in which a request meets the shutdown, or its own expiry, between its
  registration and its send.
\<close>

definition shutdownRace :: "action list" where
  "shutdownRace =
     [CallRequestRaw 7 ''req'' 1 Minute 2, CallStop, WatcherSetStatus, WatcherCloseSocket,
      WatcherDrain, CallCheckStatus 0, CallUnregister 0]"

definition expiryRace :: "action list" where
  "expiryRace =
     [CallRequestRaw 7 ''req'' 1 0 2, FireTimer 0, RunDoExpire 0, CallCheckStatus 0,
      CallWrite 0 (WriteMessageFailed (Errorf ''write: broken pipe'')), CallUnregister 0]"

section \<open>Properties\<close>

subsection \<open>Traces\<close>

lemma writes_append: "writes (xs @ ys) = writes xs @ writes ys"
  by (induction xs rule: writes.induct) simp_all

lemma scheduled_append: "scheduled (xs @ ys) = scheduled xs @ scheduled ys"
  by (induction xs rule: scheduled.induct) simp_all

subsection \<open>What the basic operations leave unchanged\<close>

lemma connectionStatus_setConnectionStatus [simp]:
  "connectionStatus (setConnectionStatus st conn) = st"
  by (simp add: setConnectionStatus_def emit_def Let_def)

lemma setConnectionStatus_frame [simp]:
  "cfg (setConnectionStatus st conn) = cfg conn"
  "ws (setConnectionStatus st conn) = ws conn"
  "respHandlers (setConnectionStatus st conn) = respHandlers conn"
  "readCh (setConnectionStatus st conn) = readCh conn"
  "readChClosed (setConnectionStatus st conn) = readChClosed conn"
  "reconnectCh (setConnectionStatus st conn) = reconnectCh conn"
  "cancelSet (setConnectionStatus st conn) = cancelSet conn"
  "ctxDone (setConnectionStatus st conn) = ctxDone conn"
  "wg (setConnectionStatus st conn) = wg conn"
  "readers (setConnectionStatus st conn) = readers conn"
  "keepAliveRunning (setConnectionStatus st conn) = keepAliveRunning conn"
  "rcInt (setConnectionStatus st conn) = rcInt conn"
  "watcher (setConnectionStatus st conn) = watcher conn"
  "reconnectTimers (setConnectionStatus st conn) = reconnectTimers conn"
  "timers (setConnectionStatus st conn) = timers conn"
  "calls (setConnectionStatus st conn) = calls conn"
  by (simp_all add: setConnectionStatus_def emit_def Let_def)

lemma scheduled_setConnectionStatus [simp]:
  "scheduled (trace (setConnectionStatus st conn)) = scheduled (trace conn)"
  by (simp add: setConnectionStatus_def emit_def Let_def scheduled_append)

lemma emit_frame [simp]:
  "cfg (emit ev conn) = cfg conn"
  "ws (emit ev conn) = ws conn"
  "connectionStatus (emit ev conn) = connectionStatus conn"
  "respHandlers (emit ev conn) = respHandlers conn"
  "readCh (emit ev conn) = readCh conn"
  "readChClosed (emit ev conn) = readChClosed conn"
  "reconnectCh (emit ev conn) = reconnectCh conn"
  "cancelSet (emit ev conn) = cancelSet conn"
  "ctxDone (emit ev conn) = ctxDone conn"
  "wg (emit ev conn) = wg conn"
  "readers (emit ev conn) = readers conn"
  "keepAliveRunning (emit ev conn) = keepAliveRunning conn"
  "rcInt (emit ev conn) = rcInt conn"
  "watcher (emit ev conn) = watcher conn"
  "reconnectTimers (emit ev conn) = reconnectTimers conn"
  "timers (emit ev conn) = timers conn"
  "calls (emit ev conn) = calls conn"
  "trace (emit ev conn) = trace conn @ [ev]"
  by (simp_all add: emit_def)

lemma connect_fails_iff: "(\<exists>e. fst (connect d conn) = Some e) \<longleftrightarrow> dialFails d"
  by (cases d rule: dialFails.cases) (simp_all add: connect_def Let_def)

lemma connect_frame [simp]:
  "cfg (snd (connect d conn)) = cfg conn"
  "respHandlers (snd (connect d conn)) = respHandlers conn"
  "readCh (snd (connect d conn)) = readCh conn"
  "readChClosed (snd (connect d conn)) = readChClosed conn"
  "reconnectCh (snd (connect d conn)) = reconnectCh conn"
  "cancelSet (snd (connect d conn)) = cancelSet conn"
  "ctxDone (snd (connect d conn)) = ctxDone conn"
  "keepAliveRunning (snd (connect d conn)) = keepAliveRunning conn"
  "rcInt (snd (connect d conn)) = rcInt conn"
  "watcher (snd (connect d conn)) = watcher conn"
  "reconnectTimers (snd (connect d conn)) = reconnectTimers conn"
  "timers (snd (connect d conn)) = timers conn"
  "calls (snd (connect d conn)) = calls conn"
  "scheduled (trace (snd (connect d conn))) = scheduled (trace conn)"
  by (cases d rule: dialFails.cases;
      simp add: connect_def Let_def close_def scheduled_append split: option.splits)+

lemma connect_failed_frame:
  "dialFails d \<Longrightarrow> wg (snd (connect d conn)) = wg conn \<and> readers (snd (connect d conn)) = readers conn
     \<and> ws (snd (connect d conn)) = ws conn"
  by (cases d rule: dialFails.cases) (simp_all add: connect_def Let_def)

lemma close_frame [simp]:
  "cfg (close sock conn) = cfg conn"
  "ws (close sock conn) = ws conn"
  "connectionStatus (close sock conn) = connectionStatus conn"
  "respHandlers (close sock conn) = respHandlers conn"
  "readCh (close sock conn) = readCh conn"
  "readChClosed (close sock conn) = readChClosed conn"
  "reconnectCh (close sock conn) = reconnectCh conn"
  "cancelSet (close sock conn) = cancelSet conn"
  "ctxDone (close sock conn) = ctxDone conn"
  "wg (close sock conn) = wg conn"
  "readers (close sock conn) = readers conn"
  "keepAliveRunning (close sock conn) = keepAliveRunning conn"
  "rcInt (close sock conn) = rcInt conn"
  "watcher (close sock conn) = watcher conn"
  "reconnectTimers (close sock conn) = reconnectTimers conn"
  "timers (close sock conn) = timers conn"
  "calls (close sock conn) = calls conn"
  by (simp_all add: close_def)

lemma cancel_frame [simp]:
  "cfg (cancel conn) = cfg conn"
  "ws (cancel conn) = ws conn"
  "connectionStatus (cancel conn) = connectionStatus conn"
  "respHandlers (cancel conn) = respHandlers conn"
  "readCh (cancel conn) = readCh conn"
  "readChClosed (cancel conn) = readChClosed conn"
  "reconnectCh (cancel conn) = reconnectCh conn"
  "cancelSet (cancel conn) = cancelSet conn"
  "wg (cancel conn) = wg conn"
  "readers (cancel conn) = readers conn"
  "keepAliveRunning (cancel conn) = keepAliveRunning conn"
  "rcInt (cancel conn) = rcInt conn"
  "watcher (cancel conn) = watcher conn"
  "reconnectTimers (cancel conn) = reconnectTimers conn"
  "timers (cancel conn) = timers conn"
  "calls (cancel conn) = calls conn"
  by (simp_all add: cancel_def)

lemma afterFuncReconnect_frame [simp]:
  "cfg (afterFuncReconnect d conn) = cfg conn"
  "ws (afterFuncReconnect d conn) = ws conn"
  "connectionStatus (afterFuncReconnect d conn) = connectionStatus conn"
  "respHandlers (afterFuncReconnect d conn) = respHandlers conn"
  "readCh (afterFuncReconnect d conn) = readCh conn"
  "readChClosed (afterFuncReconnect d conn) = readChClosed conn"
  "reconnectCh (afterFuncReconnect d conn) = reconnectCh conn"
  "cancelSet (afterFuncReconnect d conn) = cancelSet conn"
  "ctxDone (afterFuncReconnect d conn) = ctxDone conn"
  "wg (afterFuncReconnect d conn) = wg conn"
  "readers (afterFuncReconnect d conn) = readers conn"
  "keepAliveRunning (afterFuncReconnect d conn) = keepAliveRunning conn"
  "rcInt (afterFuncReconnect d conn) = rcInt conn"
  "watcher (afterFuncReconnect d conn) = watcher conn"
  "timers (afterFuncReconnect d conn) = timers conn"
  "calls (afterFuncReconnect d conn) = calls conn"
  by (simp_all add: afterFuncReconnect_def)

lemma exitReader_frame [simp]:
  "cfg (exitReader conn) = cfg conn"
  "ws (exitReader conn) = ws conn"
  "connectionStatus (exitReader conn) = connectionStatus conn"
  "respHandlers (exitReader conn) = respHandlers conn"
  "readCh (exitReader conn) = readCh conn"
  "readChClosed (exitReader conn) = readChClosed conn"
  "reconnectCh (exitReader conn) = reconnectCh conn"
  "cancelSet (exitReader conn) = cancelSet conn"
  "ctxDone (exitReader conn) = ctxDone conn"
  "keepAliveRunning (exitReader conn) = keepAliveRunning conn"
  "rcInt (exitReader conn) = rcInt conn"
  "watcher (exitReader conn) = watcher conn"
  "reconnectTimers (exitReader conn) = reconnectTimers conn"
  "timers (exitReader conn) = timers conn"
  "calls (exitReader conn) = calls conn"
  "trace (exitReader conn) = trace conn"
  by (simp_all add: exitReader_def)

lemma exitKeepAlive_frame [simp]:
  "cfg (exitKeepAlive conn) = cfg conn"
  "ws (exitKeepAlive conn) = ws conn"
  "connectionStatus (exitKeepAlive conn) = connectionStatus conn"
  "respHandlers (exitKeepAlive conn) = respHandlers conn"
  "readCh (exitKeepAlive conn) = readCh conn"
  "readChClosed (exitKeepAlive conn) = readChClosed conn"
  "reconnectCh (exitKeepAlive conn) = reconnectCh conn"
  "cancelSet (exitKeepAlive conn) = cancelSet conn"
  "ctxDone (exitKeepAlive conn) = ctxDone conn"
  "readers (exitKeepAlive conn) = readers conn"
  "rcInt (exitKeepAlive conn) = rcInt conn"
  "watcher (exitKeepAlive conn) = watcher conn"
  "reconnectTimers (exitKeepAlive conn) = reconnectTimers conn"
  "timers (exitKeepAlive conn) = timers conn"
  "calls (exitKeepAlive conn) = calls conn"
  "trace (exitKeepAlive conn) = trace conn"
  by (simp_all add: exitKeepAlive_def)

lemma startTasks_frame [simp]:
  "cfg (startTasks conn) = cfg conn"
  "ws (startTasks conn) = ws conn"
  "connectionStatus (startTasks conn) = connectionStatus conn"
  "respHandlers (startTasks conn) = respHandlers conn"
  "readCh (startTasks conn) = readCh conn"
  "readChClosed (startTasks conn) = readChClosed conn"
  "reconnectCh (startTasks conn) = reconnectCh conn"
  "cancelSet (startTasks conn) = cancelSet conn"
  "ctxDone (startTasks conn) = ctxDone conn"
  "readers (startTasks conn) = readers conn"
  "reconnectTimers (startTasks conn) = reconnectTimers conn"
  "timers (startTasks conn) = timers conn"
  "calls (startTasks conn) = calls conn"
  "trace (startTasks conn) = trace conn"
  by (simp_all add: startTasks_def Let_def)

lemma stopTimer_frame [simp]:
  "cfg (stopTimer t conn) = cfg conn"
  "ws (stopTimer t conn) = ws conn"
  "connectionStatus (stopTimer t conn) = connectionStatus conn"
  "respHandlers (stopTimer t conn) = respHandlers conn"
  "readCh (stopTimer t conn) = readCh conn"
  "readChClosed (stopTimer t conn) = readChClosed conn"
  "reconnectCh (stopTimer t conn) = reconnectCh conn"
  "cancelSet (stopTimer t conn) = cancelSet conn"
  "ctxDone (stopTimer t conn) = ctxDone conn"
  "wg (stopTimer t conn) = wg conn"
  "readers (stopTimer t conn) = readers conn"
  "keepAliveRunning (stopTimer t conn) = keepAliveRunning conn"
  "rcInt (stopTimer t conn) = rcInt conn"
  "watcher (stopTimer t conn) = watcher conn"
  "reconnectTimers (stopTimer t conn) = reconnectTimers conn"
  "calls (stopTimer t conn) = calls conn"
  by (simp_all add: stopTimer_def)

lemma logReq_frame [simp]:
  "cfg (logReq rid f expireTime expireF conn) = cfg conn"
  "ws (logReq rid f expireTime expireF conn) = ws conn"
  "connectionStatus (logReq rid f expireTime expireF conn) = connectionStatus conn"
  "readCh (logReq rid f expireTime expireF conn) = readCh conn"
  "readChClosed (logReq rid f expireTime expireF conn) = readChClosed conn"
  "reconnectCh (logReq rid f expireTime expireF conn) = reconnectCh conn"
  "cancelSet (logReq rid f expireTime expireF conn) = cancelSet conn"
  "ctxDone (logReq rid f expireTime expireF conn) = ctxDone conn"
  "wg (logReq rid f expireTime expireF conn) = wg conn"
  "readers (logReq rid f expireTime expireF conn) = readers conn"
  "keepAliveRunning (logReq rid f expireTime expireF conn) = keepAliveRunning conn"
  "rcInt (logReq rid f expireTime expireF conn) = rcInt conn"
  "watcher (logReq rid f expireTime expireF conn) = watcher conn"
  "reconnectTimers (logReq rid f expireTime expireF conn) = reconnectTimers conn"
  "calls (logReq rid f expireTime expireF conn) = calls conn"
  "trace (logReq rid f expireTime expireF conn) = trace conn"
  by (simp_all add: logReq_def Let_def)

lemma expire_frame [simp]:
  "cfg (snd (expire rid conn)) = cfg conn"
  "ws (snd (expire rid conn)) = ws conn"
  "connectionStatus (snd (expire rid conn)) = connectionStatus conn"
  "readCh (snd (expire rid conn)) = readCh conn"
  "readChClosed (snd (expire rid conn)) = readChClosed conn"
  "reconnectCh (snd (expire rid conn)) = reconnectCh conn"
  "cancelSet (snd (expire rid conn)) = cancelSet conn"
  "ctxDone (snd (expire rid conn)) = ctxDone conn"
  "wg (snd (expire rid conn)) = wg conn"
  "readers (snd (expire rid conn)) = readers conn"
  "keepAliveRunning (snd (expire rid conn)) = keepAliveRunning conn"
  "rcInt (snd (expire rid conn)) = rcInt conn"
  "watcher (snd (expire rid conn)) = watcher conn"
  "reconnectTimers (snd (expire rid conn)) = reconnectTimers conn"
  "timers (snd (expire rid conn)) = timers conn"
  "calls (snd (expire rid conn)) = calls conn"
  "trace (snd (expire rid conn)) = trace conn"
  by (simp_all add: expire_def)

lemma doExpire_frame [simp]:
  "cfg (doExpire t conn) = cfg conn"
  "ws (doExpire t conn) = ws conn"
  "connectionStatus (doExpire t conn) = connectionStatus conn"
  "readCh (doExpire t conn) = readCh conn"
  "readChClosed (doExpire t conn) = readChClosed conn"
  "reconnectCh (doExpire t conn) = reconnectCh conn"
  "cancelSet (doExpire t conn) = cancelSet conn"
  "ctxDone (doExpire t conn) = ctxDone conn"
  "wg (doExpire t conn) = wg conn"
  "readers (doExpire t conn) = readers conn"
  "keepAliveRunning (doExpire t conn) = keepAliveRunning conn"
  "rcInt (doExpire t conn) = rcInt conn"
  "watcher (doExpire t conn) = watcher conn"
  "reconnectTimers (doExpire t conn) = reconnectTimers conn"
  "timers (doExpire t conn) = timers conn"
  "calls (doExpire t conn) = calls conn"
  by (simp_all add: doExpire_def expire_def Let_def)

lemma respHandler_frame [simp]:
  "cfg (snd (respHandler rid conn)) = cfg conn"
  "ws (snd (respHandler rid conn)) = ws conn"
  "connectionStatus (snd (respHandler rid conn)) = connectionStatus conn"
  "readCh (snd (respHandler rid conn)) = readCh conn"
  "readChClosed (snd (respHandler rid conn)) = readChClosed conn"
  "reconnectCh (snd (respHandler rid conn)) = reconnectCh conn"
  "cancelSet (snd (respHandler rid conn)) = cancelSet conn"
  "ctxDone (snd (respHandler rid conn)) = ctxDone conn"
  "wg (snd (respHandler rid conn)) = wg conn"
  "readers (snd (respHandler rid conn)) = readers conn"
  "keepAliveRunning (snd (respHandler rid conn)) = keepAliveRunning conn"
  "rcInt (snd (respHandler rid conn)) = rcInt conn"
  "watcher (snd (respHandler rid conn)) = watcher conn"
  "reconnectTimers (snd (respHandler rid conn)) = reconnectTimers conn"
  "calls (snd (respHandler rid conn)) = calls conn"
  by (simp_all add: respHandler_def split: option.splits)

lemma drainHandlers_frame_all:
  "cfg (drainHandlers hs conn) = cfg conn \<and>
   ws (drainHandlers hs conn) = ws conn \<and>
   connectionStatus (drainHandlers hs conn) = connectionStatus conn \<and>
   readCh (drainHandlers hs conn) = readCh conn \<and>
   readChClosed (drainHandlers hs conn) = readChClosed conn \<and>
   reconnectCh (drainHandlers hs conn) = reconnectCh conn \<and>
   cancelSet (drainHandlers hs conn) = cancelSet conn \<and>
   ctxDone (drainHandlers hs conn) = ctxDone conn \<and>
   wg (drainHandlers hs conn) = wg conn \<and>
   readers (drainHandlers hs conn) = readers conn \<and>
   keepAliveRunning (drainHandlers hs conn) = keepAliveRunning conn \<and>
   rcInt (drainHandlers hs conn) = rcInt conn \<and>
   watcher (drainHandlers hs conn) = watcher conn \<and>
   reconnectTimers (drainHandlers hs conn) = reconnectTimers conn \<and>
   calls (drainHandlers hs conn) = calls conn"
  by (induction hs conn rule: drainHandlers.induct) simp_all

lemma drainHandlers_frame [simp]:
  "cfg (drainHandlers hs conn) = cfg conn"
  "ws (drainHandlers hs conn) = ws conn"
  "connectionStatus (drainHandlers hs conn) = connectionStatus conn"
  "readCh (drainHandlers hs conn) = readCh conn"
  "readChClosed (drainHandlers hs conn) = readChClosed conn"
  "reconnectCh (drainHandlers hs conn) = reconnectCh conn"
  "cancelSet (drainHandlers hs conn) = cancelSet conn"
  "ctxDone (drainHandlers hs conn) = ctxDone conn"
  "wg (drainHandlers hs conn) = wg conn"
  "readers (drainHandlers hs conn) = readers conn"
  "keepAliveRunning (drainHandlers hs conn) = keepAliveRunning conn"
  "rcInt (drainHandlers hs conn) = rcInt conn"
  "watcher (drainHandlers hs conn) = watcher conn"
  "reconnectTimers (drainHandlers hs conn) = reconnectTimers conn"
  "calls (drainHandlers hs conn) = calls conn"
  using drainHandlers_frame_all[of hs conn] by simp_all

subsection \<open>Requests that are refused before anything is sent\<close>

text \<open>
  C9.  For every message whose type is not Request, \<open>RequestWithTimeout\<close> returns a
  non-nil error at once: whatever \<open>json.Marshal\<close> and the socket would have answered,
  the connection (registry, timers, socket trace) is left exactly as it was.
\<close>

theorem RequestWithTimeout_rejects_non_request:
  assumes "msgType msg \<noteq> Request"
  shows "RequestWithTimeout marshal w msg f expireTime expireF conn = Ok (Some notARequest, conn)"
  using assms by (simp add: RequestWithTimeout_def)

theorem RequestWithTimeout_rejects_non_request_witness:
  "msgType (exampleMsg Notification 7) \<noteq> Request \<and>
   RequestWithTimeout (\<lambda>m. Inl (Errorf ''json: unsupported value'')) WriteOk
     (exampleMsg Notification 7) 1 DefaultResponseTimeout 2 newConn
     = Ok (Some notARequest, newConn)"
  using RequestWithTimeout_rejects_non_request
    [of "exampleMsg Notification 7" "\<lambda>m. Inl (Errorf ''json: unsupported value'')"
        WriteOk 1 DefaultResponseTimeout 2 newConn]
  by (simp add: exampleMsg_def)

text \<open>
  C8.  When \<open>json.Marshal\<close> is called on the message and fails, \<open>Send\<close> and
  \<open>RequestWithTimeout\<close> return the marshal error at once.  \<open>Send\<close> marshals when the
  connection is not down, \<open>RequestWithTimeout\<close> when the message is a Request; these
  are the tests that come before the marshalling in the source.  For a message that
  cannot be marshalled, whether the marshalling is reached or not, the call returns a
  non-nil error, nothing is written to a socket, and the registry and the timers are as
  before: no response handler is registered.
\<close>

theorem marshal_failure_returned:
  assumes "marshal msg = Inl err"
  shows "(\<not> IsDown conn \<longrightarrow>
            (\<exists>conn'. Send marshal w msg conn = Ok (Some err, conn') \<and>
               writes (trace conn') = writes (trace conn) \<and>
               respHandlers conn' = respHandlers conn \<and> timers conn' = timers conn)) \<and>
         (msgType msg = Request \<longrightarrow>
            (\<exists>conn'. RequestWithTimeout marshal w msg f expireTime expireF conn =
                 Ok (Some err, conn') \<and>
               writes (trace conn') = writes (trace conn) \<and>
               respHandlers conn' = respHandlers conn \<and> timers conn' = timers conn)) \<and>
         (\<exists>e conn'. Send marshal w msg conn = Ok (Some e, conn') \<and>
            writes (trace conn') = writes (trace conn) \<and>
            respHandlers conn' = respHandlers conn \<and> timers conn' = timers conn) \<and>
         (\<exists>e conn'. RequestWithTimeout marshal w msg f expireTime expireF conn =
              Ok (Some e, conn') \<and>
            writes (trace conn') = writes (trace conn) \<and>
            respHandlers conn' = respHandlers conn \<and> timers conn' = timers conn)"
  using assms by (simp add: Send_def RequestWithTimeout_def emit_def writes_append)

theorem marshal_failure_returned_witness:
  "(\<lambda>m. Inl (Errorf ''json: unsupported value'')) (exampleMsg Request 7)
     = (Inl (Errorf ''json: unsupported value'') :: error + bytes) \<and>
   \<not> IsDown (newConn\<lparr>ws := Some 1, connectionStatus := Connected\<rparr>) \<and>
   msgType (exampleMsg Request 7) = Request \<and>
   (\<exists>conn'. Send (\<lambda>m. Inl (Errorf ''json: unsupported value'')) WriteOk (exampleMsg Request 7)
               (newConn\<lparr>ws := Some 1, connectionStatus := Connected\<rparr>)
             = Ok (Some (Errorf ''json: unsupported value''), conn') \<and>
            writes (trace conn') = []) \<and>
   (\<exists>conn'. RequestWithTimeout (\<lambda>m. Inl (Errorf ''json: unsupported value'')) WriteOk
               (exampleMsg Request 7) 1 DefaultResponseTimeout 2
               (newConn\<lparr>ws := Some 1, connectionStatus := Connected\<rparr>)
             = Ok (Some (Errorf ''json: unsupported value''), conn') \<and>
            respHandlers conn' = [] \<and> timers conn' = [])"
  using marshal_failure_returned
    [of "\<lambda>m. Inl (Errorf ''json: unsupported value'')" "exampleMsg Request 7"
        "Errorf ''json: unsupported value''"
        "newConn\<lparr>ws := Some 1, connectionStatus := Connected\<rparr>" WriteOk 1 DefaultResponseTimeout 2]
  by (auto simp: exampleMsg_def IsDown_def newConn_def)

subsection \<open>Classification of dial errors\<close>

lemma MatchString_Lit: "MatchString (Lit l) s \<longleftrightarrow> strings_Contains s l"
  by (auto simp: MatchString_def strings_Contains_def sublist_altdef')

lemma MatchString_Alt: "MatchString (Alt a b) s \<longleftrightarrow> MatchString a s \<or> MatchString b s"
  by (auto simp: MatchString_def)

lemma MatchString_DotStar_Cat: "MatchString (Cat DotStar r) s \<longleftrightarrow> MatchString r s"
proof
  assume "MatchString (Cat DotStar r) s"
  then obtain t n where t: "suffix t s" and m: "matchPrefix r (drop n t) \<noteq> []"
    by (auto simp: MatchString_def)
  have "suffix (drop n t) s"
    using t by (meson suffix_drop suffix_order.trans)
  with m show "MatchString r s"
    by (auto simp: MatchString_def)
next
  assume "MatchString r s"
  then obtain t where t: "suffix t s" and m: "matchPrefix r t \<noteq> []"
    by (auto simp: MatchString_def)
  have "t \<in> set (matchPrefix DotStar t)"
    by (auto simp: image_iff intro!: bexI[of _ 0])
  with m have "\<exists>u \<in> set (matchPrefix DotStar t). matchPrefix r u \<noteq> []"
    by blast
  then have "matchPrefix (Cat DotStar r) t \<noteq> []"
    unfolding matchPrefix.simps(4) concat_eq_Nil_conv by auto
  with t show "MatchString (Cat DotStar r) s"
    by (auto simp: MatchString_def)
qed

lemma certAlternatives_iff:
  "MatchString certAlternatives s \<longleftrightarrow>
     strings_Contains s ''unknown authority'' \<or> strings_Contains s ''not standards compliant'' \<or>
     strings_Contains s ''not trusted''"
  by (simp add: certAlternatives_def MatchString_Alt MatchString_Lit)

lemma invalidCertRegexp_iff:
  "MatchString invalidCertRegexp s \<longleftrightarrow> MatchString certAlternatives s"
  by (simp add: invalidCertRegexp_def MatchString_DotStar_Cat)

text \<open>
  C4.  A dial error is of the invalid-certificate class exactly if it is an x509
  certificate-invalid, unknown-authority or hostname error, or its text matches the
  pattern \<open>(unknown authority|not standards compliant|not trusted)\<close>, that is, contains
  one of the three phrases (the leading \<open>.*\<close> of the pattern in the code changes nothing
  for an unanchored match).  On such an error \<open>connect\<close> sets the status InvalidCert and
  returns an error that is CertificateRequired exactly if the configured certificate
  is empty and InvalidCertificate exactly if it is not; on any other dial error it sets
  the status Disconnected and returns the error itself.
\<close>

theorem dial_error_classification:
  "(isErrorInvalidCert err \<longleftrightarrow>
      asCertificateInvalidError err \<or> asUnknownAuthorityError err \<or> asHostnameError err \<or>
      MatchString certAlternatives (errText err)) \<and>
   (MatchString certAlternatives (errText err) \<longleftrightarrow>
      strings_Contains (errText err) ''unknown authority'' \<or>
      strings_Contains (errText err) ''not standards compliant'' \<or>
      strings_Contains (errText err) ''not trusted'') \<and>
   connectionStatus (snd (connect (DialFailed err) conn)) =
     (if isErrorInvalidCert err then InvalidCert else Disconnected) \<and>
   (case fst (connect (DialFailed err) conn) of
      None \<Rightarrow> False
    | Some e \<Rightarrow>
        if isErrorInvalidCert err
        then (errors_Is e ErrCertRequired \<longleftrightarrow> length (Cert (cfg conn)) = 0) \<and>
             (errors_Is e ErrInvalidCert \<longleftrightarrow> length (Cert (cfg conn)) \<noteq> 0)
        else e = Foreign err)"
proof -
  have 1: "isErrorInvalidCert err \<longleftrightarrow>
      asCertificateInvalidError err \<or> asUnknownAuthorityError err \<or> asHostnameError err \<or>
      MatchString certAlternatives (errText err)"
    by (auto simp: isErrorInvalidCert_def invalidCertRegexp_iff)
  have 3: "connectionStatus (snd (connect (DialFailed err) conn)) =
     (if isErrorInvalidCert err then InvalidCert else Disconnected)"
    by (simp add: connect_def Let_def)
  have 4: "(case fst (connect (DialFailed err) conn) of
      None \<Rightarrow> False
    | Some e \<Rightarrow>
        if isErrorInvalidCert err
        then (errors_Is e ErrCertRequired \<longleftrightarrow> length (Cert (cfg conn)) = 0) \<and>
             (errors_Is e ErrInvalidCert \<longleftrightarrow> length (Cert (cfg conn)) \<noteq> 0)
        else e = Foreign err)"
    by (simp add: connect_def Let_def)
  from 1 3 4 certAlternatives_iff[of "errText err"] show ?thesis
    by blast
qed

theorem dial_error_classification_witness:
  "isErrorInvalidCert (plainError ''x509: certificate signed by unknown authority'') \<and>
   \<not> isErrorInvalidCert (plainError ''dial tcp: connection refused'') \<and>
   connect (DialFailed (plainError ''x509: certificate signed by unknown authority'')) newConn =
     (Some (DexError ErrCertRequired ''x509: certificate signed by unknown authority''),
      emit (ConnectEvent InvalidCert) (newConn\<lparr>connectionStatus := InvalidCert\<rparr>))"
  using dial_error_classification[of "plainError ''x509: certificate signed by unknown authority''" newConn]
    dial_error_classification[of "plainError ''dial tcp: connection refused''" newConn]
  by (simp add: plainError_def strings_Contains_def sublist_code connect_def Let_def newConn_def exampleCfg_def
       setConnectionStatus_def)


subsection \<open>The reconnect trigger\<close>

lemma handleReadError_cases:
  assumes "P (reconnect conn)" and "\<And>s. P (reconnect (emit (Logged s) conn))"
  shows "P (handleReadError err conn)"
  using assms by (simp add: handleReadError_def)

lemma reconnect_result:
  "\<exists>c. connectionStatus c = Disconnected \<and> reconnectCh c = reconnectCh c0 \<and>
        reconnect c0 =
          (if DisableAutoReconnect (cfg c0) then Ok c
           else if reconnectCh c0 = 0 then Ok (c\<lparr>reconnectCh := 1\<rparr>)
           else Blocked c)"
  by (rule exI[of _ "setConnectionStatus Disconnected c0"])
     (simp add: reconnect_def sendReconnect_def reconnectChCap_def Let_def)

text \<open>
  What \<open>handleReadError\<close> does, whatever the read error: it sets the status to
  Disconnected and, unless auto-reconnect is disabled, sends on the trigger channel,
  which has room when no trigger is buffered.
\<close>

lemma handleReadError_result:
  "\<exists>c. connectionStatus c = Disconnected \<and> reconnectCh c = reconnectCh conn \<and>
        handleReadError err conn =
          (if DisableAutoReconnect (cfg conn) then Ok c
           else if reconnectCh conn = 0 then Ok (c\<lparr>reconnectCh := 1\<rparr>)
           else Blocked c)"
proof (rule handleReadError_cases)
  show "\<exists>c. connectionStatus c = Disconnected \<and> reconnectCh c = reconnectCh conn \<and>
        reconnect conn =
          (if DisableAutoReconnect (cfg conn) then Ok c
           else if reconnectCh conn = 0 then Ok (c\<lparr>reconnectCh := 1\<rparr>)
           else Blocked c)"
    by (rule reconnect_result)
next
  fix s
  show "\<exists>c. connectionStatus c = Disconnected \<and> reconnectCh c = reconnectCh conn \<and>
        reconnect (emit (Logged s) conn) =
          (if DisableAutoReconnect (cfg conn) then Ok c
           else if reconnectCh conn = 0 then Ok (c\<lparr>reconnectCh := 1\<rparr>)
           else Blocked c)"
    using reconnect_result[of "emit (Logged s) conn"] by (simp only: emit_frame)
qed

subsection \<open>Connect after a failed first attempt\<close>

lemma connect_failed:
  assumes "dialFails d"
  shows "\<exists>err. fst (connect d conn) = Some err"
  using assms connect_fails_iff by blast

lemma startTasks_fields:
  "watcher (startTasks c) = Waiting"
  "keepAliveRunning (startTasks c) = (if DisableAutoReconnect (cfg c) then keepAliveRunning c else True)"
  "wg (startTasks c) = (if DisableAutoReconnect (cfg c) then wg c + 1 else wg c + 2)"
  "\<not> DisableAutoReconnect (cfg c) \<Longrightarrow> rcInt (startTasks c) = reconnectInterval"
  "ctxDone (startTasks c) = ctxDone c"
  "readChClosed (startTasks c) = readChClosed c"
  "reconnectTimers (startTasks c) = reconnectTimers c"
  "trace (startTasks c) = trace c"
  "cfg (startTasks c) = cfg c"
  by (simp_all add: startTasks_def Let_def)

text \<open>
  C2.  \<open>Connect\<close> on a connection with no internal task running and the inbound channel
  open, when the first \<open>connect\<close> fails with error \<open>err\<close>.  If \<open>err\<close> is of the
  invalid-certificate or certificate-required class (for a dial error: it was classified
  invalid-certificate, or wraps one of the sentinels), or auto-reconnect is disabled,
  \<open>Connect\<close> cancels the context, closes the inbound channel and returns a nil
  wait-group with \<open>err\<close>, starting no task and no timer.  Otherwise it schedules one
  reconnect trigger after 5 s, starts the keepalive loop and the watcher and returns the
  wait-group with a nil error.
\<close>

theorem Connect_after_failed_dial:
  assumes "dialFails d" and "wg conn = 0" and "\<not> readChClosed conn"
  shows "\<exists>err conn1. connect d (conn\<lparr>cancelSet := True, ctxDone := False\<rparr>) = (Some err, conn1) \<and>
     (case d of
        DialFailed e \<Rightarrow>
          (errors_Is err ErrInvalidCert \<or> errors_Is err ErrCertRequired) =
          (isErrorInvalidCert e \<or> wrapsErrInvalidCert e \<or> wrapsErrCertRequired e)
      | DialOk sock deadlineErr \<Rightarrow> deadlineErr = Some err) \<and>
     (if errors_Is err ErrInvalidCert \<or> errors_Is err ErrCertRequired \<or>
         DisableAutoReconnect (cfg conn)
      then \<exists>conn'. Connect d conn = Ok ((False, Some err), conn') \<and>
             ctxDone conn' \<and> readChClosed conn' \<and>
             trace conn' = trace conn1 @ [Cancelled, ReadChClosed] \<and>
             keepAliveRunning conn' = keepAliveRunning conn \<and> watcher conn' = watcher conn \<and>
             reconnectTimers conn' = reconnectTimers conn \<and> wg conn' = 0
      else \<exists>conn'. Connect d conn = Ok ((True, None), conn') \<and>
             \<not> ctxDone conn' \<and> \<not> readChClosed conn' \<and>
             scheduled (trace conn') = scheduled (trace conn) @ [5 * Second] \<and>
             reconnectTimers conn' = reconnectTimers conn + 1 \<and>
             keepAliveRunning conn' \<and> rcInt conn' = reconnectInterval \<and>
             watcher conn' = Waiting \<and> wg conn' = 2)"
proof -
  let ?c0 = "conn\<lparr>cancelSet := True, ctxDone := False\<rparr>"
  obtain err where e: "fst (connect d ?c0) = Some err"
    using connect_failed[OF assms(1)] by blast
  define conn1 where "conn1 = snd (connect d ?c0)"
  have c: "connect d ?c0 = (Some err, conn1)"
    using e by (simp add: conn1_def prod_eq_iff)
  have f: "wg conn1 = 0" "\<not> readChClosed conn1" "cfg conn1 = cfg conn" "\<not> ctxDone conn1"
      "keepAliveRunning conn1 = keepAliveRunning conn" "watcher conn1 = watcher conn"
      "reconnectTimers conn1 = reconnectTimers conn"
      "scheduled (trace conn1) = scheduled (trace conn)"
    using assms connect_failed_frame[OF assms(1), of ?c0] by (simp_all add: conn1_def)
  have cls: "(case d of
        DialFailed e \<Rightarrow>
          (errors_Is err ErrInvalidCert \<or> errors_Is err ErrCertRequired) =
          (isErrorInvalidCert e \<or> wrapsErrInvalidCert e \<or> wrapsErrCertRequired e)
      | DialOk sock deadlineErr \<Rightarrow> deadlineErr = Some err)"
    using e assms(1)
    by (cases d rule: dialFails.cases) (auto simp: connect_def Let_def split: if_splits)
  show ?thesis
  proof (cases "errors_Is err ErrInvalidCert \<or> errors_Is err ErrCertRequired \<or>
         DisableAutoReconnect (cfg conn)")
    case True
    then have "Connect d conn =
        Ok ((False, Some err), emit ReadChClosed ((cancel conn1)\<lparr>readChClosed := True\<rparr>))"
      using c f by (auto simp: Connect_def cancel_def closeReadCh_def Let_def)
    with True c cls f show ?thesis
      by (simp add: cancel_def)
  next
    case False
    then have "Connect d conn = Ok ((True, None), startTasks (afterFuncReconnect (5 * Second)
        (emit (Logged ''Initial connection failed, starting reconnect loop'') conn1)))"
      using c f by (simp add: Connect_def)
    with False c cls f show ?thesis
      by (simp add: startTasks_fields afterFuncReconnect_def scheduled_append)
  qed
qed

lemma refused_not_cert: "\<not> isErrorInvalidCert (plainError ''dial tcp: connection refused'')"
  by (simp add: plainError_def isErrorInvalidCert_def invalidCertRegexp_iff certAlternatives_iff
      strings_Contains_def sublist_code)

theorem Connect_after_failed_dial_witness:
  "dialFails (DialFailed (plainError ''dial tcp: connection refused'')) \<and> wg newConn = 0 \<and>
   \<not> readChClosed newConn \<and>
   (\<exists>conn'. Connect (DialFailed (plainError ''dial tcp: connection refused'')) newConn
        = Ok ((True, None), conn') \<and> keepAliveRunning conn' \<and> watcher conn' = Waiting \<and>
          scheduled (trace conn') = [5 * Second])"
proof -
  have h: "dialFails (DialFailed (plainError ''dial tcp: connection refused''))"
    "wg newConn = 0" "\<not> readChClosed newConn"
    by (simp_all add: newConn_def)
  have n: "\<not> DisableAutoReconnect (cfg newConn)" "trace newConn = []"
    by (simp_all add: newConn_def exampleCfg_def)
  have w: "\<not> wrapsErrInvalidCert (plainError ''dial tcp: connection refused'')"
    "\<not> wrapsErrCertRequired (plainError ''dial tcp: connection refused'')"
    by (simp_all add: plainError_def)
  from Connect_after_failed_dial[OF h] refused_not_cert n w h show ?thesis
    by auto
qed


subsection \<open>The backoff of the keepalive loop\<close>

lemma keepAlive_pass:
  assumes "\<not> ctxDone conn" and "reconnectCh conn = 1"
  shows "\<exists>conn'. keepAlive (RecvReconnect d) conn = Ok conn' \<and>
           \<not> ctxDone conn' \<and> reconnectCh conn' = 0 \<and>
           scheduled (trace conn') =
             scheduled (trace conn) @ (if dialFails d then [rcInt conn] else []) \<and>
           rcInt conn' =
             (if dialFails d
              then (if rcInt conn < maxReconnectInterval then rcInt conn + reconnectInterval
                    else rcInt conn)
              else reconnectInterval)"
proof (cases "dialFails d")
  case True
  then obtain err where e: "fst (connect d (emit (Logged ''Attempting to reconnect'') (conn\<lparr>reconnectCh := 0\<rparr>))) = Some err"
    using connect_fails_iff by blast
  define c1 where "c1 = snd (connect d (emit (Logged ''Attempting to reconnect'') (conn\<lparr>reconnectCh := 0\<rparr>)))"
  have c: "connect d (emit (Logged ''Attempting to reconnect'') (conn\<lparr>reconnectCh := 0\<rparr>)) = (Some err, c1)"
    using e by (simp add: c1_def prod_eq_iff)
  have f: "ctxDone c1 = ctxDone conn" "reconnectCh c1 = 0" "rcInt c1 = rcInt conn"
    "scheduled (trace c1) = scheduled (trace conn)"
    by (simp_all add: c1_def scheduled_append)
  show ?thesis
    using assms True c f
    by (simp add: keepAlive_def Let_def afterFuncReconnect_def scheduled_append)
next
  case False
  then have e: "fst (connect d (emit (Logged ''Attempting to reconnect'') (conn\<lparr>reconnectCh := 0\<rparr>))) = None"
    using connect_fails_iff[of d] by (metis option.exhaust)
  define c1 where "c1 = snd (connect d (emit (Logged ''Attempting to reconnect'') (conn\<lparr>reconnectCh := 0\<rparr>)))"
  have c: "connect d (emit (Logged ''Attempting to reconnect'') (conn\<lparr>reconnectCh := 0\<rparr>)) = (None, c1)"
    using e by (simp add: c1_def prod_eq_iff)
  have f: "ctxDone c1 = ctxDone conn" "reconnectCh c1 = 0" "rcInt c1 = rcInt conn"
    "scheduled (trace c1) = scheduled (trace conn)"
    by (simp_all add: c1_def scheduled_append)
  show ?thesis
    using assms False c f
    by (simp add: keepAlive_def Let_def scheduled_append)
qed

lemma backoff_next:
  "(if min (int (Suc k) * (5 * Second)) (60 * Second) < maxReconnectInterval
    then min (int (Suc k) * (5 * Second)) (60 * Second) + reconnectInterval
    else min (int (Suc k) * (5 * Second)) (60 * Second)) =
   min (int (Suc (Suc k)) * (5 * Second)) (60 * Second)"
  by (simp add: maxReconnectInterval_def reconnectInterval_def Minute_def Second_def min_def)

lemma reconnectAttempts_schedule:
  assumes "\<not> ctxDone conn" and "reconnectCh conn = 0"
    and "rcInt conn = min (int (Suc k) * (5 * Second)) (60 * Second)"
  shows "\<exists>conn'. reconnectAttempts ds conn = Ok conn' \<and> \<not> ctxDone conn' \<and> reconnectCh conn' = 0 \<and>
           scheduled (trace conn') = scheduled (trace conn) @ backoffSchedule (map dialFails ds) k \<and>
           (ds \<noteq> [] \<and> \<not> dialFails (last ds) \<longrightarrow> rcInt conn' = reconnectInterval)"
  using assms
proof (induction ds arbitrary: conn k)
  case Nil
  then show ?case by simp
next
  case (Cons d ds)
  let ?c1 = "conn\<lparr>reconnectCh := 1\<rparr>"
  have s: "sendReconnect conn = Ok ?c1"
    using Cons.prems by (simp add: sendReconnect_def reconnectChCap_def)
  from keepAlive_pass[of ?c1 d] Cons.prems obtain c2 where
    k: "keepAlive (RecvReconnect d) ?c1 = Ok c2" and c2: "\<not> ctxDone c2" "reconnectCh c2 = 0"
    and sch: "scheduled (trace c2) = scheduled (trace conn) @ (if dialFails d then [rcInt conn] else [])"
    and rc: "rcInt c2 = (if dialFails d
              then (if rcInt conn < maxReconnectInterval then rcInt conn + reconnectInterval
                    else rcInt conn)
              else reconnectInterval)"
    by auto
  have step: "reconnectAttempts (d # ds) conn = reconnectAttempts ds c2"
    using s k by simp
  show ?case
  proof (cases "dialFails d")
    case True
    then have "rcInt c2 = (if rcInt conn < maxReconnectInterval
                           then rcInt conn + reconnectInterval else rcInt conn)"
      using rc by simp
    also have "\<dots> = min (int (Suc (Suc k)) * (5 * Second)) (60 * Second)"
      unfolding Cons.prems(3) by (rule backoff_next)
    finally have r: "rcInt c2 = min (int (Suc (Suc k)) * (5 * Second)) (60 * Second)" .
    from Cons.IH[OF c2 r] True sch Cons.prems(3) step show ?thesis
      by auto
  next
    case False
    then have r: "rcInt c2 = min (int (Suc 0) * (5 * Second)) (60 * Second)"
      using rc by (simp add: reconnectInterval_def Second_def)
    from Cons.IH[OF c2 r] False sch step rc show ?thesis
      by (cases ds) auto
  qed
qed

lemma backoffSchedule_failures:
  "backoffSchedule (replicate n True) k =
     map (\<lambda>i. min (int (Suc i) * (5 * Second)) (60 * Second)) [k ..< k + n]"
proof (induction n arbitrary: k)
  case 0
  then show ?case by simp
next
  case (Suc n)
  have "[k ..< k + Suc n] = k # [Suc k ..< Suc k + n]"
    by (simp add: upt_rec)
  with Suc[of "Suc k"] show ?case by simp
qed

text \<open>
  C3.  From a keepalive loop that is not cancelled and whose interval is 5 s (at its
  start, or after a success), a run of reconnect attempts schedules exactly the delays
  of the specification's schedule: the \<open>k\<close>-th failure in a row waits \<open>min (5 k) 60\<close>
  seconds, and a success sets the interval back to 5 s.  For a run of failures only the
  delays are 5 s, 10 s, 15 s, ... capped at 60 s.
\<close>

theorem keepAlive_backoff:
  assumes "\<not> ctxDone conn" and "reconnectCh conn = 0" and "rcInt conn = reconnectInterval"
  shows "\<exists>conn'. reconnectAttempts ds conn = Ok conn' \<and>
           scheduled (trace conn') = scheduled (trace conn) @ backoffSchedule (map dialFails ds) 0 \<and>
           ((\<forall>d \<in> set ds. dialFails d) \<longrightarrow>
              scheduled (trace conn') = scheduled (trace conn) @
                map (\<lambda>i. min (int (Suc i) * (5 * Second)) (60 * Second)) [0 ..< length ds]) \<and>
           (ds \<noteq> [] \<and> \<not> dialFails (last ds) \<longrightarrow> rcInt conn' = reconnectInterval)"
proof -
  have r: "rcInt conn = min (int (Suc 0) * (5 * Second)) (60 * Second)"
    using assms(3) by (simp add: reconnectInterval_def Second_def)
  from reconnectAttempts_schedule[OF assms(1,2) r, of ds] obtain conn' where
    c: "reconnectAttempts ds conn = Ok conn'"
      "scheduled (trace conn') = scheduled (trace conn) @ backoffSchedule (map dialFails ds) 0"
      "ds \<noteq> [] \<and> \<not> dialFails (last ds) \<longrightarrow> rcInt conn' = reconnectInterval"
    by blast
  have "(\<forall>d \<in> set ds. dialFails d) \<longrightarrow> map dialFails ds = replicate (length ds) True"
    by (induction ds) auto
  with c backoffSchedule_failures[of "length ds" 0] show ?thesis
    by auto
qed


theorem keepAlive_backoff_witness:
  "\<not> ctxDone (newConn\<lparr>rcInt := reconnectInterval\<rparr>) \<and>
   reconnectCh (newConn\<lparr>rcInt := reconnectInterval\<rparr>) = 0 \<and>
   rcInt (newConn\<lparr>rcInt := reconnectInterval\<rparr>) = reconnectInterval \<and>
   (\<exists>conn'. reconnectAttempts
        [DialFailed (plainError ''refused''), DialOk 3 (Some (Errorf ''deadline'')), DialOk 4 None,
         DialFailed (plainError ''refused'')] (newConn\<lparr>rcInt := reconnectInterval\<rparr>) = Ok conn' \<and>
      scheduled (trace conn') = [5 * Second, 10 * Second, 5 * Second]) \<and>
   (\<exists>conn'. reconnectAttempts (replicate 13 (DialFailed (plainError ''refused'')))
        (newConn\<lparr>rcInt := reconnectInterval\<rparr>) = Ok conn' \<and>
      scheduled (trace conn') =
        [5 * Second, 10 * Second, 15 * Second, 20 * Second, 25 * Second, 30 * Second, 35 * Second,
         40 * Second, 45 * Second, 50 * Second, 55 * Second, 60 * Second, 60 * Second])"
proof -
  have h: "\<not> ctxDone (newConn\<lparr>rcInt := reconnectInterval\<rparr>)"
    "reconnectCh (newConn\<lparr>rcInt := reconnectInterval\<rparr>) = 0"
    "rcInt (newConn\<lparr>rcInt := reconnectInterval\<rparr>) = reconnectInterval"
    by (simp_all add: newConn_def)
  have t: "trace (newConn\<lparr>rcInt := reconnectInterval\<rparr>) = []"
    by (simp add: newConn_def)
  from keepAlive_backoff[OF h, of "[DialFailed (plainError ''refused''),
         DialOk 3 (Some (Errorf ''deadline'')), DialOk 4 None, DialFailed (plainError ''refused'')]"]
    keepAlive_backoff[OF h, of "replicate 13 (DialFailed (plainError ''refused''))"]
    h t
  show ?thesis
    by (auto simp: Second_def upt_rec[of _ "13"] upt_rec[of _ "Suc _"] eval_nat_numeral)
qed


subsection \<open>The parts of connect, SendRaw and the watcher\<close>

lemma returned_Some: "returned r = Some c \<longleftrightarrow> r = Ok c"
  by (cases r) auto

lemma machine_frame [simp]:
  "connecting (emit ev conn) = connecting conn"
  "pendingWrites (emit ev conn) = pendingWrites conn"
  "connecting (setConnectionStatus st conn) = connecting conn"
  "pendingWrites (setConnectionStatus st conn) = pendingWrites conn"
  "connecting (close sock conn) = connecting conn"
  "pendingWrites (close sock conn) = pendingWrites conn"
  "connecting (cancel conn) = connecting conn"
  "pendingWrites (cancel conn) = pendingWrites conn"
  "connecting (afterFuncReconnect d conn) = connecting conn"
  "pendingWrites (afterFuncReconnect d conn) = pendingWrites conn"
  "connecting (exitReader conn) = connecting conn"
  "pendingWrites (exitReader conn) = pendingWrites conn"
  "connecting (exitKeepAlive conn) = connecting conn"
  "pendingWrites (exitKeepAlive conn) = pendingWrites conn"
  "connecting (startTasks conn) = connecting conn"
  "pendingWrites (startTasks conn) = pendingWrites conn"
  "connecting (stopTimer t conn) = connecting conn"
  "pendingWrites (stopTimer t conn) = pendingWrites conn"
  "connecting (logReq rid f expireTime expireF conn) = connecting conn"
  "pendingWrites (logReq rid f expireTime expireF conn) = pendingWrites conn"
  "connecting (doExpire t conn) = connecting conn"
  "pendingWrites (doExpire t conn) = pendingWrites conn"
  "connecting (snd (respHandler rid conn)) = connecting conn"
  "pendingWrites (snd (respHandler rid conn)) = pendingWrites conn"
  by (simp_all add: emit_def setConnectionStatus_def close_def cancel_def afterFuncReconnect_def
      exitReader_def exitKeepAlive_def startTasks_def stopTimer_def logReq_def doExpire_def
      expire_def respHandler_def Let_def split: option.splits)

lemma machine_drainHandlers [simp]:
  "connecting (drainHandlers hs conn) = connecting conn"
  "pendingWrites (drainHandlers hs conn) = pendingWrites conn"
  by (induction hs conn rule: drainHandlers.induct) simp_all

lemma machine_connect [simp]:
  "connecting (snd (connect d conn)) = connecting conn"
  "pendingWrites (snd (connect d conn)) = pendingWrites conn"
  by (cases d rule: dialFails.cases; simp add: connect_def Let_def split: option.splits)+

lemma installSocket_frame [simp]:
  "cfg (installSocket sock conn) = cfg conn"
  "ws (installSocket sock conn) = Some sock"
  "connectionStatus (installSocket sock conn) = connectionStatus conn"
  "respHandlers (installSocket sock conn) = respHandlers conn"
  "readCh (installSocket sock conn) = readCh conn"
  "readChClosed (installSocket sock conn) = readChClosed conn"
  "reconnectCh (installSocket sock conn) = reconnectCh conn"
  "cancelSet (installSocket sock conn) = cancelSet conn"
  "ctxDone (installSocket sock conn) = ctxDone conn"
  "wg (installSocket sock conn) = wg conn"
  "readers (installSocket sock conn) = readers conn"
  "keepAliveRunning (installSocket sock conn) = keepAliveRunning conn"
  "rcInt (installSocket sock conn) = rcInt conn"
  "watcher (installSocket sock conn) = watcher conn"
  "reconnectTimers (installSocket sock conn) = reconnectTimers conn"
  "timers (installSocket sock conn) = timers conn"
  "calls (installSocket sock conn) = calls conn"
  "connecting (installSocket sock conn) = connecting conn"
  "pendingWrites (installSocket sock conn) = pendingWrites conn"
  by (simp_all add: installSocket_def split: option.splits)

lemma startReader_frame [simp]:
  "cfg (startReader conn) = cfg conn"
  "ws (startReader conn) = ws conn"
  "connectionStatus (startReader conn) = Connected"
  "respHandlers (startReader conn) = respHandlers conn"
  "readCh (startReader conn) = readCh conn"
  "readChClosed (startReader conn) = readChClosed conn"
  "reconnectCh (startReader conn) = reconnectCh conn"
  "cancelSet (startReader conn) = cancelSet conn"
  "ctxDone (startReader conn) = ctxDone conn"
  "wg (startReader conn) = wg conn + 1"
  "readers (startReader conn) = readers conn + 1"
  "keepAliveRunning (startReader conn) = keepAliveRunning conn"
  "rcInt (startReader conn) = rcInt conn"
  "watcher (startReader conn) = watcher conn"
  "reconnectTimers (startReader conn) = reconnectTimers conn"
  "timers (startReader conn) = timers conn"
  "calls (startReader conn) = calls conn"
  "connecting (startReader conn) = connecting conn"
  "pendingWrites (startReader conn) = pendingWrites conn"
  by (simp_all add: startReader_def Let_def)

lemma reconnected_frame [simp]:
  "cfg (reconnected conn) = cfg conn"
  "ws (reconnected conn) = ws conn"
  "connectionStatus (reconnected conn) = connectionStatus conn"
  "respHandlers (reconnected conn) = respHandlers conn"
  "readCh (reconnected conn) = readCh conn"
  "readChClosed (reconnected conn) = readChClosed conn"
  "reconnectCh (reconnected conn) = reconnectCh conn"
  "cancelSet (reconnected conn) = cancelSet conn"
  "ctxDone (reconnected conn) = ctxDone conn"
  "wg (reconnected conn) = wg conn"
  "readers (reconnected conn) = readers conn"
  "keepAliveRunning (reconnected conn) = keepAliveRunning conn"
  "rcInt (reconnected conn) = reconnectInterval"
  "watcher (reconnected conn) = watcher conn"
  "reconnectTimers (reconnected conn) = reconnectTimers conn"
  "timers (reconnected conn) = timers conn"
  "calls (reconnected conn) = calls conn"
  "connecting (reconnected conn) = connecting conn"
  "pendingWrites (reconnected conn) = pendingWrites conn"
  by (simp_all add: reconnected_def Let_def)

lemma closeSocket_frame [simp]:
  "cfg (closeSocket conn) = cfg conn"
  "ws (closeSocket conn) = ws conn"
  "connectionStatus (closeSocket conn) = connectionStatus conn"
  "respHandlers (closeSocket conn) = respHandlers conn"
  "readCh (closeSocket conn) = readCh conn"
  "readChClosed (closeSocket conn) = readChClosed conn"
  "reconnectCh (closeSocket conn) = reconnectCh conn"
  "cancelSet (closeSocket conn) = cancelSet conn"
  "ctxDone (closeSocket conn) = ctxDone conn"
  "wg (closeSocket conn) = wg conn"
  "readers (closeSocket conn) = readers conn"
  "keepAliveRunning (closeSocket conn) = keepAliveRunning conn"
  "rcInt (closeSocket conn) = rcInt conn"
  "watcher (closeSocket conn) = watcher conn"
  "reconnectTimers (closeSocket conn) = reconnectTimers conn"
  "timers (closeSocket conn) = timers conn"
  "calls (closeSocket conn) = calls conn"
  "connecting (closeSocket conn) = connecting conn"
  "pendingWrites (closeSocket conn) = pendingWrites conn"
  by (simp_all add: closeSocket_def split: option.splits)

text \<open>The parts put together again are the functions of the source.\<close>

lemma connect_parts:
  "connect (DialOk sock None) conn = (None, startReader (installSocket sock conn))"
  by (simp add: connect_def installSocket_def startReader_def Let_def)

lemma Connect_parts:
  "Connect (DialOk sock None) conn =
     Ok ((True, None),
         startTasks (startReader (installSocket sock (conn\<lparr>cancelSet := True, ctxDone := False\<rparr>))))"
  by (simp add: Connect_def connect_parts)

lemma keepAlive_parts:
  assumes "0 < reconnectCh conn" and "\<not> ctxDone conn"
  shows "keepAlive (RecvReconnect (DialOk sock None)) conn =
     Ok (reconnected (startReader (installSocket sock
           (emit (Logged ''Attempting to reconnect'')
              (conn\<lparr>reconnectCh := reconnectCh conn - 1\<rparr>)))))"
  using assms by (simp add: keepAlive_def connect_parts reconnected_def Let_def)

lemma SendRaw_parts:
  "SendRaw w b conn =
     (if IsDown conn then Ok (Some brokenConnection, conn) else writeLocked w b conn)"
  by (simp add: SendRaw_def writeLocked_def)

lemma shutdownWatcher_parts:
  assumes "ctxDone conn"
  shows "shutdownWatcher conn = drainAndClose (closeSocket (setConnectionStatus Disconnected conn))"
  using assms
  by (simp add: shutdownWatcher_def drainAndClose_def closeSocket_def Let_def
      split: option.splits)

subsection \<open>The registry: what each operation does to it\<close>

lemma concerns_isOutcome: "concerns t ev \<Longrightarrow> isOutcome ev"
  by (cases ev) auto

lemma outcomes_outcomeEvents: "outcomes t conn = length (filter (concerns t) (outcomeEvents conn))"
proof -
  have "filter (concerns t) (filter isOutcome xs) = filter (concerns t) xs" for xs
    by (induction xs) (auto dest: concerns_isOutcome)
  then show ?thesis by (simp add: outcomes_def outcomeEvents_def)
qed

lemma regView_eq:
  "regView a = regView b \<longleftrightarrow> respHandlers a = respHandlers b \<and> timers a = timers b \<and>
     calls a = calls b \<and> outcomeEvents a = outcomeEvents b"
  by (simp add: regView_def)

lemma wellFormed_regView: "regView a = regView b \<Longrightarrow> wellFormed a = wellFormed b"
  by (simp add: regView_eq wellFormed_def ids_def)

lemma outcomeEvents_emit [simp]:
  "outcomeEvents (emit ev conn) = outcomeEvents conn @ (if isOutcome ev then [ev] else [])"
  by (simp add: outcomeEvents_def)

lemma outcomeEvents_upd [simp]:
  "outcomeEvents (conn\<lparr>cfg := a1\<rparr>) = outcomeEvents conn"
  "outcomeEvents (conn\<lparr>ws := a2\<rparr>) = outcomeEvents conn"
  "outcomeEvents (conn\<lparr>connectionStatus := a3\<rparr>) = outcomeEvents conn"
  "outcomeEvents (conn\<lparr>respHandlers := a4\<rparr>) = outcomeEvents conn"
  "outcomeEvents (conn\<lparr>readCh := a5\<rparr>) = outcomeEvents conn"
  "outcomeEvents (conn\<lparr>readChClosed := a6\<rparr>) = outcomeEvents conn"
  "outcomeEvents (conn\<lparr>reconnectCh := a7\<rparr>) = outcomeEvents conn"
  "outcomeEvents (conn\<lparr>cancelSet := a8\<rparr>) = outcomeEvents conn"
  "outcomeEvents (conn\<lparr>ctxDone := a9\<rparr>) = outcomeEvents conn"
  "outcomeEvents (conn\<lparr>wg := b1\<rparr>) = outcomeEvents conn"
  "outcomeEvents (conn\<lparr>readers := b2\<rparr>) = outcomeEvents conn"
  "outcomeEvents (conn\<lparr>keepAliveRunning := b3\<rparr>) = outcomeEvents conn"
  "outcomeEvents (conn\<lparr>rcInt := b4\<rparr>) = outcomeEvents conn"
  "outcomeEvents (conn\<lparr>watcher := b5\<rparr>) = outcomeEvents conn"
  "outcomeEvents (conn\<lparr>reconnectTimers := b6\<rparr>) = outcomeEvents conn"
  "outcomeEvents (conn\<lparr>timers := b7\<rparr>) = outcomeEvents conn"
  "outcomeEvents (conn\<lparr>calls := b8\<rparr>) = outcomeEvents conn"
  by (simp_all add: outcomeEvents_def)

lemma outcomeEvents_basic [simp]:
  "outcomeEvents (setConnectionStatus st conn) = outcomeEvents conn"
  "outcomeEvents (close sock conn) = outcomeEvents conn"
  "outcomeEvents (cancel conn) = outcomeEvents conn"
  "outcomeEvents (afterFuncReconnect d conn) = outcomeEvents conn"
  "outcomeEvents (exitReader conn) = outcomeEvents conn"
  "outcomeEvents (exitKeepAlive conn) = outcomeEvents conn"
  "outcomeEvents (startTasks conn) = outcomeEvents conn"
  "outcomeEvents (stopTimer t conn) = outcomeEvents conn"
  "outcomeEvents (logReq rid f expireTime expireF conn) = outcomeEvents conn"
  by (simp_all add: setConnectionStatus_def close_def cancel_def afterFuncReconnect_def
      exitReader_def exitKeepAlive_def startTasks_def stopTimer_def logReq_def Let_def)

lemma outcomeEvents_connect [simp]: "outcomeEvents (snd (connect d conn)) = outcomeEvents conn"
  by (cases d rule: dialFails.cases) (simp_all add: connect_def Let_def split: option.splits)

lemma regView_connect [simp]: "regView (snd (connect d conn)) = regView conn"
  by (simp add: regView_eq)

lemma regView_reconnect: "reconnect conn = Ok conn' \<Longrightarrow> regView conn' = regView conn"
  by (auto simp: reconnect_def sendReconnect_def Let_def regView_eq split: if_splits)

lemma regView_handleReadError:
  assumes "handleReadError err conn = Ok conn'"
  shows "regView conn' = regView conn"
proof -
  have "\<forall>c'. handleReadError err conn = Ok c' \<longrightarrow> regView c' = regView conn"
    by (rule handleReadError_cases) (auto dest!: regView_reconnect simp: regView_eq)
  with assms show ?thesis by blast
qed

lemma regView_keepAlive:
  assumes "keepAlive sc conn = Ok conn'"
  shows "regView conn' = regView conn"
proof (cases sc)
  case CtxDone
  with assms show ?thesis
    by (auto simp: keepAlive_def regView_eq split: if_splits)
next
  case (RecvReconnect d)
  let ?c0 = "emit (Logged ''Attempting to reconnect'') (conn\<lparr>reconnectCh := reconnectCh conn - 1\<rparr>)"
  have "regView conn' = regView (snd (connect d ?c0)) \<or> regView conn' = regView conn"
    using assms RecvReconnect
    by (auto simp: keepAlive_def case_prod_beta Let_def regView_eq split: if_splits option.splits)
  then show ?thesis
    by (auto simp: regView_eq)
qed

lemma regView_Connect:
  assumes "Connect d conn = Ok (r, conn')"
  shows "regView conn' = regView conn"
proof -
  let ?c0 = "conn\<lparr>cancelSet := True, ctxDone := False\<rparr>"
  have "regView conn' = regView (snd (connect d ?c0))"
    using assms
    by (auto simp: Connect_def case_prod_beta Let_def regView_eq closeReadCh_def
        split: if_splits option.splits result.splits)
  then show ?thesis by (simp add: regView_eq)
qed

lemma regView_readRaw:
  assumes "readRaw r conn = Ok conn'"
  shows "regView conn' = regView conn"
  using assms
  by (auto simp: readRaw_def regView_eq split: if_splits raw_outcome.splits result.splits
      dest!: regView_handleReadError)

lemma regView_SendRaw:
  assumes "SendRaw w b conn = Ok (e, conn')"
  shows "regView conn' = regView conn"
  using assms
  by (auto simp: SendRaw_def regView_eq split: if_splits option.splits write_outcome.splits)


subsection \<open>Effects on the registry\<close>

lemma ids_stopTimer [simp]: "ids (stopTimer t conn) = ids conn"
  by (simp add: ids_def stopTimer_def map_update list_update_same_conv)

lemma respHandler_None:
  "map_of (respHandlers conn) rid = None \<Longrightarrow> respHandler rid conn = (None, conn)"
  by (simp add: respHandler_def)

lemma respHandler_Some:
  assumes "map_of (respHandlers conn) rid = Some h"
  shows "respHandler rid conn =
           (Some h, (stopTimer (expiration h) conn)\<lparr>respHandlers := AList.delete rid (respHandlers conn)\<rparr>)"
  using assms by (simp add: respHandler_def)

lemma eventOk_mono: "eventOk is ev \<Longrightarrow> eventOk (is @ js) ev"
  by (cases ev) (auto simp: nth_append)

lemma wellFormed_delete:
  assumes "wellFormed conn"
    and "respHandlers conn' = AList.delete rid (respHandlers conn)"
    and "ids conn' = ids conn" and "calls conn' = calls conn"
    and "outcomeEvents conn' = outcomeEvents conn"
  shows "wellFormed conn'"
  using assms
  by (auto simp: wellFormed_def distinct_delete delete_conv')

lemma wellFormed_callback:
  assumes "wellFormed conn" and "map_of (respHandlers conn) (msgID msg) = Some h"
    and "msgType msg = Response"
    and "respHandlers conn' = AList.delete (msgID msg) (respHandlers conn)"
    and "ids conn' = ids conn" and "calls conn' = calls conn"
    and "outcomeEvents conn' = outcomeEvents conn @ [RanCallback h msg]"
  shows "wellFormed conn'"
  using assms
  by (auto simp: wellFormed_def distinct_delete delete_conv')

lemma read_Ok_cases [consumes 1, case_names exit decode error nohandler callback deliver]:
  assumes "read r conn = Ok conn'"
  obtains "ctxDone conn" "conn' = exitReader conn"
  | err where "r = ReadError err" "conn' = emit (Logged ''json decode error'') conn"
  | err c where "r = ReadError err" "handleReadError err conn = Ok c" "conn' = exitReader c"
  | msg where "r = Received msg" "\<not> ctxDone conn" "msgType msg = Response"
      "map_of (respHandlers conn) (msgID msg) = None"
      "conn' = emit (Logged ''No handler found for response'') conn"
  | msg h where "r = Received msg" "\<not> ctxDone conn" "msgType msg = Response"
      "map_of (respHandlers conn) (msgID msg) = Some h"
      "conn' = emit (RanCallback h msg)
         ((stopTimer (expiration h) conn)\<lparr>respHandlers := AList.delete (msgID msg) (respHandlers conn)\<rparr>)"
  | msg where "r = Received msg" "msgType msg \<noteq> Response" "\<not> readChClosed conn"
      "conn' = conn\<lparr>readCh := readCh conn @ [msg]\<rparr>"
proof (cases "ctxDone conn")
  case True
  with assms that(1) show ?thesis by (simp add: read_def)
next
  case notDone: False
  show ?thesis
  proof (cases r)
    case (ReadError err)
    show ?thesis
    proof (cases "asUnmarshalTypeError err")
      case True
      with assms notDone ReadError that(2) show ?thesis by (simp add: read_def)
    next
      case False
      with assms notDone ReadError obtain c where "handleReadError err conn = Ok c" "conn' = exitReader c"
        by (cases "handleReadError err conn") (simp_all add: read_def)
      with ReadError that(3) show ?thesis by blast
    qed
  next
    case (Received msg)
    show ?thesis
    proof (cases "msgType msg = Response")
      case False
      with assms notDone Received have "sendReadCh msg conn = Ok conn'"
        by (simp add: read_def)
      then have "\<not> readChClosed conn" "conn' = conn\<lparr>readCh := readCh conn @ [msg]\<rparr>"
        by (simp_all add: sendReadCh_def split: if_splits)
      with Received False that(6) show ?thesis by blast
    next
      case resp: True
      show ?thesis
      proof (cases "map_of (respHandlers conn) (msgID msg)")
        case None
        with assms notDone Received resp have "conn' = emit (Logged ''No handler found for response'') conn"
          by (simp add: read_def respHandler_None)
        with Received notDone resp None that(4) show ?thesis by blast
      next
        case (Some h)
        with assms notDone Received resp have
          "conn' = emit (RanCallback h msg)
                ((stopTimer (expiration h) conn)\<lparr>respHandlers := AList.delete (msgID msg) (respHandlers conn)\<rparr>)"
          by (simp add: read_def respHandler_Some)
        with Received notDone resp Some that(5) show ?thesis by blast
      qed
    qed
  qed
qed



lemma reconnect_Ok:
  assumes "reconnect conn = Ok conn'"
  shows "conn' = (if DisableAutoReconnect (cfg conn) then setConnectionStatus Disconnected conn
                  else (setConnectionStatus Disconnected conn)\<lparr>reconnectCh := reconnectCh conn + 1\<rparr>)
         \<and> (\<not> DisableAutoReconnect (cfg conn) \<longrightarrow> reconnectCh conn = 0)"
  using assms
  by (simp add: reconnect_def sendReconnect_def reconnectChCap_def Let_def split: if_splits)

lemma handleReadError_Ok:
  assumes "handleReadError err conn = Ok conn'"
  obtains l where
    "conn' = (if DisableAutoReconnect (cfg conn)
              then setConnectionStatus Disconnected (conn\<lparr>trace := trace conn @ l\<rparr>)
              else (setConnectionStatus Disconnected (conn\<lparr>trace := trace conn @ l\<rparr>))
                     \<lparr>reconnectCh := reconnectCh conn + 1\<rparr>)"
    "\<not> DisableAutoReconnect (cfg conn) \<longrightarrow> reconnectCh conn = 0"
    "l = [] \<or> (\<exists>s. l = [Logged s])"
proof -
  have "\<forall>c'. handleReadError err conn = Ok c' \<longrightarrow>
          (\<exists>l. c' = (if DisableAutoReconnect (cfg conn)
              then setConnectionStatus Disconnected (conn\<lparr>trace := trace conn @ l\<rparr>)
              else (setConnectionStatus Disconnected (conn\<lparr>trace := trace conn @ l\<rparr>))
                     \<lparr>reconnectCh := reconnectCh conn + 1\<rparr>) \<and>
            (\<not> DisableAutoReconnect (cfg conn) \<longrightarrow> reconnectCh conn = 0) \<and>
            (l = [] \<or> (\<exists>s. l = [Logged s])))"
  proof (rule handleReadError_cases)
    show "\<forall>c'. reconnect conn = Ok c' \<longrightarrow>
          (\<exists>l. c' = (if DisableAutoReconnect (cfg conn)
              then setConnectionStatus Disconnected (conn\<lparr>trace := trace conn @ l\<rparr>)
              else (setConnectionStatus Disconnected (conn\<lparr>trace := trace conn @ l\<rparr>))
                     \<lparr>reconnectCh := reconnectCh conn + 1\<rparr>) \<and>
            (\<not> DisableAutoReconnect (cfg conn) \<longrightarrow> reconnectCh conn = 0) \<and>
            (l = [] \<or> (\<exists>s. l = [Logged s])))"
    proof (intro allI impI)
      fix c' assume "reconnect conn = Ok c'"
      from reconnect_Ok[OF this] show "\<exists>l. c' = (if DisableAutoReconnect (cfg conn)
              then setConnectionStatus Disconnected (conn\<lparr>trace := trace conn @ l\<rparr>)
              else (setConnectionStatus Disconnected (conn\<lparr>trace := trace conn @ l\<rparr>))
                     \<lparr>reconnectCh := reconnectCh conn + 1\<rparr>) \<and>
            (\<not> DisableAutoReconnect (cfg conn) \<longrightarrow> reconnectCh conn = 0) \<and>
            (l = [] \<or> (\<exists>s. l = [Logged s]))"
        by (intro exI[of _ "[]"]) simp
    qed
  next
    fix s
    show "\<forall>c'. reconnect (emit (Logged s) conn) = Ok c' \<longrightarrow>
          (\<exists>l. c' = (if DisableAutoReconnect (cfg conn)
              then setConnectionStatus Disconnected (conn\<lparr>trace := trace conn @ l\<rparr>)
              else (setConnectionStatus Disconnected (conn\<lparr>trace := trace conn @ l\<rparr>))
                     \<lparr>reconnectCh := reconnectCh conn + 1\<rparr>) \<and>
            (\<not> DisableAutoReconnect (cfg conn) \<longrightarrow> reconnectCh conn = 0) \<and>
            (l = [] \<or> (\<exists>s. l = [Logged s])))"
    proof (intro allI impI)
      fix c' assume "reconnect (emit (Logged s) conn) = Ok c'"
      from reconnect_Ok[OF this] show "\<exists>l. c' = (if DisableAutoReconnect (cfg conn)
              then setConnectionStatus Disconnected (conn\<lparr>trace := trace conn @ l\<rparr>)
              else (setConnectionStatus Disconnected (conn\<lparr>trace := trace conn @ l\<rparr>))
                     \<lparr>reconnectCh := reconnectCh conn + 1\<rparr>) \<and>
            (\<not> DisableAutoReconnect (cfg conn) \<longrightarrow> reconnectCh conn = 0) \<and>
            (l = [] \<or> (\<exists>s. l = [Logged s]))"
        by (intro exI[of _ "[Logged s]"]) (simp add: emit_def)
    qed
  qed
  with assms that show ?thesis by blast
qed


lemma outcomeEvents_parts [simp]:
  "outcomeEvents (installSocket sock conn) = outcomeEvents conn"
  "outcomeEvents (startReader conn) = outcomeEvents conn"
  "outcomeEvents (reconnected conn) = outcomeEvents conn"
  "outcomeEvents (closeSocket conn) = outcomeEvents conn"
  "outcomeEvents (conn\<lparr>connecting := c1\<rparr>) = outcomeEvents conn"
  "outcomeEvents (conn\<lparr>pendingWrites := c2\<rparr>) = outcomeEvents conn"
  by (simp_all add: installSocket_def startReader_def reconnected_def closeSocket_def Let_def
      outcomeEvents_def close_def emit_def setConnectionStatus_def split: option.splits)

lemma regView_parts [simp]:
  "regView (installSocket sock conn) = regView conn"
  "regView (startReader conn) = regView conn"
  "regView (reconnected conn) = regView conn"
  "regView (closeSocket conn) = regView conn"
  "regView (startTasks conn) = regView conn"
  "regView (setConnectionStatus st conn) = regView conn"
  "regView (cancel conn) = regView conn"
  "regView (exitKeepAlive conn) = regView conn"
  "regView (exitReader conn) = regView conn"
  by (simp_all add: regView_eq)

lemma regView_writeLocked:
  assumes "writeLocked w b conn = Ok (e, conn')"
  shows "regView conn' = regView conn"
  using assms
  by (auto simp: writeLocked_def regView_eq split: option.splits write_outcome.splits)

subsection \<open>The ways each operation can return\<close>

lemma SendRaw_Ok_cases [consumes 1, case_names down failed sent]:
  assumes "SendRaw w b conn = Ok (e, conn')"
  obtains "IsDown conn" "e = Some brokenConnection" "conn' = conn"
  | err s where "\<not> IsDown conn" "e = Some err" "conn' = emit (Logged s) conn" "w \<noteq> WriteOk"
  | sock where "\<not> IsDown conn" "ws conn = Some sock" "w = WriteOk" "e = None"
      "conn' = emit (Wrote sock b) conn"
proof (cases "IsDown conn")
  case True
  with assms have "e = Some brokenConnection" "conn' = conn" by (simp_all add: SendRaw_def)
  with True that(1) show ?thesis by blast
next
  case up: False
  then obtain sock where sock: "ws conn = Some sock"
    using assms by (cases "ws conn") (simp_all add: SendRaw_def)
  show ?thesis
  proof (cases w)
    case WriteOk
    with assms up sock that(3) show ?thesis by (simp add: SendRaw_def)
  next
    case (SetWriteDeadlineFailed err)
    with assms up sock that(2)[of err "''Send: failed to set write deadline''"] show ?thesis
      by (simp add: SendRaw_def)
  next
    case (WriteMessageFailed err)
    with assms up sock that(2)[of err "''Send: WriteMessage error''"] show ?thesis
      by (simp add: SendRaw_def)
  qed
qed

lemma readRaw_Ok_cases [consumes 1, case_names exit error handled]:
  assumes "readRaw r conn = Ok conn'"
  obtains "ctxDone conn" "conn' = exitReader conn"
  | err c where "r = RawReadError err" "handleReadError err conn = Ok c" "conn' = exitReader c"
  | b where "r = ReceivedRaw b" "conn' = emit (RawHandled b) conn"
proof (cases "ctxDone conn")
  case True
  with assms that(1) show ?thesis by (simp add: readRaw_def)
next
  case notDone: False
  show ?thesis
  proof (cases r)
    case (ReceivedRaw b)
    with assms notDone that(3) show ?thesis by (simp add: readRaw_def)
  next
    case (RawReadError err)
    with assms notDone obtain c where "handleReadError err conn = Ok c" "conn' = exitReader c"
      by (cases "handleReadError err conn") (simp_all add: readRaw_def)
    with RawReadError that(2) show ?thesis by blast
  qed
qed

lemma keepAlive_Ok_cases [consumes 1, case_names quit drained failed connected]:
  assumes "keepAlive sc conn = Ok conn'"
  obtains "sc = CtxDone" "ctxDone conn" "conn' = exitKeepAlive conn"
  | d where "sc = RecvReconnect d" "0 < reconnectCh conn" "ctxDone conn"
      "conn' = exitKeepAlive (conn\<lparr>reconnectCh := reconnectCh conn - 1\<rparr>)"
  | d c1 err where "sc = RecvReconnect d" "0 < reconnectCh conn" "\<not> ctxDone conn"
      "connect d (emit (Logged ''Attempting to reconnect'')
                   (conn\<lparr>reconnectCh := reconnectCh conn - 1\<rparr>)) = (Some err, c1)"
      "conn' = (let c2 = afterFuncReconnect (rcInt c1)
                           (emit (Logged ''Reconnect failed. Scheduling reconnect'') c1)
                in if rcInt c2 < maxReconnectInterval
                   then c2\<lparr>rcInt := rcInt c2 + reconnectInterval\<rparr> else c2)"
  | d c1 where "sc = RecvReconnect d" "0 < reconnectCh conn" "\<not> ctxDone conn"
      "connect d (emit (Logged ''Attempting to reconnect'')
                   (conn\<lparr>reconnectCh := reconnectCh conn - 1\<rparr>)) = (None, c1)"
      "conn' = (let c2 = (emit (Logged ''Successfully reconnected.'') c1)\<lparr>rcInt := reconnectInterval\<rparr>
                in if ReconnectSync (cfg c2) then emit ReconnectSynced c2 else c2)"
proof (cases sc)
  case CtxDone
  with assms that(1) show ?thesis by (simp add: keepAlive_def split: if_splits)
next
  case (RecvReconnect d)
  with assms have pos: "0 < reconnectCh conn"
    by (simp add: keepAlive_def split: if_splits)
  show ?thesis
  proof (cases "ctxDone conn")
    case True
    with assms RecvReconnect pos that(2) show ?thesis by (simp add: keepAlive_def)
  next
    case notDone: False
    let ?c0 = "emit (Logged ''Attempting to reconnect'') (conn\<lparr>reconnectCh := reconnectCh conn - 1\<rparr>)"
    obtain e c1 where c: "connect d ?c0 = (e, c1)" by (cases "connect d ?c0")
    show ?thesis
    proof (cases e)
      case None
      with assms RecvReconnect pos notDone c that(4)[of d c1] show ?thesis
        by (simp add: keepAlive_def Let_def)
    next
      case (Some err)
      with assms RecvReconnect pos notDone c that(3)[of d err c1] show ?thesis
        by (simp add: keepAlive_def Let_def)
    qed
  qed
qed

lemma Connect_Ok_cases [consumes 1, case_names hard soft connected]:
  assumes "Connect d conn = Ok (r, conn')"
  obtains err c1 where
      "connect d (conn\<lparr>cancelSet := True, ctxDone := False\<rparr>) = (Some err, c1)"
      "DisableAutoReconnect (cfg conn) \<or> errors_Is err ErrInvalidCert \<or> errors_Is err ErrCertRequired"
      "wg c1 = 0" "\<not> readChClosed c1" "r = (False, Some err)"
      "conn' = emit ReadChClosed ((cancel c1)\<lparr>readChClosed := True\<rparr>)"
  | err c1 where
      "connect d (conn\<lparr>cancelSet := True, ctxDone := False\<rparr>) = (Some err, c1)"
      "\<not> DisableAutoReconnect (cfg conn)" "r = (True, None)"
      "conn' = startTasks (afterFuncReconnect (5 * Second)
                 (emit (Logged ''Initial connection failed, starting reconnect loop'') c1))"
  | c1 where
      "connect d (conn\<lparr>cancelSet := True, ctxDone := False\<rparr>) = (None, c1)"
      "r = (True, None)" "conn' = startTasks c1"
proof -
  let ?c0 = "conn\<lparr>cancelSet := True, ctxDone := False\<rparr>"
  obtain e c1 where c: "connect d ?c0 = (e, c1)" by (cases "connect d ?c0")
  have cfg1: "cfg c1 = cfg conn"
    using connect_frame(1)[of d ?c0] c by simp
  show ?thesis
  proof (cases e)
    case None
    with assms c that(3)[of c1] show ?thesis by (simp add: Connect_def)
  next
    case (Some err)
    show ?thesis
    proof (cases "DisableAutoReconnect (cfg conn) \<or> errors_Is err ErrInvalidCert \<or> errors_Is err ErrCertRequired")
      case False
      with assms c Some cfg1 that(2)[of err c1] show ?thesis by (simp add: Connect_def)
    next
      case True
      with assms c Some cfg1 have
        "wg c1 = 0 \<and> \<not> readChClosed c1 \<and> r = (False, Some err) \<and>
         conn' = emit ReadChClosed ((cancel c1)\<lparr>readChClosed := True\<rparr>)"
        by (auto simp: Connect_def Let_def closeReadCh_def cancel_def emit_def split: if_splits)
      with c Some True that(1)[of err c1] show ?thesis by simp
    qed
  qed
qed

lemma shutdownWatcher_Ok:
  assumes "shutdownWatcher conn = Ok conn'"
  obtains c2 where "ctxDone conn" "\<not> readChClosed conn"
    "c2 = (case ws conn of None \<Rightarrow> setConnectionStatus Disconnected conn
           | Some sock \<Rightarrow> close sock (emit (Logged ''Sending close 1000 (normal) message.'')
                                       (setConnectionStatus Disconnected conn)))"
    "conn' = (emit ReadChClosed ((drainHandlers (respHandlers conn) c2)\<lparr>readChClosed := True\<rparr>))
                \<lparr>watcher := Finished, wg := wg conn - 1\<rparr>"
proof -
  define c2 where "c2 = (case ws conn of None \<Rightarrow> setConnectionStatus Disconnected conn
           | Some sock \<Rightarrow> close sock (emit (Logged ''Sending close 1000 (normal) message.'')
                                       (setConnectionStatus Disconnected conn)))"
  have f: "respHandlers c2 = respHandlers conn" "readChClosed c2 = readChClosed conn" "wg c2 = wg conn"
    by (simp_all add: c2_def split: option.splits)
  from assms have d: "ctxDone conn" by (simp add: shutdownWatcher_def split: if_splits)
  have eq: "shutdownWatcher conn =
      (case closeReadCh (drainHandlers (respHandlers c2) c2) of
         Ok conn4 \<Rightarrow> Ok (conn4\<lparr>watcher := Finished, wg := wg conn4 - 1\<rparr>)
       | other \<Rightarrow> other)"
    using d by (simp add: shutdownWatcher_def c2_def Let_def)
  have nc: "\<not> readChClosed conn"
    using assms f unfolding eq by (auto simp: closeReadCh_def split: if_splits)
  have "conn' = (emit ReadChClosed ((drainHandlers (respHandlers conn) c2)\<lparr>readChClosed := True\<rparr>))
                \<lparr>watcher := Finished, wg := wg conn - 1\<rparr>"
    using assms nc f unfolding eq by (simp add: closeReadCh_def)
  with d nc c2_def that show ?thesis by blast
qed

lemma writeLocked_Ok_cases [consumes 1, case_names failed sent]:
  assumes "writeLocked w b conn = Ok (e, conn')"
  obtains sock err s where "ws conn = Some sock" "e = Some err" "conn' = emit (Logged s) conn"
  | sock where "ws conn = Some sock" "w = WriteOk" "e = None" "conn' = emit (Wrote sock b) conn"
proof -
  from assms obtain sock where sock: "ws conn = Some sock"
    by (cases "ws conn") (simp_all add: writeLocked_def)
  show ?thesis
  proof (cases w)
    case WriteOk
    with assms sock that(2) show ?thesis by (simp add: writeLocked_def)
  next
    case (SetWriteDeadlineFailed err)
    with assms sock that(1)[of sock err "''Send: failed to set write deadline''"] show ?thesis
      by (simp add: writeLocked_def)
  next
    case (WriteMessageFailed err)
    with assms sock that(1)[of sock err "''Send: WriteMessage error''"] show ?thesis
      by (simp add: writeLocked_def)
  qed
qed

lemma drainAndClose_Ok:
  assumes "drainAndClose conn = Ok conn'"
  shows "\<not> readChClosed conn"
    and "conn' = (emit ReadChClosed ((drainHandlers (respHandlers conn) conn)\<lparr>readChClosed := True\<rparr>))
                   \<lparr>watcher := Finished, wg := wg conn - 1\<rparr>"
proof -
  show nc: "\<not> readChClosed conn"
    using assms by (auto simp: drainAndClose_def closeReadCh_def split: if_splits)
  then show "conn' = (emit ReadChClosed ((drainHandlers (respHandlers conn) conn)\<lparr>readChClosed := True\<rparr>))
                   \<lparr>watcher := Finished, wg := wg conn - 1\<rparr>"
    using assms by (simp add: drainAndClose_def closeReadCh_def)
qed

lemma not_dialFails: "\<not> dialFails d \<longleftrightarrow> (\<exists>sock. d = DialOk sock None)"
  by (cases d rule: dialFails.cases) simp_all

lemma step_CallConnect_cases:
  assumes "step (CallConnect d) conn = Some conn'"
  shows "\<not> cancelSet conn \<and>
     ((\<exists>sock. d = DialOk sock None \<and>
         conn' = (installSocket sock (conn\<lparr>cancelSet := True, ctxDone := False\<rparr>))
                   \<lparr>connecting := Some ByConnect\<rparr>) \<or>
      (dialFails d \<and> (\<exists>r. Connect d conn = Ok (r, conn'))))"
proof -
  from assms have nc: "\<not> cancelSet conn" by (simp split: if_splits)
  show ?thesis
  proof (cases d rule: dialFails.cases)
    case (1 err)
    with assms nc obtain r where "Connect d conn = Ok (r, conn')"
      by (cases "Connect d conn") (auto split: prod.splits)
    with 1 nc show ?thesis by auto
  next
    case (2 sock err)
    with assms nc obtain r where "Connect d conn = Ok (r, conn')"
      by (cases "Connect d conn") (auto split: prod.splits)
    with 2 nc show ?thesis by auto
  next
    case (3 sock)
    with assms nc show ?thesis by simp
  qed
qed

lemma step_RunKeepAlive_cases:
  assumes "step (RunKeepAlive sc) conn = Some conn'"
  shows "keepAliveRunning conn \<and> connecting conn = None \<and>
     ((\<exists>sock. sc = RecvReconnect (DialOk sock None) \<and> 0 < reconnectCh conn \<and> \<not> ctxDone conn \<and>
         conn' = (installSocket sock
                    (emit (Logged ''Attempting to reconnect'')
                       (conn\<lparr>reconnectCh := reconnectCh conn - 1\<rparr>)))
                   \<lparr>connecting := Some ByKeepAlive\<rparr>) \<or>
      (sc = CtxDone \<and> ctxDone conn \<and> conn' = exitKeepAlive conn) \<or>
      (\<exists>d. sc = RecvReconnect d \<and> 0 < reconnectCh conn \<and> ctxDone conn \<and>
         conn' = exitKeepAlive (conn\<lparr>reconnectCh := reconnectCh conn - 1\<rparr>)) \<or>
      (\<exists>d err c1. sc = RecvReconnect d \<and> dialFails d \<and> 0 < reconnectCh conn \<and> \<not> ctxDone conn \<and>
         connect d (emit (Logged ''Attempting to reconnect'')
                      (conn\<lparr>reconnectCh := reconnectCh conn - 1\<rparr>)) = (Some err, c1) \<and>
         conn' = (let c2 = afterFuncReconnect (rcInt c1)
                             (emit (Logged ''Reconnect failed. Scheduling reconnect'') c1)
                  in if rcInt c2 < maxReconnectInterval
                     then c2\<lparr>rcInt := rcInt c2 + reconnectInterval\<rparr> else c2)))"
proof -
  from assms have g: "keepAliveRunning conn" "connecting conn = None"
    by (simp_all split: if_splits)
  show ?thesis
  proof (cases "\<exists>sock. sc = RecvReconnect (DialOk sock None)")
    case True
    then obtain sock where sc: "sc = RecvReconnect (DialOk sock None)" by blast
    with assms g have pos: "0 < reconnectCh conn" by (simp split: if_splits)
    show ?thesis
    proof (cases "ctxDone conn")
      case True
      with assms g sc pos show ?thesis by simp
    next
      case False
      with assms g sc pos show ?thesis by simp
    qed
  next
    case False
    have "step (RunKeepAlive sc) conn = returned (keepAlive sc conn)"
    proof (cases sc)
      case CtxDone
      with g show ?thesis by simp
    next
      case (RecvReconnect d)
      with False have "dialFails d" using not_dialFails by blast
      with g RecvReconnect show ?thesis by (cases d rule: dialFails.cases) simp_all
    qed
    with assms have "returned (keepAlive sc conn) = Some conn'"
      by (auto simp del: step.simps)
    then have "keepAlive sc conn = Ok conn'" by (simp add: returned_Some)
    then show ?thesis
    proof (cases rule: keepAlive_Ok_cases)
      case quit
      with g show ?thesis by simp
    next
      case (drained d)
      with g show ?thesis by simp
    next
      case (failed d c1 err)
      from failed(1) False have "dialFails d" using not_dialFails by blast
      with g failed show ?thesis by blast
    next
      case (connected d c1)
      from connected(1) False have "dialFails d" using not_dialFails by blast
      then have "\<exists>e. fst (connect d (emit (Logged ''Attempting to reconnect'')
                   (conn\<lparr>reconnectCh := reconnectCh conn - 1\<rparr>))) = Some e"
        by (simp add: connect_fails_iff)
      with connected(4) show ?thesis by simp
    qed
  qed
qed

lemma step_cases [consumes 1, case_names Install Connect Finish FinishKeepAlive Stop
    WatcherStatus WatcherSocket WatcherDrain KeepAliveInstall KeepAliveQuit KeepAliveDrained
    KeepAliveFailed Read ReadRaw ReconnectTimer RequestRaw CheckDown CheckUp Write Unregister
    FireTimer DoExpire SendDown SendUp SendWrite Receive]:
  assumes "step a conn = Some conn'"
  obtains sock where "a = CallConnect (DialOk sock None)" "\<not> cancelSet conn"
      "conn' = (installSocket sock (conn\<lparr>cancelSet := True, ctxDone := False\<rparr>))
                 \<lparr>connecting := Some ByConnect\<rparr>"
  | d r where "a = CallConnect d" "dialFails d" "\<not> cancelSet conn" "Connect d conn = Ok (r, conn')"
  | "a = FinishConnect" "connecting conn = Some ByConnect"
      "conn' = (startTasks (startReader conn))\<lparr>connecting := None\<rparr>"
  | "a = FinishConnect" "connecting conn = Some ByKeepAlive"
      "conn' = (reconnected (startReader conn))\<lparr>connecting := None\<rparr>"
  | "a = CallStop" "cancelSet conn" "conn' = cancel conn"
  | "a = WatcherSetStatus" "watcher conn = Waiting" "ctxDone conn"
      "conn' = (setConnectionStatus Disconnected conn)\<lparr>watcher := StatusSet\<rparr>"
  | "a = WatcherCloseSocket" "watcher conn = StatusSet"
      "conn' = (closeSocket conn)\<lparr>watcher := SocketDone\<rparr>"
  | "a = WatcherDrain" "watcher conn = SocketDone" "\<not> readChClosed conn"
      "conn' = (emit ReadChClosed ((drainHandlers (respHandlers conn) conn)\<lparr>readChClosed := True\<rparr>))
                 \<lparr>watcher := Finished, wg := wg conn - 1\<rparr>"
  | sock where "a = RunKeepAlive (RecvReconnect (DialOk sock None))" "keepAliveRunning conn"
      "connecting conn = None" "0 < reconnectCh conn" "\<not> ctxDone conn"
      "conn' = (installSocket sock
                  (emit (Logged ''Attempting to reconnect'')
                     (conn\<lparr>reconnectCh := reconnectCh conn - 1\<rparr>)))
                 \<lparr>connecting := Some ByKeepAlive\<rparr>"
  | "a = RunKeepAlive CtxDone" "keepAliveRunning conn" "connecting conn = None" "ctxDone conn"
      "conn' = exitKeepAlive conn"
  | d where "a = RunKeepAlive (RecvReconnect d)" "keepAliveRunning conn" "connecting conn = None"
      "0 < reconnectCh conn" "ctxDone conn"
      "conn' = exitKeepAlive (conn\<lparr>reconnectCh := reconnectCh conn - 1\<rparr>)"
  | d err c1 where "a = RunKeepAlive (RecvReconnect d)" "dialFails d" "keepAliveRunning conn"
      "connecting conn = None" "0 < reconnectCh conn" "\<not> ctxDone conn"
      "connect d (emit (Logged ''Attempting to reconnect'')
                   (conn\<lparr>reconnectCh := reconnectCh conn - 1\<rparr>)) = (Some err, c1)"
      "conn' = (let c2 = afterFuncReconnect (rcInt c1)
                           (emit (Logged ''Reconnect failed. Scheduling reconnect'') c1)
                in if rcInt c2 < maxReconnectInterval
                   then c2\<lparr>rcInt := rcInt c2 + reconnectInterval\<rparr> else c2)"
  | r where "a = RunRead r" "0 < readers conn" "\<not> RawHandler (cfg conn)" "read r conn = Ok conn'"
  | r where "a = RunReadRaw r" "0 < readers conn" "RawHandler (cfg conn)" "readRaw r conn = Ok conn'"
  | "a = FireReconnectTimer" "0 < reconnectTimers conn" "reconnectCh conn = 0"
      "conn' = conn\<lparr>reconnectTimers := reconnectTimers conn - 1, reconnectCh := 1\<rparr>"
  | rid rawMsg f expireTime expireF where "a = CallRequestRaw rid rawMsg f expireTime expireF"
      "conn' = (logReq rid f expireTime expireF conn)\<lparr>calls := calls conn @ [InFlight rid rawMsg]\<rparr>"
  | t rid rawMsg where "a = CallCheckStatus t" "t < length (calls conn)"
      "calls conn ! t = InFlight rid rawMsg" "IsDown conn"
      "conn' = conn\<lparr>calls := (calls conn)[t := SendFailed rid brokenConnection]\<rparr>"
  | t rid rawMsg where "a = CallCheckStatus t" "t < length (calls conn)"
      "calls conn ! t = InFlight rid rawMsg" "\<not> IsDown conn"
      "conn' = conn\<lparr>calls := (calls conn)[t := Checked rid rawMsg]\<rparr>"
  | t w rid rawMsg e c where "a = CallWrite t w" "t < length (calls conn)"
      "calls conn ! t = Checked rid rawMsg" "writeLocked w rawMsg conn = Ok (e, c)"
      "conn' = c\<lparr>calls := (calls conn)[t := (case e of None \<Rightarrow> Returned None
                                                | Some err \<Rightarrow> SendFailed rid err)]\<rparr>"
  | t rid err where "a = CallUnregister t" "t < length (calls conn)"
      "calls conn ! t = SendFailed rid err"
      "conn' = (snd (respHandler rid conn))\<lparr>calls := (calls conn)[t := Returned (Some err)]\<rparr>"
  | t where "a = FireTimer t" "t < length (timers conn)" "tmState (timers conn ! t) = Armed"
      "conn' = conn\<lparr>timers := (timers conn)[t := (timers conn ! t)\<lparr>tmState := Fired\<rparr>]\<rparr>"
  | t where "a = RunDoExpire t" "t < length (timers conn)" "tmState (timers conn ! t) = Fired"
      "conn' = doExpire t (conn\<lparr>timers := (timers conn)[t := (timers conn ! t)\<lparr>tmState := Expired\<rparr>]\<rparr>)"
  | "a = SendCheckStatus" "IsDown conn" "conn' = conn"
  | "a = SendCheckStatus" "\<not> IsDown conn" "conn' = conn\<lparr>pendingWrites := pendingWrites conn + 1\<rparr>"
  | b w e c where "a = SendWrite b w" "0 < pendingWrites conn" "writeLocked w b conn = Ok (e, c)"
      "conn' = c\<lparr>pendingWrites := pendingWrites conn - 1\<rparr>"
  | m ms where "a = Receive" "readCh conn = m # ms" "conn' = conn\<lparr>readCh := ms\<rparr>"
proof (cases a)
  case (CallConnect d)
  with assms step_CallConnect_cases[of d conn conn'] that(1,2) show ?thesis by blast
next
  case FinishConnect
  show ?thesis
  proof (cases "connecting conn")
    case None
    with assms FinishConnect show ?thesis by simp
  next
    case (Some who)
    with assms FinishConnect that(3,4) show ?thesis by (cases who) simp_all
  qed
next
  case CallStop
  with assms that(5) show ?thesis by (auto split: if_splits)
next
  case WatcherSetStatus
  with assms that(6) show ?thesis by (auto split: if_splits)
next
  case WatcherCloseSocket
  with assms that(7) show ?thesis by (auto split: if_splits)
next
  case WatcherDrain
  with assms have w: "watcher conn = SocketDone" "drainAndClose conn = Ok conn'"
    by (simp_all add: returned_Some split: if_splits)
  from drainAndClose_Ok[OF w(2)] w(1) WatcherDrain that(8) show ?thesis by blast
next
  case (RunKeepAlive sc)
  with assms step_RunKeepAlive_cases[of sc conn conn'] that(9,10,11,12) show ?thesis by blast
next
  case (RunRead r)
  with assms that(13) show ?thesis by (simp add: returned_Some split: if_splits)
next
  case (RunReadRaw r)
  with assms that(14) show ?thesis by (simp add: returned_Some split: if_splits)
next
  case FireReconnectTimer
  with assms that(15) show ?thesis
    by (simp add: returned_Some sendReconnect_def reconnectChCap_def split: if_splits)
next
  case (CallRequestRaw rid rawMsg f expireTime expireF)
  with assms that(16) show ?thesis by simp
next
  case (CallCheckStatus t)
  with assms have lt: "t < length (calls conn)" by (simp split: if_splits)
  with assms CallCheckStatus obtain rid rawMsg where pc: "calls conn ! t = InFlight rid rawMsg"
    by (cases "calls conn ! t") simp_all
  show ?thesis
  proof (cases "IsDown conn")
    case True
    with assms CallCheckStatus lt pc that(17) show ?thesis by simp
  next
    case False
    with assms CallCheckStatus lt pc that(18) show ?thesis by simp
  qed
next
  case (CallWrite t w)
  with assms have lt: "t < length (calls conn)" by (simp split: if_splits)
  with assms CallWrite obtain rid rawMsg where pc: "calls conn ! t = Checked rid rawMsg"
    by (cases "calls conn ! t") simp_all
  with assms CallWrite lt obtain e c where s: "writeLocked w rawMsg conn = Ok (e, c)"
    by (cases "writeLocked w rawMsg conn") (auto split: prod.splits)
  then have cc: "calls c = calls conn"
    by (cases rule: writeLocked_Ok_cases) simp_all
  from assms CallWrite lt pc s cc
  have "conn' = c\<lparr>calls := (calls conn)[t := (case e of None \<Rightarrow> Returned None
                                                | Some err \<Rightarrow> SendFailed rid err)]\<rparr>"
    by (cases e) simp_all
  with CallWrite lt pc s that(19) show ?thesis by blast
next
  case (CallUnregister t)
  with assms have lt: "t < length (calls conn)" by (simp split: if_splits)
  with assms CallUnregister obtain rid err where pc: "calls conn ! t = SendFailed rid err"
    by (cases "calls conn ! t") simp_all
  with assms CallUnregister lt that(20) show ?thesis by simp
next
  case (FireTimer t)
  with assms that(21) show ?thesis by (simp split: if_splits)
next
  case (RunDoExpire t)
  with assms that(22) show ?thesis by (simp split: if_splits)
next
  case SendCheckStatus
  with assms that(23,24) show ?thesis by (auto split: if_splits)
next
  case (SendWrite b w)
  with assms have pos: "0 < pendingWrites conn" by (simp split: if_splits)
  with assms SendWrite obtain e c where s: "writeLocked w b conn = Ok (e, c)"
    by (cases "writeLocked w b conn") (auto split: prod.splits)
  then have "pendingWrites c = pendingWrites conn"
    by (cases rule: writeLocked_Ok_cases) simp_all
  with assms SendWrite pos s have "conn' = c\<lparr>pendingWrites := pendingWrites conn - 1\<rparr>"
    by simp
  with SendWrite pos s that(25) show ?thesis by blast
next
  case Receive
  with assms that(26) show ?thesis by (simp split: list.splits)
qed

subsection \<open>Connected implies a socket\<close>

lemma socketInv_quieter: "socketInv conn \<Longrightarrow> quieter conn conn' \<Longrightarrow> socketInv conn'"
  by (auto simp: socketInv_def quieter_def)

lemma quieter_trans: "quieter a b \<Longrightarrow> quieter b c \<Longrightarrow> quieter a c"
  by (auto simp: quieter_def)

lemma quieter_connect: "dialFails d \<Longrightarrow> quieter conn (snd (connect d conn))"
  by (cases d rule: dialFails.cases)
     (auto simp: quieter_def connect_def Let_def setConnectionStatus_def emit_def)

lemma quieter_handleReadError:
  assumes "handleReadError err conn = Ok conn'"
  shows "quieter conn conn'"
  using assms
proof (cases rule: handleReadError_Ok)
  case (1 l)
  then show ?thesis by (simp add: quieter_def)
qed

lemma quieter_read:
  assumes "read r conn = Ok conn'"
  shows "quieter conn conn'"
  using assms
proof (cases rule: read_Ok_cases)
  case (error err c)
  from quieter_handleReadError[OF error(2)] error(3) show ?thesis by (simp add: quieter_def)
qed (simp_all add: quieter_def)

lemma quieter_readRaw:
  assumes "readRaw r conn = Ok conn'"
  shows "quieter conn conn'"
  using assms
proof (cases rule: readRaw_Ok_cases)
  case (error err c)
  from quieter_handleReadError[OF error(2)] error(3) show ?thesis by (simp add: quieter_def)
qed (simp_all add: quieter_def)

lemma quieter_Connect:
  assumes "Connect d conn = Ok (r, conn')" and "dialFails d"
  shows "quieter conn conn'"
proof -
  let ?c0 = "conn\<lparr>cancelSet := True, ctxDone := False\<rparr>"
  have q: "quieter conn (snd (connect d ?c0))"
    using quieter_connect[OF assms(2), of ?c0] by (simp add: quieter_def)
  from assms(1) show ?thesis
  proof (cases rule: Connect_Ok_cases)
    case (hard err c1)
    from hard(1) have "c1 = snd (connect d ?c0)" by simp
    with q show ?thesis by (simp add: hard(6) quieter_def)
  next
    case (soft err c1)
    from soft(1) have "c1 = snd (connect d ?c0)" by simp
    with q show ?thesis by (simp add: soft(4) quieter_def)
  next
    case (connected c1)
    from assms(2) have "\<exists>e. fst (connect d ?c0) = Some e" by (simp add: connect_fails_iff)
    with connected(1) show ?thesis by simp
  qed
qed

lemma step_socket:
  assumes "step a conn = Some conn'" and "socketInv conn"
  shows "socketInv conn'" and "ws conn \<noteq> None \<longrightarrow> ws conn' \<noteq> None"
    and "connectionStatus conn \<noteq> Connected \<longrightarrow> connectionStatus conn' = Connected \<longrightarrow>
           a = FinishConnect \<and> ws conn \<noteq> None"
proof -
  have q: "socketInv conn' \<and> (ws conn \<noteq> None \<longrightarrow> ws conn' \<noteq> None) \<and>
           (connectionStatus conn \<noteq> Connected \<longrightarrow> connectionStatus conn' \<noteq> Connected)"
    if "quieter conn conn'"
    using that assms(2) by (auto simp: socketInv_def quieter_def)
  have "socketInv conn' \<and> (ws conn \<noteq> None \<longrightarrow> ws conn' \<noteq> None) \<and>
        (connectionStatus conn \<noteq> Connected \<longrightarrow> connectionStatus conn' = Connected \<longrightarrow>
           a = FinishConnect \<and> ws conn \<noteq> None)"
    using assms(1)
  proof (cases rule: step_cases)
    case (Install sock)
    then show ?thesis by (simp add: socketInv_def)
  next
    case (Connect d r)
    from quieter_Connect[OF Connect(4,2)] q show ?thesis by blast
  next
    case Finish
    with assms(2) have "ws conn \<noteq> None" by (simp add: socketInv_def)
    with Finish show ?thesis by (simp add: socketInv_def)
  next
    case FinishKeepAlive
    with assms(2) have "ws conn \<noteq> None" by (simp add: socketInv_def)
    with FinishKeepAlive show ?thesis by (simp add: socketInv_def)
  next
    case Stop
    then have "quieter conn conn'" by (simp add: quieter_def)
    with q show ?thesis by blast
  next
    case WatcherStatus
    then have "quieter conn conn'" by (simp add: quieter_def)
    with q show ?thesis by blast
  next
    case WatcherSocket
    then have "quieter conn conn'" by (simp add: quieter_def)
    with q show ?thesis by blast
  next
    case WatcherDrain
    then have "quieter conn conn'" by (simp add: quieter_def)
    with q show ?thesis by blast
  next
    case (KeepAliveInstall sock)
    then show ?thesis by (simp add: socketInv_def)
  next
    case KeepAliveQuit
    then have "quieter conn conn'" by (simp add: quieter_def)
    with q show ?thesis by blast
  next
    case (KeepAliveDrained d)
    then have "quieter conn conn'" by (simp add: quieter_def)
    with q show ?thesis by blast
  next
    case (KeepAliveFailed d err c1)
    let ?c0 = "emit (Logged ''Attempting to reconnect'') (conn\<lparr>reconnectCh := reconnectCh conn - 1\<rparr>)"
    from KeepAliveFailed(7) have "c1 = snd (connect d ?c0)" by simp
    with quieter_connect[OF KeepAliveFailed(2), of ?c0] have "quieter conn c1"
      by (simp add: quieter_def)
    then have "quieter conn conn'"
      by (simp add: KeepAliveFailed(8) quieter_def Let_def)
    with q show ?thesis by blast
  next
    case (Read r)
    from quieter_read[OF Read(4)] q show ?thesis by blast
  next
    case (ReadRaw r)
    from quieter_readRaw[OF ReadRaw(4)] q show ?thesis by blast
  next
    case ReconnectTimer
    then have "quieter conn conn'" by (simp add: quieter_def)
    with q show ?thesis by blast
  next
    case (RequestRaw rid rawMsg f expireTime expireF)
    with assms(2) show ?thesis by (auto simp: socketInv_def)
  next
    case (CheckDown t rid rawMsg)
    have "set ((calls conn)[t := SendFailed rid brokenConnection])
            \<subseteq> insert (SendFailed rid brokenConnection) (set (calls conn))"
      by (rule set_update_subset_insert)
    with assms(2) CheckDown show ?thesis by (auto simp: socketInv_def)
  next
    case (CheckUp t rid rawMsg)
    with assms(2) have "ws conn \<noteq> None" by (simp add: socketInv_def IsDown_def)
    with CheckUp show ?thesis by (simp add: socketInv_def)
  next
    case (Write t w rid rawMsg e c)
    from Write(4) have c: "ws c = ws conn" "connectionStatus c = connectionStatus conn"
      "connecting c = connecting conn" "pendingWrites c = pendingWrites conn"
      by (cases rule: writeLocked_Ok_cases; simp)+
    from Write(4) have "ws conn \<noteq> None" by (cases rule: writeLocked_Ok_cases) simp_all
    with c Write(5) show ?thesis by (simp add: socketInv_def)
  next
    case (Unregister t rid err)
    have "set ((calls conn)[t := Returned (Some err)])
            \<subseteq> insert (Returned (Some err)) (set (calls conn))"
      by (rule set_update_subset_insert)
    with assms(2) Unregister show ?thesis by (auto simp: socketInv_def)
  next
    case (FireTimer t)
    then have "quieter conn conn'" by (simp add: quieter_def)
    with q show ?thesis by blast
  next
    case (DoExpire t)
    then have "quieter conn conn'" by (simp add: quieter_def doExpire_def expire_def Let_def)
    with q show ?thesis by blast
  next
    case SendDown
    then have "quieter conn conn'" by (simp add: quieter_def)
    with q show ?thesis by blast
  next
    case SendUp
    with assms(2) have "ws conn \<noteq> None" by (simp add: socketInv_def IsDown_def)
    with SendUp show ?thesis by (simp add: socketInv_def)
  next
    case (SendWrite b w e c)
    from SendWrite(3) have c: "ws c = ws conn" "connectionStatus c = connectionStatus conn"
      by (cases rule: writeLocked_Ok_cases; simp)+
    from SendWrite(3) have "ws conn \<noteq> None" by (cases rule: writeLocked_Ok_cases) simp_all
    with c SendWrite(4) show ?thesis by (simp add: socketInv_def)
  next
    case (Receive m ms)
    then have "quieter conn conn'" by (simp add: quieter_def)
    with q show ?thesis by blast
  qed
  then show "socketInv conn'" and "ws conn \<noteq> None \<longrightarrow> ws conn' \<noteq> None"
    and "connectionStatus conn \<noteq> Connected \<longrightarrow> connectionStatus conn' = Connected \<longrightarrow>
           a = FinishConnect \<and> ws conn \<noteq> None"
    by blast+
qed

lemma NewWsConn_initial:
  assumes "NewWsConn c urlOk pemOk = Inr conn"
  shows "connectionStatus conn = Disconnected \<and> ws conn = None"
  using assms by (auto simp: NewWsConn_def split: if_splits)

lemma NewWsConn_socketInv:
  assumes "NewWsConn c urlOk pemOk = Inr conn"
  shows "socketInv conn"
  using assms by (auto simp: NewWsConn_def socketInv_def split: if_splits)

lemma reach_socketInv: "reach c conn \<Longrightarrow> socketInv conn"
proof (induction rule: reach.induct)
  case (reach_new urlOk pemOk conn)
  then show ?case by (rule NewWsConn_socketInv)
next
  case (reach_step conn a conn')
  then show ?case using step_socket(1) by blast
qed

text \<open>
  C10.  In every state a connection can reach, the states between the install of a socket
  and the status write of the same \<open>connect\<close> among them, a status of Connected implies
  that a socket is installed.  A step that makes the status Connected is the second part
  of a \<open>connect\<close>, and it starts from a state with a socket; no step resets an installed
  socket to nil; a new connection has status Disconnected and no socket.  So \<open>SendRaw\<close>
  never dereferences a nil socket: not when it runs in one piece, and not in its write
  under the socket lock when other goroutines have run since its status test found
  Connected.
\<close>

theorem connected_implies_socket:
  assumes "reach c conn"
  shows "(connectionStatus conn = Connected \<longrightarrow> ws conn \<noteq> None) \<and>
         SendRaw w b conn \<noteq> Panicked NilDereference \<and>
         ((0 < pendingWrites conn \<or> (\<exists>pc \<in> set (calls conn). passedTest pc)) \<longrightarrow>
            writeLocked w b conn \<noteq> Panicked NilDereference) \<and>
         (\<forall>a conn'. step a conn = Some conn' \<longrightarrow>
            connectionStatus conn \<noteq> Connected \<longrightarrow> connectionStatus conn' = Connected \<longrightarrow>
            a = FinishConnect \<and> ws conn \<noteq> None) \<and>
         (\<forall>a conn'. step a conn = Some conn' \<longrightarrow> ws conn \<noteq> None \<longrightarrow> ws conn' \<noteq> None) \<and>
         (\<forall>urlOk pemOk conn0. NewWsConn c urlOk pemOk = Inr conn0 \<longrightarrow>
            connectionStatus conn0 = Disconnected \<and> ws conn0 = None)"
proof -
  have i: "socketInv conn" using assms by (rule reach_socketInv)
  then have 1: "connectionStatus conn = Connected \<longrightarrow> ws conn \<noteq> None"
    by (simp add: socketInv_def)
  from i have 2: "SendRaw w b conn \<noteq> Panicked NilDereference"
    by (auto simp: SendRaw_def socketInv_def IsDown_def split: option.splits write_outcome.splits)
  from i have 3: "(0 < pendingWrites conn \<or> (\<exists>pc \<in> set (calls conn). passedTest pc)) \<longrightarrow>
            writeLocked w b conn \<noteq> Panicked NilDereference"
    by (auto simp: writeLocked_def socketInv_def split: option.splits write_outcome.splits)
  from 1 2 3 step_socket(2,3)[OF _ i] NewWsConn_initial show ?thesis
    by blast
qed

lemma reach_run:
  assumes "reach c conn" and "run as conn = Some conn'"
  shows "reach c conn'"
  using assms
proof (induction as arbitrary: conn)
  case Nil
  then show ?case by simp
next
  case (Cons a as)
  then show ?case
    by (auto split: option.splits intro: reach_step)
qed

lemma run_after: "run as conn \<noteq> None \<Longrightarrow> run as conn = Some (after as conn)"
  by (auto simp: after_def)

lemma reach_newConn: "reach exampleCfg newConn"
  by (rule reach_new[of _ True True])
     (simp add: NewWsConn_def newConn_def exampleCfg_def Second_def)

lemma step_installedConn: "step (CallConnect (DialOk 1 None)) newConn = Some installedConn"
  by (simp add: installSocket_def newConn_def installedConn_def)

lemma step_connectedConn: "step FinishConnect installedConn = Some connectedConn"
  by (simp add: startReader_def startTasks_def setConnectionStatus_def emit_def Let_def
      newConn_def exampleCfg_def installedConn_def connectedConn_def)

lemma reach_installedConn: "reach exampleCfg installedConn"
  using reach_newConn step_installedConn by (rule reach_step)

lemma reach_connectedConn: "reach exampleCfg connectedConn"
  using reach_installedConn step_connectedConn by (rule reach_step)

theorem connected_implies_socket_witness:
  "reach exampleCfg installedConn \<and> ws installedConn = Some 1 \<and>
   connectionStatus installedConn = Disconnected \<and>
   step FinishConnect installedConn = Some connectedConn \<and>
   connectionStatus connectedConn = Connected \<and> ws connectedConn = Some 1 \<and>
   SendRaw WriteOk ''{}'' connectedConn = Ok (None, emit (Wrote 1 ''{}'') connectedConn)"
  using connected_implies_socket[OF reach_installedConn, of WriteOk "''{}''"]
    reach_installedConn step_connectedConn
  by (simp add: installedConn_def connectedConn_def newConn_def SendRaw_def IsDown_def)

subsection \<open>The registry stays well formed\<close>

lemma respHandlers_drainHandlers:
  "respHandlers (drainHandlers hs conn) =
     filter (\<lambda>kh. fst kh \<notin> fst ` set hs) (respHandlers conn)"
proof (induction hs conn rule: drainHandlers.induct)
  case (1 conn)
  then show ?case by simp
next
  case (2 rid h hs conn)
  have "filter (\<lambda>kh. fst kh \<notin> fst ` set hs) (AList.delete rid (respHandlers conn)) =
        filter (\<lambda>kh. fst kh \<notin> fst ` set ((rid, h) # hs)) (respHandlers conn)"
    by (induction "respHandlers conn") (auto simp: AList.delete_eq case_prod_beta intro: filter_cong)
  with 2 show ?case by (simp add: emit_def)
qed

lemma respHandlers_drained [simp]:
  "respHandlers (drainHandlers (respHandlers conn) c) =
     filter (\<lambda>kh. fst kh \<notin> fst ` set (respHandlers conn)) (respHandlers c)"
  by (rule respHandlers_drainHandlers)

lemma outcomeEvents_drainHandlers:
  "outcomeEvents (drainHandlers hs conn) = outcomeEvents conn @ map (\<lambda>kh. RanAbort (snd kh)) hs"
  by (induction hs conn rule: drainHandlers.induct) simp_all

lemma ids_simps [simp]:
  "ids (emit ev conn) = ids conn"
  "ids (conn\<lparr>respHandlers := a4\<rparr>) = ids conn"
  "ids (conn\<lparr>calls := b8\<rparr>) = ids conn"
  "ids (conn\<lparr>readChClosed := a6\<rparr>) = ids conn"
  "ids (conn\<lparr>watcher := b5\<rparr>) = ids conn"
  "ids (conn\<lparr>wg := b1\<rparr>) = ids conn"
  "ids (conn\<lparr>trace := b9\<rparr>) = ids conn"
  "ids (setConnectionStatus st conn) = ids conn"
  "ids (close sock conn) = ids conn"
  "ids (logReq rid f expireTime expireF conn) = ids conn @ [rid]"
  by (simp_all add: ids_def emit_def setConnectionStatus_def close_def logReq_def Let_def)

lemma ids_drainHandlers [simp]: "ids (drainHandlers hs conn) = ids conn"
  by (induction hs conn rule: drainHandlers.induct) simp_all

lemma ids_timer_state [simp]:
  "ids (conn\<lparr>timers := (timers conn)[t := (timers conn ! t)\<lparr>tmState := st\<rparr>]\<rparr>) = ids conn"
  by (cases "t < length (timers conn)")
     (simp_all add: ids_def map_update list_eq_iff_nth_eq nth_list_update)

lemma doExpire_eq:
  "doExpire t conn =
     (if map_of (respHandlers conn) (tmID (timers conn ! t)) \<noteq> None
      then emit (RanExpire t (tmExpire (timers conn ! t)))
             (conn\<lparr>respHandlers := AList.delete (tmID (timers conn ! t)) (respHandlers conn)\<rparr>)
      else conn\<lparr>respHandlers := AList.delete (tmID (timers conn ! t)) (respHandlers conn)\<rparr>)"
  by (simp add: doExpire_def expire_def Let_def)

lemma wellFormed_shrink:
  assumes "wellFormed conn"
    and "ids conn' = ids conn" and "length (calls conn') = length (calls conn)"
    and "\<And>t. t < length (calls conn) \<Longrightarrow> callOk (ids conn ! t) (calls conn ! t) \<Longrightarrow>
            callOk (ids conn ! t) (calls conn' ! t)"
    and "distinct (map fst (respHandlers conn'))"
    and "\<And>k h. map_of (respHandlers conn') k = Some h \<Longrightarrow> map_of (respHandlers conn) k = Some h"
    and "\<And>ev. ev \<in> set (outcomeEvents conn') \<Longrightarrow>
            ev \<in> set (outcomeEvents conn) \<or> eventOk (ids conn) ev"
  shows "wellFormed conn'"
proof -
  have 1: "length (calls conn') = length (ids conn')"
    using assms(1-3) by (simp add: wellFormed_def)
  have 2: "expiration h < length (ids conn') \<and> ids conn' ! expiration h = k"
    if "map_of (respHandlers conn') k = Some h" for k h
  proof -
    from that have "map_of (respHandlers conn) k = Some h" by (rule assms(6))
    with assms(1,2) show ?thesis by (simp add: wellFormed_def)
  qed
  have 3: "callOk (ids conn' ! t) (calls conn' ! t)" if "t < length (ids conn')" for t
  proof -
    from that assms(1,2) have "t < length (calls conn)" "callOk (ids conn ! t) (calls conn ! t)"
      by (simp_all add: wellFormed_def)
    with assms(4)[of t] assms(2) show ?thesis by simp
  qed
  have 4: "eventOk (ids conn') ev" if "ev \<in> set (outcomeEvents conn')" for ev
  proof -
    from that have "ev \<in> set (outcomeEvents conn) \<or> eventOk (ids conn) ev" by (rule assms(7))
    with assms(1,2) show ?thesis by (auto simp: wellFormed_def)
  qed
  show ?thesis
    unfolding wellFormed_def using 1 2 3 4 assms(5) by blast
qed


lemma map_of_delete_Some:
  "map_of (AList.delete x al) k = Some v \<Longrightarrow> map_of al k = Some v"
  by (simp add: delete_conv' split: if_splits)

lemma wellFormed_same:
  assumes "wellFormed a" and "regView b = regView a"
  shows "wellFormed b"
  using wellFormed_regView[OF assms(2)] assms(1) by blast

lemma read_wellFormed:
  assumes "read r conn = Ok conn'" and "wellFormed conn"
  shows "wellFormed conn'"
  using assms(1)
proof (cases rule: read_Ok_cases)
  case exit
  then have "regView conn' = regView conn" by (simp add: regView_eq exitReader_def outcomeEvents_def)
  with assms(2) show ?thesis by (rule wellFormed_same)
next
  case (decode err)
  then have "regView conn' = regView conn" by (simp add: regView_eq)
  with assms(2) show ?thesis by (rule wellFormed_same)
next
  case (error err c)
  then have "regView conn' = regView conn"
    using regView_handleReadError[of err conn c] by (simp add: regView_eq exitReader_def outcomeEvents_def)
  with assms(2) show ?thesis by (rule wellFormed_same)
next
  case (nohandler msg)
  then have "regView conn' = regView conn" by (simp add: regView_eq)
  with assms(2) show ?thesis by (rule wellFormed_same)
next
  case (callback msg h)
  show ?thesis
    by (rule wellFormed_callback[OF assms(2) callback(4) callback(3)]) (simp_all add: callback(5))
next
  case (deliver msg)
  then have "regView conn' = regView conn" by (simp add: regView_eq)
  with assms(2) show ?thesis by (rule wellFormed_same)
qed

lemma drained_wellFormed:
  assumes "wellFormed conn"
    and "conn' = (emit ReadChClosed ((drainHandlers (respHandlers conn) conn)\<lparr>readChClosed := True\<rparr>))
                   \<lparr>watcher := Finished, wg := wg conn - 1\<rparr>"
  shows "wellFormed conn'"
proof -
  have r: "respHandlers conn' = []"
    by (simp add: assms(2) filter_empty_conv)
  show ?thesis
  proof (rule wellFormed_shrink[OF assms(1)])
    show "ids conn' = ids conn" by (simp add: assms(2))
    show "length (calls conn') = length (calls conn)" by (simp add: assms(2))
    show "distinct (map fst (respHandlers conn'))" by (simp add: r)
  next
    fix t assume "callOk (ids conn ! t) (calls conn ! t)"
    then show "callOk (ids conn ! t) (calls conn' ! t)" by (simp add: assms(2))
  next
    fix k h assume "map_of (respHandlers conn') k = Some h"
    then show "map_of (respHandlers conn) k = Some h" by (simp add: r)
  next
    fix ev assume "ev \<in> set (outcomeEvents conn')"
    then have "ev \<in> set (outcomeEvents conn) \<or> (\<exists>kh \<in> set (respHandlers conn). ev = RanAbort (snd kh))"
      by (auto simp: assms(2) outcomeEvents_drainHandlers)
    moreover have "eventOk (ids conn) (RanAbort (snd kh))" if "kh \<in> set (respHandlers conn)" for kh
    proof -
      from assms(1) have "distinct (map fst (respHandlers conn))" by (simp add: wellFormed_def)
      with that have "map_of (respHandlers conn) (fst kh) = Some (snd kh)" by simp
      with assms(1) have "expiration (snd kh) < length (ids conn)"
        unfolding wellFormed_def by blast
      then show ?thesis by simp
    qed
    ultimately show "ev \<in> set (outcomeEvents conn) \<or> eventOk (ids conn) ev" by auto
  qed
qed

lemma wellFormed_calls_update:
  assumes "wellFormed conn" and "regView c = regView conn" and "t < length (calls conn)"
    and "callOk (ids conn ! t) pc"
  shows "wellFormed (c\<lparr>calls := (calls conn)[t := pc]\<rparr>)"
proof (rule wellFormed_shrink[OF assms(1)])
  let ?c' = "c\<lparr>calls := (calls conn)[t := pc]\<rparr>"
  show "ids ?c' = ids conn" using assms(2) by (simp add: regView_eq ids_def)
  show "length (calls ?c') = length (calls conn)" by simp
  show "distinct (map fst (respHandlers ?c'))"
    using assms(1,2) by (simp add: regView_eq wellFormed_def)
  show "callOk (ids conn ! u) (calls ?c' ! u)"
    if "u < length (calls conn)" "callOk (ids conn ! u) (calls conn ! u)" for u
    using that assms(4) by (cases "u = t") simp_all
  show "map_of (respHandlers conn) k = Some h" if "map_of (respHandlers ?c') k = Some h" for k h
    using that assms(2) by (simp add: regView_eq)
  show "ev \<in> set (outcomeEvents conn) \<or> eventOk (ids conn) ev"
    if "ev \<in> set (outcomeEvents ?c')" for ev
    using that assms(2) by (simp add: regView_eq)
qed

lemma step_wellFormed:
  assumes "step a conn = Some conn'" and "wellFormed conn"
  shows "wellFormed conn'"
  using assms(1)
proof (cases rule: step_cases)
  case (Install sock)
  then have "regView conn' = regView conn" by (simp add: regView_eq)
  with assms(2) show ?thesis by (rule wellFormed_same)
next
  case (Connect d r)
  from Connect(4) have "regView conn' = regView conn" by (rule regView_Connect)
  with assms(2) show ?thesis by (rule wellFormed_same)
next
  case Finish
  then have "regView conn' = regView conn" by (simp add: regView_eq)
  with assms(2) show ?thesis by (rule wellFormed_same)
next
  case FinishKeepAlive
  then have "regView conn' = regView conn" by (simp add: regView_eq)
  with assms(2) show ?thesis by (rule wellFormed_same)
next
  case Stop
  then have "regView conn' = regView conn" by (simp add: regView_eq)
  with assms(2) show ?thesis by (rule wellFormed_same)
next
  case WatcherStatus
  then have "regView conn' = regView conn" by (simp add: regView_eq)
  with assms(2) show ?thesis by (rule wellFormed_same)
next
  case WatcherSocket
  then have "regView conn' = regView conn" by (simp add: regView_eq)
  with assms(2) show ?thesis by (rule wellFormed_same)
next
  case WatcherDrain
  with assms(2) show ?thesis by (simp add: drained_wellFormed)
next
  case (KeepAliveInstall sock)
  then have "regView conn' = regView conn" by (simp add: regView_eq)
  with assms(2) show ?thesis by (rule wellFormed_same)
next
  case KeepAliveQuit
  then have "regView conn' = regView conn" by (simp add: regView_eq)
  with assms(2) show ?thesis by (rule wellFormed_same)
next
  case (KeepAliveDrained d)
  then have "regView conn' = regView conn" by (simp add: regView_eq)
  with assms(2) show ?thesis by (rule wellFormed_same)
next
  case (KeepAliveFailed d err c1)
  from KeepAliveFailed(7) have "c1 = snd (connect d (emit (Logged ''Attempting to reconnect'')
                   (conn\<lparr>reconnectCh := reconnectCh conn - 1\<rparr>)))" by simp
  then have "regView c1 = regView conn" by (simp add: regView_eq)
  then have "regView conn' = regView conn"
    by (simp add: KeepAliveFailed(8) regView_eq Let_def)
  with assms(2) show ?thesis by (rule wellFormed_same)
next
  case (Read r)
  with assms(2) show ?thesis by (simp add: read_wellFormed)
next
  case (ReadRaw r)
  from ReadRaw(4) have "regView conn' = regView conn" by (rule regView_readRaw)
  with assms(2) show ?thesis by (rule wellFormed_same)
next
  case ReconnectTimer
  then have "regView conn' = regView conn" by (simp add: regView_eq)
  with assms(2) show ?thesis by (rule wellFormed_same)
next
  case (RequestRaw rid rawMsg f expireTime expireF)
  let ?h = "\<lparr>expiration = length (timers conn), hf = f, abort = expireF\<rparr>"
  have r: "respHandlers conn' = AList.update rid ?h (respHandlers conn)"
    "ids conn' = ids conn @ [rid]" "calls conn' = calls conn @ [InFlight rid rawMsg]"
    "outcomeEvents conn' = outcomeEvents conn"
    by (simp_all add: RequestRaw(2)) (simp add: logReq_def Let_def)
  have len: "length (ids conn) = length (timers conn)" by (simp add: ids_def)
  have wf: "length (calls conn) = length (ids conn)" "distinct (map fst (respHandlers conn))"
    "\<And>k h. map_of (respHandlers conn) k = Some h \<Longrightarrow>
        expiration h < length (ids conn) \<and> ids conn ! expiration h = k"
    "\<And>t. t < length (ids conn) \<Longrightarrow> callOk (ids conn ! t) (calls conn ! t)"
    "\<And>ev. ev \<in> set (outcomeEvents conn) \<Longrightarrow> eventOk (ids conn) ev"
    using assms(2) unfolding wellFormed_def by blast+
  have 1: "length (calls conn') = length (ids conn')" by (simp add: r wf(1))
  have 2: "distinct (map fst (respHandlers conn'))" by (simp add: r wf(2) distinct_update)
  have 3: "expiration h < length (ids conn') \<and> ids conn' ! expiration h = k"
    if "map_of (respHandlers conn') k = Some h" for k h
  proof (cases "k = rid")
    case True
    with that have "h = ?h" by (simp add: r update_conv')
    with True show ?thesis by (simp add: r len[symmetric])
  next
    case False
    with that have "map_of (respHandlers conn) k = Some h" by (simp add: r update_conv')
    from wf(3)[OF this] show ?thesis by (simp add: r nth_append)
  qed
  have 4: "callOk (ids conn' ! t) (calls conn' ! t)" if "t < length (ids conn')" for t
  proof (cases "t < length (ids conn)")
    case True
    with wf(4)[OF True] show ?thesis by (simp add: r nth_append wf(1))
  next
    case False
    with that have "t = length (ids conn)" by (simp add: r)
    then show ?thesis by (simp add: r nth_append wf(1))
  qed
  have 5: "eventOk (ids conn') ev" if "ev \<in> set (outcomeEvents conn')" for ev
    using that wf(5)[of ev] by (simp add: r eventOk_mono)
  show ?thesis
    unfolding wellFormed_def using 1 2 3 4 5 by blast
next
  case (CheckDown t rid rawMsg)
  have "callOk (ids conn ! t) (SendFailed rid brokenConnection)"
    using assms(2) CheckDown(2,3) by (auto simp: wellFormed_def)
  from wellFormed_calls_update[OF assms(2) refl CheckDown(2) this] show ?thesis
    by (simp add: CheckDown(5))
next
  case (CheckUp t rid rawMsg)
  have "callOk (ids conn ! t) (Checked rid rawMsg)"
    using assms(2) CheckUp(2,3) by (auto simp: wellFormed_def)
  from wellFormed_calls_update[OF assms(2) refl CheckUp(2) this] show ?thesis
    by (simp add: CheckUp(5))
next
  case (Write t w rid rawMsg e c)
  have v: "regView c = regView conn" using Write(4) by (rule regView_writeLocked)
  have ok: "callOk (ids conn ! t) (case e of None \<Rightarrow> Returned None | Some err \<Rightarrow> SendFailed rid err)"
    using assms(2) Write(2,3) by (auto simp: wellFormed_def split: option.splits)
  from wellFormed_calls_update[OF assms(2) v Write(2) ok] show ?thesis
    by (simp add: Write(5))
next
  case (Unregister t rid err)
  let ?c = "snd (respHandler rid conn)"
  have c: "ids ?c = ids conn" "outcomeEvents ?c = outcomeEvents conn"
    "respHandlers ?c = AList.delete rid (respHandlers conn)"
    by (cases "map_of (respHandlers conn) rid";
        simp add: respHandler_None respHandler_Some delete_id map_of_eq_None_iff)+
  show ?thesis
  proof (rule wellFormed_shrink[OF assms(2)])
    show "ids conn' = ids conn" by (simp add: Unregister(4) c)
    show "length (calls conn') = length (calls conn)" by (simp add: Unregister(4))
    show "distinct (map fst (respHandlers conn'))"
      using assms(2) by (simp add: Unregister(4) c wellFormed_def distinct_delete)
  next
    fix u assume "u < length (calls conn)" "callOk (ids conn ! u) (calls conn ! u)"
    then show "callOk (ids conn ! u) (calls conn' ! u)"
      by (cases "u = t") (simp_all add: Unregister(4))
  next
    fix k h assume "map_of (respHandlers conn') k = Some h"
    then show "map_of (respHandlers conn) k = Some h"
      by (auto simp: Unregister(4) c dest: map_of_delete_Some)
  next
    fix ev assume "ev \<in> set (outcomeEvents conn')"
    then show "ev \<in> set (outcomeEvents conn) \<or> eventOk (ids conn) ev"
      by (simp add: Unregister(4) c)
  qed
next
  case (FireTimer t)
  have "ids conn' = ids conn"
    by (simp add: FireTimer(4))
  with assms(2) show ?thesis
    by (simp add: wellFormed_def FireTimer(4))
next
  case (DoExpire t)
  let ?c = "conn\<lparr>timers := (timers conn)[t := (timers conn ! t)\<lparr>tmState := Expired\<rparr>]\<rparr>"
  have i: "ids ?c = ids conn" by simp
  have lt: "t < length (ids conn)" using DoExpire(2) by (simp add: ids_def)
  show ?thesis
  proof (rule wellFormed_shrink[OF assms(2)])
    show "ids conn' = ids conn" using i by (simp add: DoExpire(4) doExpire_eq ids_def)
    show "length (calls conn') = length (calls conn)" by (simp add: DoExpire(4) doExpire_eq)
    show "distinct (map fst (respHandlers conn'))"
      using assms(2) by (simp add: DoExpire(4) doExpire_eq wellFormed_def distinct_delete)
  next
    fix u assume "callOk (ids conn ! u) (calls conn ! u)"
    then show "callOk (ids conn ! u) (calls conn' ! u)" by (simp add: DoExpire(4) doExpire_eq)
  next
    fix k h assume "map_of (respHandlers conn') k = Some h"
    then show "map_of (respHandlers conn) k = Some h"
      by (auto simp: DoExpire(4) doExpire_eq split: if_splits dest: map_of_delete_Some)
  next
    fix ev assume "ev \<in> set (outcomeEvents conn')"
    then show "ev \<in> set (outcomeEvents conn) \<or> eventOk (ids conn) ev"
      using lt by (auto simp: DoExpire(4) doExpire_eq split: if_splits)
  qed
next
  case SendDown
  with assms(2) show ?thesis by simp
next
  case SendUp
  then have "regView conn' = regView conn" by (simp add: regView_eq)
  with assms(2) show ?thesis by (rule wellFormed_same)
next
  case (SendWrite b w e c)
  from SendWrite(3) have "regView c = regView conn" by (rule regView_writeLocked)
  then have "regView conn' = regView conn" by (simp add: SendWrite(4) regView_eq)
  with assms(2) show ?thesis by (rule wellFormed_same)
next
  case (Receive m ms)
  then have "regView conn' = regView conn" by (simp add: regView_eq)
  with assms(2) show ?thesis by (rule wellFormed_same)
qed

lemma NewWsConn_wellFormed:
  assumes "NewWsConn c urlOk pemOk = Inr conn"
  shows "wellFormed conn"
  using assms by (auto simp: NewWsConn_def wellFormed_def ids_def outcomeEvents_def split: if_splits)

lemma reach_wellFormed: "reach c conn \<Longrightarrow> wellFormed conn"
proof (induction rule: reach.induct)
  case (reach_new urlOk pemOk conn)
  then show ?case by (rule NewWsConn_wellFormed)
next
  case (reach_step conn a conn')
  then show ?case using step_wellFormed by blast
qed

subsection \<open>A callback gets the response to its request\<close>

lemma mem_outcomeEvents:
  "isOutcome ev \<Longrightarrow> ev \<in> set (outcomeEvents conn) \<longleftrightarrow> ev \<in> set (trace conn)"
  by (simp add: outcomeEvents_def)

lemma wellFormed_callback_event:
  assumes "wellFormed conn" and "RanCallback h msg \<in> set (trace conn)"
  shows "msgType msg = Response \<and> expiration h < length (timers conn) \<and>
         tmID (timers conn ! expiration h) = msgID msg"
proof -
  from assms(2) have "RanCallback h msg \<in> set (outcomeEvents conn)"
    by (simp add: mem_outcomeEvents)
  with assms(1) have "eventOk (ids conn) (RanCallback h msg)"
    unfolding wellFormed_def by blast
  then show ?thesis by (auto simp: ids_def)
qed

lemma read_callback_source:
  assumes "read r conn = Ok conn'" and "RanCallback h msg \<in> set (trace conn')"
    and "RanCallback h msg \<notin> set (trace conn)"
  shows "r = Received msg \<and> msgType msg = Response \<and>
         map_of (respHandlers conn) (msgID msg) = Some h"
  using assms(1)
proof (cases rule: read_Ok_cases)
  case exit
  with assms(2,3) show ?thesis by (simp add: exitReader_def)
next
  case (decode err)
  with assms(2,3) show ?thesis by (simp add: emit_def)
next
  case (error err c)
  from regView_handleReadError[OF error(2)] have "outcomeEvents c = outcomeEvents conn"
    by (simp add: regView_eq)
  then have "RanCallback h msg \<in> set (trace c) \<longleftrightarrow> RanCallback h msg \<in> set (trace conn)"
    using mem_outcomeEvents[of "RanCallback h msg" c] mem_outcomeEvents[of "RanCallback h msg" conn]
    by simp
  with assms(2,3) error(3) show ?thesis by (simp add: exitReader_def)
next
  case (nohandler m)
  with assms(2,3) show ?thesis by (simp add: emit_def)
next
  case (callback m h')
  from assms(2,3) have "RanCallback h msg = RanCallback h' m"
    by (simp add: callback(5) emit_def stopTimer_def split: if_splits)
  with callback show ?thesis by simp
next
  case (deliver m)
  with assms(2,3) show ?thesis by simp
qed

lemma read_no_handler:
  assumes "\<not> ctxDone conn" and "msgType msg = Response"
    and "map_of (respHandlers conn) (msgID msg) = None"
  shows "read (Received msg) conn = Ok (emit (Logged ''No handler found for response'') conn)"
  using assms by (simp add: read_def respHandler_None)

text \<open>
  C7.  In every state a connection can reach, a callback that has run was given a message
  of type Response whose ID is the request ID its handler was registered under: the
  handler's expiry timer, made by the same \<open>logReq\<close>, carries that ID, and at the pass of
  the read loop that ran the callback the handler was the registry's entry for the ID of
  the message.  A response that reaches the dispatch of the read loop (the context is not
  cancelled) and whose ID has no entry in the registry is logged and dropped: the pass
  returns the connection with only the log line added, so no callback is run.
\<close>

theorem response_callback_id:
  assumes "reach c conn"
  shows "(\<forall>h msg. RanCallback h msg \<in> set (trace conn) \<longrightarrow>
            msgType msg = Response \<and> expiration h < length (timers conn) \<and>
            tmID (timers conn ! expiration h) = msgID msg) \<and>
         (\<forall>r conn' h msg.
            read r conn = Ok conn' \<and> RanCallback h msg \<in> set (trace conn') \<and>
            RanCallback h msg \<notin> set (trace conn) \<longrightarrow>
            r = Received msg \<and> msgType msg = Response \<and>
            map_of (respHandlers conn) (msgID msg) = Some h) \<and>
         (\<forall>msg. \<not> ctxDone conn \<and> msgType msg = Response \<and>
            map_of (respHandlers conn) (msgID msg) = None \<longrightarrow>
            read (Received msg) conn =
              Ok (emit (Logged ''No handler found for response'') conn))"
proof -
  have "wellFormed conn" using assms by (rule reach_wellFormed)
  then show ?thesis
    using wellFormed_callback_event read_callback_source read_no_handler by blast
qed

lemma sentConn_eq:
  "sentConn = connectedConn\<lparr>
     respHandlers := [(7, \<lparr>expiration = 0, hf = 1, abort = 2\<rparr>)],
     timers := [\<lparr>tmState = Armed, tmAfter = Minute, tmID = 7, tmExpire = 2\<rparr>],
     calls := [Returned None],
     trace := [ConnectEvent Connected, Wrote 1 ''req'']\<rparr>"
  by (simp add: sentConn_def after_def connectedConn_def newConn_def logReq_def writeLocked_def
      IsDown_def emit_def Let_def)

lemma run_sentConn:
  "run [CallRequestRaw 7 ''req'' 1 Minute 2, CallCheckStatus 0, CallWrite 0 WriteOk] connectedConn
     = Some sentConn"
  unfolding sentConn_def
  by (rule run_after)
     (simp add: connectedConn_def newConn_def logReq_def writeLocked_def IsDown_def emit_def Let_def)

lemma reach_sentConn: "reach exampleCfg sentConn"
  using reach_connectedConn run_sentConn by (rule reach_run)

lemma answeredConn_eq:
  "answeredConn = sentConn\<lparr>
     respHandlers := [],
     timers := [\<lparr>tmState = Stopped, tmAfter = Minute, tmID = 7, tmExpire = 2\<rparr>],
     trace := [ConnectEvent Connected, Wrote 1 ''req'', TimerStop 0,
               RanCallback \<lparr>expiration = 0, hf = 1, abort = 2\<rparr> (exampleMsg Response 7)]\<rparr>"
  by (simp add: answeredConn_def after_def sentConn_eq connectedConn_def newConn_def
      exampleCfg_def exampleMsg_def read_def respHandler_def stopTimer_def emit_def)

lemma run_answeredConn:
  "run [RunRead (Received (exampleMsg Response 7))] sentConn = Some answeredConn"
  unfolding answeredConn_def
  by (rule run_after)
     (simp add: sentConn_eq connectedConn_def newConn_def
      exampleCfg_def exampleMsg_def read_def respHandler_def stopTimer_def emit_def)

lemma reach_answeredConn: "reach exampleCfg answeredConn"
  using reach_sentConn run_answeredConn by (rule reach_run)

theorem response_callback_id_witness:
  "reach exampleCfg answeredConn \<and>
   RanCallback \<lparr>expiration = 0, hf = 1, abort = 2\<rparr> (exampleMsg Response 7)
     \<in> set (trace answeredConn) \<and>
   tmID (timers answeredConn ! 0) = 7 \<and>
   \<not> ctxDone answeredConn \<and> map_of (respHandlers answeredConn) 7 = None \<and>
   read (Received (exampleMsg Response 7)) answeredConn =
     Ok (emit (Logged ''No handler found for response'') answeredConn)"
  using response_callback_id[OF reach_answeredConn] reach_answeredConn
  by (simp add: answeredConn_eq sentConn_eq connectedConn_def newConn_def exampleMsg_def)

subsection \<open>The reconnect trigger is sent without waiting\<close>

lemma triggers_same:
  assumes "readers conn' = readers conn" and "reconnectCh conn' = reconnectCh conn"
    and "reconnectTimers conn' = reconnectTimers conn" and "connecting conn' = connecting conn"
    and "cancelSet conn' = cancelSet conn"
  shows "triggerInv conn \<Longrightarrow> triggerInv conn'"
  using assms by (simp add: triggerInv_def triggers_def)

lemma triggers_handleReadError:
  assumes "handleReadError err conn = Ok conn'"
  shows "readers conn' = readers conn" and "reconnectCh conn' \<le> reconnectCh conn + 1"
    and "reconnectTimers conn' = reconnectTimers conn" and "connecting conn' = connecting conn"
    and "cancelSet conn' = cancelSet conn"
  using assms by (cases rule: handleReadError_Ok; simp)+

lemma triggers_read:
  assumes "read r conn = Ok conn'" and "0 < readers conn" and "triggerInv conn"
  shows "triggerInv conn'"
  using assms(1)
proof (cases rule: read_Ok_cases)
  case exit
  with assms(2,3) show ?thesis by (simp add: triggerInv_def triggers_def exitReader_def)
next
  case (decode err)
  with assms(3) show ?thesis by (simp add: triggerInv_def triggers_def)
next
  case (error err c)
  from triggers_handleReadError[OF error(2)] error(3) assms(2,3) show ?thesis
    by (simp add: triggerInv_def triggers_def exitReader_def split: option.splits)
next
  case (nohandler msg)
  with assms(3) show ?thesis by (simp add: triggerInv_def triggers_def)
next
  case (callback msg h)
  with assms(3) show ?thesis by (simp add: triggerInv_def triggers_def)
next
  case (deliver msg)
  with assms(3) show ?thesis by (simp add: triggerInv_def triggers_def)
qed

lemma triggers_readRaw:
  assumes "readRaw r conn = Ok conn'" and "0 < readers conn" and "triggerInv conn"
  shows "triggerInv conn'"
  using assms(1)
proof (cases rule: readRaw_Ok_cases)
  case exit
  with assms(2,3) show ?thesis by (simp add: triggerInv_def triggers_def exitReader_def)
next
  case (error err c)
  from triggers_handleReadError[OF error(2)] error(3) assms(2,3) show ?thesis
    by (simp add: triggerInv_def triggers_def exitReader_def split: option.splits)
next
  case (handled b)
  with assms(3) show ?thesis by (simp add: triggerInv_def triggers_def)
qed

lemma triggers_connect_failed:
  assumes "dialFails d"
  shows "readers (snd (connect d conn)) = readers conn"
  using connect_failed_frame[OF assms] by simp

lemma triggers_Connect:
  assumes "Connect d conn = Ok (r, conn')" and "dialFails d" and "triggers conn = 0"
  shows "triggerInv conn'"
proof -
  let ?c0 = "conn\<lparr>cancelSet := True, ctxDone := False\<rparr>"
  have z: "triggers (snd (connect d ?c0)) = 0"
    using assms(3) triggers_connect_failed[OF assms(2), of ?c0] by (simp add: triggers_def)
  from assms(1) show ?thesis
  proof (cases rule: Connect_Ok_cases)
    case (hard err c1)
    from hard(1) have "c1 = snd (connect d ?c0)" by simp
    with z show ?thesis by (simp add: hard(6) triggerInv_def triggers_def)
  next
    case (soft err c1)
    from soft(1) have "c1 = snd (connect d ?c0)" by simp
    with z show ?thesis
      by (simp add: soft(4) triggerInv_def triggers_def afterFuncReconnect_def)
  next
    case (connected c1)
    from assms(2) have "\<exists>e. fst (connect d ?c0) = Some e" by (simp add: connect_fails_iff)
    with connected(1) show ?thesis by simp
  qed
qed

lemma step_triggerInv:
  assumes "step a conn = Some conn'" and "triggerInv conn"
  shows "triggerInv conn'"
  using assms(1)
proof (cases rule: step_cases)
  case (Install sock)
  with assms(2) show ?thesis by (simp add: triggerInv_def triggers_def)
next
  case (Connect d r)
  from Connect(3) assms(2) have "triggers conn = 0" by (simp add: triggerInv_def)
  with Connect(4,2) show ?thesis by (rule triggers_Connect)
next
  case Finish
  with assms(2) show ?thesis by (simp add: triggerInv_def triggers_def)
next
  case FinishKeepAlive
  with assms(2) show ?thesis by (simp add: triggerInv_def triggers_def)
next
  case Stop
  with assms(2) show ?thesis by (simp add: triggerInv_def triggers_def)
next
  case WatcherStatus
  with assms(2) show ?thesis by (simp add: triggerInv_def triggers_def)
next
  case WatcherSocket
  with assms(2) show ?thesis by (simp add: triggerInv_def triggers_def)
next
  case WatcherDrain
  with assms(2) show ?thesis by (simp add: triggerInv_def triggers_def)
next
  case (KeepAliveInstall sock)
  with assms(2) show ?thesis by (simp add: triggerInv_def triggers_def)
next
  case KeepAliveQuit
  with assms(2) show ?thesis by (simp add: triggerInv_def triggers_def)
next
  case (KeepAliveDrained d)
  with assms(2) show ?thesis by (simp add: triggerInv_def triggers_def)
next
  case (KeepAliveFailed d err c1)
  let ?c0 = "emit (Logged ''Attempting to reconnect'') (conn\<lparr>reconnectCh := reconnectCh conn - 1\<rparr>)"
  from KeepAliveFailed(7) have c1: "c1 = snd (connect d ?c0)" by simp
  have "readers c1 = readers conn" "reconnectCh c1 = reconnectCh conn - 1"
    "reconnectTimers c1 = reconnectTimers conn" "connecting c1 = connecting conn"
    "cancelSet c1 = cancelSet conn"
    using triggers_connect_failed[OF KeepAliveFailed(2), of ?c0] by (simp_all add: c1)
  with assms(2) KeepAliveFailed(5) show ?thesis
    by (simp add: KeepAliveFailed(8) triggerInv_def triggers_def Let_def afterFuncReconnect_def)
next
  case (Read r)
  with assms(2) show ?thesis by (simp add: triggers_read)
next
  case (ReadRaw r)
  with assms(2) show ?thesis by (simp add: triggers_readRaw)
next
  case ReconnectTimer
  with assms(2) show ?thesis by (simp add: triggerInv_def triggers_def)
next
  case (RequestRaw rid rawMsg f expireTime expireF)
  with assms(2) show ?thesis by (simp add: triggerInv_def triggers_def)
next
  case (CheckDown t rid rawMsg)
  with assms(2) show ?thesis by (simp add: triggerInv_def triggers_def)
next
  case (CheckUp t rid rawMsg)
  with assms(2) show ?thesis by (simp add: triggerInv_def triggers_def)
next
  case (Write t w rid rawMsg e c)
  from Write(4) have "readers c = readers conn" "reconnectCh c = reconnectCh conn"
    "reconnectTimers c = reconnectTimers conn" "connecting c = connecting conn"
    "cancelSet c = cancelSet conn"
    by (cases rule: writeLocked_Ok_cases; simp)+
  with assms(2) show ?thesis by (simp add: Write(5) triggerInv_def triggers_def)
next
  case (Unregister t rid err)
  with assms(2) show ?thesis by (simp add: triggerInv_def triggers_def)
next
  case (FireTimer t)
  with assms(2) show ?thesis by (simp add: triggerInv_def triggers_def)
next
  case (DoExpire t)
  with assms(2) show ?thesis by (simp add: triggerInv_def triggers_def)
next
  case SendDown
  with assms(2) show ?thesis by simp
next
  case SendUp
  with assms(2) show ?thesis by (simp add: triggerInv_def triggers_def)
next
  case (SendWrite b w e c)
  from SendWrite(3) have "readers c = readers conn" "reconnectCh c = reconnectCh conn"
    "reconnectTimers c = reconnectTimers conn" "connecting c = connecting conn"
    "cancelSet c = cancelSet conn"
    by (cases rule: writeLocked_Ok_cases; simp)+
  with assms(2) show ?thesis by (simp add: SendWrite(4) triggerInv_def triggers_def)
next
  case (Receive m ms)
  with assms(2) show ?thesis by (simp add: triggerInv_def triggers_def)
qed

lemma NewWsConn_triggerInv:
  assumes "NewWsConn c urlOk pemOk = Inr conn"
  shows "triggerInv conn"
  using assms by (auto simp: NewWsConn_def triggerInv_def triggers_def split: if_splits)

lemma reach_triggerInv: "reach c conn \<Longrightarrow> triggerInv conn"
proof (induction rule: reach.induct)
  case (reach_new urlOk pemOk conn)
  then show ?case by (rule NewWsConn_triggerInv)
next
  case (reach_step conn a conn')
  then show ?case using step_triggerInv by blast
qed

text \<open>
  C6.  In every state a connection can reach, a read goroutine that classifies a read
  error does not wait: \<open>handleReadError\<close> returns, with the status set to Disconnected and,
  unless auto-reconnect is disabled, with its signal delivered to the capacity-1 trigger
  channel, which was empty.  It was empty because a connection has at most one source
  of triggers at a time (a read goroutine, a buffered trigger, a reconnect timer or a
  \<open>connect\<close> between its two parts): while a trigger is pending there is no reader to send
  another one, so the one slot of the channel is always enough.  The reconnect timer, the
  other sender, does not wait either.
\<close>

theorem trigger_without_waiting:
  assumes "reach c conn"
  shows "readers conn + reconnectCh conn + reconnectTimers conn \<le> 1 \<and>
     (0 < readers conn \<longrightarrow>
        reconnectCh conn = 0 \<and>
        (\<exists>conn'. handleReadError err conn = Ok conn' \<and>
           connectionStatus conn' = Disconnected \<and>
           reconnectCh conn' = (if DisableAutoReconnect (cfg conn) then 0 else 1) \<and>
           reconnectCh conn' \<le> reconnectChCap)) \<and>
     (0 < reconnectTimers conn \<longrightarrow> (\<exists>conn'. step FireReconnectTimer conn = Some conn'))"
proof -
  from assms have "triggerInv conn" by (rule reach_triggerInv)
  then have t: "readers conn + reconnectCh conn + reconnectTimers conn \<le> 1"
    by (simp add: triggerInv_def triggers_def)
  have r: "reconnectCh conn = 0 \<and>
        (\<exists>conn'. handleReadError err conn = Ok conn' \<and>
           connectionStatus conn' = Disconnected \<and>
           reconnectCh conn' = (if DisableAutoReconnect (cfg conn) then 0 else 1) \<and>
           reconnectCh conn' \<le> reconnectChCap)"
    if "0 < readers conn"
  proof -
    from t that have z: "reconnectCh conn = 0" by simp
    from handleReadError_result[of conn err] obtain c0 where
      "connectionStatus c0 = Disconnected" "reconnectCh c0 = reconnectCh conn"
      "handleReadError err conn =
          (if DisableAutoReconnect (cfg conn) then Ok c0
           else if reconnectCh conn = 0 then Ok (c0\<lparr>reconnectCh := 1\<rparr>)
           else Blocked c0)"
      by blast
    with z show ?thesis by (auto simp: reconnectChCap_def)
  qed
  have f: "\<exists>conn'. step FireReconnectTimer conn = Some conn'" if "0 < reconnectTimers conn"
    using t that by (simp add: sendReconnect_def reconnectChCap_def)
  from t r f show ?thesis by blast
qed

theorem trigger_without_waiting_witness:
  "reach exampleCfg connectedConn \<and> 0 < readers connectedConn \<and>
   \<not> DisableAutoReconnect (cfg connectedConn) \<and>
   (\<exists>conn'. handleReadError (plainError ''EOF'') connectedConn = Ok conn' \<and>
      connectionStatus conn' = Disconnected \<and> reconnectCh conn' = 1)"
proof -
  have 1: "0 < readers connectedConn" "\<not> DisableAutoReconnect (cfg connectedConn)"
    by (simp_all add: connectedConn_def newConn_def exampleCfg_def)
  from trigger_without_waiting[OF reach_connectedConn, of "plainError ''EOF''"] 1
  have "\<exists>conn'. handleReadError (plainError ''EOF'') connectedConn = Ok conn' \<and>
      connectionStatus conn' = Disconnected \<and> reconnectCh conn' = 1"
    by auto
  with 1 reach_connectedConn show ?thesis by blast
qed

subsection \<open>The inbound channel is closed once, after the cleanup\<close>

lemma control_emit [simp]:
  "control (emit ev conn) =
     control conn @ (if ev = Cancelled \<or> ev = ReadChClosed then [ev] else [])"
  by (simp add: control_def emit_def)

lemma control_upd [simp]:
  "control (conn\<lparr>cfg := a1\<rparr>) = control conn"
  "control (conn\<lparr>ws := a2\<rparr>) = control conn"
  "control (conn\<lparr>connectionStatus := a3\<rparr>) = control conn"
  "control (conn\<lparr>respHandlers := a4\<rparr>) = control conn"
  "control (conn\<lparr>readCh := a5\<rparr>) = control conn"
  "control (conn\<lparr>readChClosed := a6\<rparr>) = control conn"
  "control (conn\<lparr>reconnectCh := a7\<rparr>) = control conn"
  "control (conn\<lparr>cancelSet := a8\<rparr>) = control conn"
  "control (conn\<lparr>ctxDone := a9\<rparr>) = control conn"
  "control (conn\<lparr>wg := b1\<rparr>) = control conn"
  "control (conn\<lparr>readers := b2\<rparr>) = control conn"
  "control (conn\<lparr>keepAliveRunning := b3\<rparr>) = control conn"
  "control (conn\<lparr>rcInt := b4\<rparr>) = control conn"
  "control (conn\<lparr>watcher := b5\<rparr>) = control conn"
  "control (conn\<lparr>reconnectTimers := b6\<rparr>) = control conn"
  "control (conn\<lparr>timers := b7\<rparr>) = control conn"
  "control (conn\<lparr>calls := b8\<rparr>) = control conn"
  "control (conn\<lparr>connecting := c1\<rparr>) = control conn"
  "control (conn\<lparr>pendingWrites := c2\<rparr>) = control conn"
  by (simp_all add: control_def)

lemma control_basic [simp]:
  "control (setConnectionStatus st conn) = control conn"
  "control (close sock conn) = control conn"
  "control (cancel conn) = control conn @ [Cancelled]"
  "control (afterFuncReconnect d conn) = control conn"
  "control (exitReader conn) = control conn"
  "control (exitKeepAlive conn) = control conn"
  "control (startTasks conn) = control conn"
  "control (stopTimer t conn) = control conn"
  "control (logReq rid f expireTime expireF conn) = control conn"
  "control (doExpire t conn) = control conn"
  "control (snd (respHandler rid conn)) = control conn"
  "control (installSocket sock conn) = control conn"
  "control (startReader conn) = control conn"
  "control (reconnected conn) = control conn"
  "control (closeSocket conn) = control conn"
  by (simp_all add: setConnectionStatus_def close_def cancel_def afterFuncReconnect_def
      exitReader_def exitKeepAlive_def startTasks_def stopTimer_def logReq_def doExpire_eq
      respHandler_def installSocket_def startReader_def reconnected_def closeSocket_def Let_def
      split: option.splits)

lemma control_connect [simp]: "control (snd (connect d conn)) = control conn"
  by (cases d rule: dialFails.cases) (simp_all add: connect_def Let_def split: option.splits)

lemma control_drainHandlers [simp]: "control (drainHandlers hs conn) = control conn"
  by (induction hs conn rule: drainHandlers.induct) simp_all

lemma chanView_eq:
  "chanView a = chanView b \<longleftrightarrow> cancelSet a = cancelSet b \<and> ctxDone a = ctxDone b \<and>
     readChClosed a = readChClosed b \<and> watcher a = watcher b \<and>
     (connecting a = Some ByConnect) = (connecting b = Some ByConnect) \<and> control a = control b"
  by (auto simp: chanView_def)




lemma chanView_connect [simp]: "chanView (snd (connect d conn)) = chanView conn"
  by (simp add: chanView_eq)




lemma watcher_startTasks [simp]: "watcher (startTasks conn) = Waiting"
  by (simp add: startTasks_def Let_def)

lemma keepAliveRunning_startTasks [simp]:
  "keepAliveRunning (startTasks conn) = (\<not> DisableAutoReconnect (cfg conn) \<or> keepAliveRunning conn)"
  by (auto simp: startTasks_def Let_def)

lemma ctxDone_cancel [simp]: "ctxDone (cancel conn) = True"
  by (simp add: cancel_def emit_def)











lemma trace_stopTimer [simp]: "trace (stopTimer t conn) = trace conn @ [TimerStop t]"
  by (simp add: stopTimer_def emit_def)

lemma trace_emit [simp]: "trace (emit ev conn) = trace conn @ [ev]"
  by (simp add: emit_def)

lemma trace_close [simp]: "trace (close sock conn) = trace conn @ [CloseFrame sock, SocketClosed sock]"
  by (simp add: close_def)

lemma trace_cancel [simp]: "trace (cancel conn) = trace conn @ [Cancelled]"
  by (simp add: cancel_def)




lemma length_timers_stopTimer [simp]: "length (timers (stopTimer t conn)) = length (timers conn)"
  by (simp add: stopTimer_def emit_def)





















subsection \<open>A request that fails after its handler has run\<close>

lemma run_shutdownRace:
  "run shutdownRace connectedConn =
     Some (connectedConn\<lparr>
       connectionStatus := Disconnected, readChClosed := True, ctxDone := True, wg := 2,
       watcher := Finished,
       timers := [\<lparr>tmState = Stopped, tmAfter = Minute, tmID = 7, tmExpire = 2\<rparr>],
       calls := [Returned (Some brokenConnection)],
       trace := [ConnectEvent Connected, Cancelled, ConnectEvent Disconnected,
                 Logged ''Sending close 1000 (normal) message.'', CloseFrame 1, SocketClosed 1,
                 TimerStop 0, RanAbort \<lparr>expiration = 0, hf = 1, abort = 2\<rparr>, ReadChClosed]\<rparr>)"
  by (simp add: shutdownRace_def connectedConn_def newConn_def exampleCfg_def logReq_def
      cancel_def setConnectionStatus_def closeSocket_def close_def drainAndClose_def
      closeReadCh_def stopTimer_def respHandler_def IsDown_def emit_def Let_def)

lemma run_expiryRace:
  "run expiryRace connectedConn =
     Some (connectedConn\<lparr>
       timers := [\<lparr>tmState = Expired, tmAfter = 0, tmID = 7, tmExpire = 2\<rparr>],
       calls := [Returned (Some (Errorf ''write: broken pipe''))],
       trace := [ConnectEvent Connected, RanExpire 0 2, Logged ''Send: WriteMessage error'']\<rparr>)"
  by (simp add: expiryRace_def connectedConn_def newConn_def exampleCfg_def logReq_def
      doExpire_def expire_def writeLocked_def respHandler_def IsDown_def emit_def Let_def)

text \<open>
  C1.  The code does not keep the second half of the claim, which is also what the
  comment of \<open>RequestWithTimeout\<close> promises (a non-nil error guarantees that neither
  function will run).  \<open>RequestRawWithTimeout\<close> registers the handler, releases the registry
  lock, sends, and takes the handler back only after the send has failed.  In between,
  the shutdown watcher can drain the registry and run the abort, or the expiry timer can
  fire and run the expire function; the send then fails, \<open>respHandler\<close> finds nothing to
  take back, and the call returns the error.  Both runs start from the example connection
  after a successful \<open>Connect\<close>, with one request, of ID 7.
\<close>

theorem request_error_after_outcome:
  "run shutdownRace connectedConn \<noteq> None \<and>
   calls (after shutdownRace connectedConn) = [Returned (Some brokenConnection)] \<and>
   RanAbort \<lparr>expiration = 0, hf = 1, abort = 2\<rparr> \<in> set (trace (after shutdownRace connectedConn)) \<and>
   outcomes 0 (after shutdownRace connectedConn) = 1 \<and>
   run expiryRace connectedConn \<noteq> None \<and>
   calls (after expiryRace connectedConn) = [Returned (Some (Errorf ''write: broken pipe''))] \<and>
   RanExpire 0 2 \<in> set (trace (after expiryRace connectedConn)) \<and>
   outcomes 0 (after expiryRace connectedConn) = 1"
  by (simp add: after_def run_shutdownRace run_expiryRace outcomes_def)

lemma reach_shutdownRace: "reach exampleCfg (after shutdownRace connectedConn)"
proof -
  have "run shutdownRace connectedConn = Some (after shutdownRace connectedConn)"
    by (rule run_after) (simp add: run_shutdownRace)
  with reach_connectedConn show ?thesis by (rule reach_run)
qed

end
